(* ===== verification/Prelude.thy ===== *)
theory Prelude
  imports Complex_Main "HOL-Library.AList"
begin

text \<open>
  The JavaScript layer shared by every component: truthiness, strings, objects with
  insertion order, array search and sorting, and the generic lemmas about them.

  A JavaScript string is a \<^typ>\<open>string\<close>; letters outside ASCII are left alone by
  \<open>to_lower\<close>. A value that may be \<open>undefined\<close> or \<open>null\<close> is an option. An object used
  as a dictionary is an association list in insertion order.
\<close>

named_theorems js_simps "unfolding rules of the JavaScript layer, for evaluation"
named_theorems js_obj "laws of insertion-ordered objects"

subsection \<open>Truthiness\<close>

definition truthy :: "string option \<Rightarrow> bool" where
  "truthy s = (case s of None \<Rightarrow> False | Some x \<Rightarrow> x \<noteq> [])"

text \<open>The operator \<open>s || d\<close> on strings, and on numbers.\<close>

definition or_else :: "string option \<Rightarrow> string \<Rightarrow> string" where
  "or_else s d = (case s of None \<Rightarrow> d | Some x \<Rightarrow> if x = [] then d else x)"

definition or_default :: "'a option \<Rightarrow> 'a \<Rightarrow> 'a" where
  "or_default v d = (case v of None \<Rightarrow> d | Some x \<Rightarrow> x)"

lemma or_default_simps [simp]: "or_default None d = d" "or_default (Some x) d = x"
  by (simp_all add: or_default_def)

definition or_else_nat :: "nat option \<Rightarrow> nat \<Rightarrow> nat" where
  "or_else_nat v d = (case v of None \<Rightarrow> d | Some n \<Rightarrow> if n = 0 then d else n)"

lemma truthy_simps [simp]:
  "\<not> truthy None" "truthy (Some s) = (s \<noteq> [])"
  by (simp_all add: truthy_def)

lemma or_else_simps [simp]:
  "or_else None d = d" "or_else (Some s) d = (if s = [] then d else s)"
  by (simp_all add: or_else_def)

lemma or_else_nat_simps [simp]:
  "or_else_nat None d = d" "or_else_nat (Some n) d = (if n = 0 then d else n)"
  by (simp_all add: or_else_nat_def)

text \<open>
  A number is an exact rational, \<open>None\<close> stands for \<open>NaN\<close>: a comparison with \<open>NaN\<close> is
  false. The rounding of IEEE doubles is not modelled.
\<close>

type_synonym num_js = "rat option"

definition num_ge :: "num_js \<Rightarrow> num_js \<Rightarrow> bool" where
  "num_ge a b = (case (a, b) of (Some x, Some y) \<Rightarrow> y \<le> x | _ \<Rightarrow> False)"

lemma num_ge_simps [simp]:
  "num_ge (Some x) (Some y) = (y \<le> x)" "\<not> num_ge None b" "\<not> num_ge a None"
  by (auto simp: num_ge_def split: option.splits)

definition num_gt :: "num_js \<Rightarrow> rat \<Rightarrow> bool" where
  "num_gt v x = (case v of None \<Rightarrow> False | Some y \<Rightarrow> x < y)"

lemma or_else_nat_pos: "0 < d \<Longrightarrow> 0 < or_else_nat v d"
  by (cases v) auto

subsection \<open>Strings\<close>

definition lower_table :: "(char \<times> char) list" where
  "lower_table = zip ''ABCDEFGHIJKLMNOPQRSTUVWXYZ'' ''abcdefghijklmnopqrstuvwxyz''"

definition lower_char :: "char \<Rightarrow> char" where
  "lower_char c = (case map_of lower_table c of None \<Rightarrow> c | Some d \<Rightarrow> d)"

definition to_lower :: "string \<Rightarrow> string" where
  "to_lower s = map lower_char s"

definition starts_with :: "string \<Rightarrow> string \<Rightarrow> bool" where
  "starts_with p s \<longleftrightarrow> take (length p) s = p"

definition ends_with :: "string \<Rightarrow> string \<Rightarrow> bool" where
  "ends_with p s \<longleftrightarrow> length p \<le> length s \<and> drop (length s - length p) s = p"

definition substr :: "nat \<Rightarrow> nat \<Rightarrow> string \<Rightarrow> string" where
  "substr i j s = take (j - i) (drop i s)"

fun index_of :: "char \<Rightarrow> string \<Rightarrow> nat option" where
  "index_of c [] = None"
| "index_of c (x # xs) = (if x = c then Some 0 else map_option Suc (index_of c xs))"

fun last_index_of :: "char \<Rightarrow> string \<Rightarrow> nat option" where
  "last_index_of c [] = None"
| "last_index_of c (x # xs) =
     (case last_index_of c xs of
        Some i \<Rightarrow> Some (Suc i)
      | None \<Rightarrow> if x = c then Some 0 else None)"

fun split_on :: "char \<Rightarrow> string \<Rightarrow> string list" where
  "split_on c [] = [[]]"
| "split_on c (x # xs) =
     (if x = c then [] # split_on c xs
      else (case split_on c xs of
              [] \<Rightarrow> [[x]]
            | p # ps \<Rightarrow> (x # p) # ps))"

fun join_with :: "string \<Rightarrow> string list \<Rightarrow> string" where
  "join_with sep [] = []"
| "join_with sep [s] = s"
| "join_with sep (s # t # ts) = s @ sep @ join_with sep (t # ts)"

definition is_space :: "char \<Rightarrow> bool" where
  "is_space c \<longleftrightarrow> c \<in> {CHR 0x20, CHR 0x09, CHR 0x0A, CHR 0x0B, CHR 0x0C, CHR 0x0D, CHR 0xA0}"

definition trim :: "string \<Rightarrow> string" where
  "trim s = rev (dropWhile is_space (rev (dropWhile is_space s)))"

definition digit_char :: "nat \<Rightarrow> char" where
  "digit_char n = ''0123456789'' ! n"

fun nat_str :: "nat \<Rightarrow> string" where
  "nat_str n = (if n < 10 then [digit_char n] else nat_str (n div 10) @ [digit_char (n mod 10)])"

declare nat_str.simps [simp del]

text \<open>
  \<open>Number.parseFloat\<close>: the longest decimal prefix after white space, \<open>None\<close> for \<open>NaN\<close>.
  \<open>Infinity\<close> has no counterpart among the rationals and reads as \<open>NaN\<close>.
\<close>

definition digit_val :: "char \<Rightarrow> nat option" where
  "digit_val c = index_of c ''0123456789''"

fun digits_of :: "string \<Rightarrow> nat list \<times> string" where
  "digits_of [] = ([], [])"
| "digits_of (c # cs) =
     (case digit_val c of
        None \<Rightarrow> ([], c # cs)
      | Some d \<Rightarrow> (let (ds, rest) = digits_of cs in (d # ds, rest)))"

definition digits_num :: "nat list \<Rightarrow> rat" where
  "digits_num ds = foldl (\<lambda>a d. 10 * a + of_nat d) 0 ds"

definition sign_of :: "string \<Rightarrow> rat \<times> string" where
  "sign_of s = (case s of
      [] \<Rightarrow> (1, s)
    | c # cs \<Rightarrow> if c = CHR ''-'' then (-1, cs) else if c = CHR ''+'' then (1, cs) else (1, s))"

definition exponent_of :: "string \<Rightarrow> int" where
  "exponent_of s = (case s of
      [] \<Rightarrow> 0
    | c # cs \<Rightarrow>
        if c = CHR ''e'' \<or> c = CHR ''E'' then
          (let (sg, r) = sign_of cs; (ds, _) = digits_of r
           in if sg < 0 then - \<lfloor>digits_num ds\<rfloor> else \<lfloor>digits_num ds\<rfloor>)
        else 0)"

definition parse_float :: "string \<Rightarrow> num_js" where
  "parse_float s0 =
     (let (sg, s) = sign_of (dropWhile is_space s0);
          (ip, r) = digits_of s;
          (fp, r') = (case r of c # cs \<Rightarrow> if c = CHR ''.'' then digits_of cs else ([], r)
                              | [] \<Rightarrow> ([], r));
          m = digits_num (ip @ fp) / 10 ^ length fp;
          e = exponent_of r'
      in if ip = [] \<and> fp = [] then None
         else Some (sg * (if e < 0 then m / 10 ^ nat (- e) else m * 10 ^ nat e)))"

text \<open>
  The unary \<open>+\<close> on text: a whole decimal number between white space, 0 for the empty text.
  Hexadecimal, octal and binary literals are not covered.
\<close>

definition to_number :: "string \<Rightarrow> num_js" where
  "to_number s0 =
     (let s = trim s0; (sg, u) = sign_of s; (ip, r) = digits_of u;
          (fp, r1) = (case r of c # cs \<Rightarrow> if c = CHR ''.'' then digits_of cs else ([], r) | [] \<Rightarrow> ([], r));
          whole = (case r1 of [] \<Rightarrow> True
            | c # cs \<Rightarrow> (c = CHR ''e'' \<or> c = CHR ''E'') \<and>
                 (let (ds, w) = digits_of (snd (sign_of cs)) in ds \<noteq> [] \<and> w = []))
      in if s = [] then Some 0 else if whole then parse_float s else None)"

text \<open>\<open>Number.parseInt\<close>, for decimal text.\<close>

definition parse_int :: "string \<Rightarrow> int option" where
  "parse_int s0 =
     (let (sg, s) = sign_of (dropWhile is_space s0); (ds, _) = digits_of s
      in if ds = [] then None
         else Some ((if sg < 0 then -1 else 1) * \<lfloor>digits_num ds\<rfloor>))"

definition pad_start :: "nat \<Rightarrow> char \<Rightarrow> string \<Rightarrow> string" where
  "pad_start w c s = replicate (w - length s) c @ s"

text \<open>\<open>replace\<close> with a text, which replaces the first hit, and \<open>includes\<close>.\<close>

fun replace_first :: "string \<Rightarrow> string \<Rightarrow> string \<Rightarrow> string" where
  "replace_first a b [] = (if a = [] then b else [])"
| "replace_first a b (c # cs) =
     (if starts_with a (c # cs) then b @ drop (length a) (c # cs) else c # replace_first a b cs)"

fun contains :: "string \<Rightarrow> string \<Rightarrow> bool" where
  "contains a [] = (a = [])"
| "contains a (c # cs) = (starts_with a (c # cs) \<or> contains a cs)"

text \<open>The operator \<open><\<close> on strings: lexicographic by character code, a proper prefix first.\<close>

fun str_less :: "string \<Rightarrow> string \<Rightarrow> bool" where
  "str_less [] [] = False"
| "str_less [] (y # ys) = True"
| "str_less (x # xs) [] = False"
| "str_less (x # xs) (y # ys) =
     ((of_char x :: nat) < of_char y \<or> (x = y \<and> str_less xs ys))"

lemmas [js_simps] = lower_table_def lower_char_def to_lower_def starts_with_def
  ends_with_def substr_def is_space_def trim_def digit_char_def nat_str.simps pad_start_def
  digit_val_def digits_num_def sign_of_def exponent_of_def parse_float_def parse_int_def

lemma starts_with_iff: "starts_with p s \<longleftrightarrow> (\<exists>t. s = p @ t)"
  unfolding starts_with_def by (metis append_eq_conv_conj append_take_drop_id)

lemma ends_with_iff: "ends_with p s \<longleftrightarrow> (\<exists>t. s = t @ p)"
proof
  assume "ends_with p s"
  then show "\<exists>t. s = t @ p"
    unfolding ends_with_def by (metis append_take_drop_id)
qed (auto simp: ends_with_def)

lemma ends_with_Nil [simp]: "ends_with [] s"
  by (simp add: ends_with_def)

lemma starts_with_Nil [simp]: "starts_with [] s"
  by (simp add: starts_with_def)

text \<open>Two postfixes of one string with the same length are equal, so the longest one is unique.\<close>

lemma ends_with_same_length:
  "ends_with p s \<Longrightarrow> ends_with q s \<Longrightarrow> length p = length q \<Longrightarrow> p = q"
  by (metis ends_with_def)

lemma str_less_irrefl [simp]: "\<not> str_less s s"
  by (induction s) auto

lemma str_less_trans: "str_less a b \<Longrightarrow> str_less b c \<Longrightarrow> str_less a c"
proof (induction a arbitrary: b c)
  case Nil
  then show ?case by (cases b; cases c) auto
next
  case (Cons x xs)
  then show ?case by (cases b; cases c) (auto simp: less_trans)
qed

lemma str_less_linear: "a = b \<or> str_less a b \<or> str_less b a"
proof (induction a arbitrary: b)
  case Nil
  then show ?case by (cases b) auto
next
  case (Cons x xs)
  show ?case
  proof (cases b)
    case (Cons y ys)
    have "(of_char x :: nat) = of_char y \<Longrightarrow> x = y"
      by (metis char_of_char)
    then show ?thesis
      using Cons Cons.IH [of ys] by (auto simp: neq_iff)
  qed simp
qed

lemma str_less_asym: "str_less a b \<Longrightarrow> \<not> str_less b a"
  using str_less_trans str_less_irrefl by blast

lemma str_less_append_same: "str_less (p @ a) (p @ b) = str_less a b"
  by (induction p) auto

lemma str_less_append_fixed:
  "length a = length b \<Longrightarrow>
   str_less (a @ x) (b @ y) = (str_less a b \<or> (a = b \<and> str_less x y))"
  by (induction a b rule: list_induct2) auto

text \<open>Decimal text of a fixed width, in which the order of strings is the order of numbers.\<close>

fun digits_fixed :: "nat \<Rightarrow> nat \<Rightarrow> string" where
  "digits_fixed 0 n = []"
| "digits_fixed (Suc w) n = digits_fixed w (n div 10) @ [digit_char (n mod 10)]"

lemma length_digits_fixed [simp]: "length (digits_fixed w n) = w"
  by (induction w arbitrary: n) auto

lemma digits_fixed_0: "digits_fixed w 0 = replicate w CHR ''0''"
proof (induction w)
  case (Suc w)
  have "digit_char 0 = CHR ''0''" by (simp add: digit_char_def)
  then show ?case by (simp add: Suc replicate_append_same)
qed simp

lemma nat_str_digits:
  "n < 10 ^ w \<Longrightarrow> 0 < w \<Longrightarrow> length (nat_str n) \<le> w \<and> pad_start w CHR ''0'' (nat_str n) = digits_fixed w n"
proof (induction w arbitrary: n)
  case (Suc w)
  show ?case
  proof (cases "n < 10")
    case True
    then have "nat_str n = [digit_char n]" by (simp add: nat_str.simps)
    then show ?thesis using True
      by (simp add: pad_start_def digits_fixed_0)
  next
    case False
    then have n: "nat_str n = nat_str (n div 10) @ [digit_char (n mod 10)]"
      by (subst nat_str.simps) simp
    have "w \<noteq> 0"
    proof
      assume "w = 0"
      with Suc.prems False show False by simp
    qed
    moreover have "n div 10 < 10 ^ w" using Suc.prems by (simp add: div_less_iff_less_mult mult.commute)
    ultimately show ?thesis
      using Suc.IH [of "n div 10"] by (simp add: n pad_start_def)
  qed
qed simp

lemma digit_char_less:
  "a < 10 \<Longrightarrow> b < 10 \<Longrightarrow> ((of_char (digit_char a) :: nat) < of_char (digit_char b)) = (a < b)"
proof -
  assume "a < 10" "b < 10"
  moreover have d: "(of_char (digit_char c) :: nat) = 48 + c" if "c < 10" for c
  proof -
    have "c \<in> {0, 1, 2, 3, 4, 5, 6, 7, 8, 9}" using that by auto
    then show ?thesis by (auto simp: digit_char_def)
  qed
  ultimately show ?thesis by simp
qed

lemma digits_fixed_inj:
  "a < 10 ^ w \<Longrightarrow> b < 10 ^ w \<Longrightarrow> digits_fixed w a = digits_fixed w b \<Longrightarrow> a = b"
proof (induction w arbitrary: a b)
  case (Suc w)
  have "a div 10 < 10 ^ w" "b div 10 < 10 ^ w"
    using Suc.prems by (simp_all add: div_less_iff_less_mult mult.commute)
  then have "a div 10 = b div 10" using Suc by simp
  moreover have "digit_char (a mod 10) = digit_char (b mod 10)" using Suc.prems by simp
  then have "a mod 10 = b mod 10"
    using digit_char_less [of "a mod 10" "b mod 10"] digit_char_less [of "b mod 10" "a mod 10"]
    by (metis less_irrefl mod_less_divisor nat_neq_iff zero_less_numeral)
  ultimately show ?case by (metis div_mult_mod_eq)
qed simp

lemma str_less_digits:
  "a < 10 ^ w \<Longrightarrow> b < 10 ^ w \<Longrightarrow> str_less (digits_fixed w a) (digits_fixed w b) = (a < b)"
proof (induction w arbitrary: a b)
  case (Suc w)
  have r: "a div 10 < 10 ^ w" "b div 10 < 10 ^ w"
    using Suc.prems by (simp_all add: div_less_iff_less_mult mult.commute)
  have "str_less (digits_fixed (Suc w) a) (digits_fixed (Suc w) b) \<longleftrightarrow>
      a div 10 < b div 10 \<or> (a div 10 = b div 10 \<and> a mod 10 < b mod 10)"
    using Suc.IH [OF r] digits_fixed_inj [OF r]
    by (auto simp: str_less_append_fixed digit_char_less)
  also have "\<dots> \<longleftrightarrow> a < b"
  proof -
    have "a = 10 * (a div 10) + a mod 10" "b = 10 * (b div 10) + b mod 10"
      "a mod 10 < 10" "b mod 10 < 10"
      by simp_all
    then show ?thesis by linarith
  qed
  finally show ?case .
qed simp

lemma split_on_not_Nil [simp]: "split_on c s \<noteq> []"
  by (induction s) (auto split: list.splits)

lemma join_with_Cons_Cons: "join_with sep ((x # p) # ps) = x # join_with sep (p # ps)"
  by (cases ps) auto

lemma join_split [simp]: "join_with [c] (split_on c s) = s"
proof (induction s)
  case (Cons x xs)
  then show ?case
    by (cases "split_on c xs") (auto simp: join_with_Cons_Cons)
qed simp

subsection \<open>Objects: association lists in insertion order\<close>

type_synonym 'v obj = "(string \<times> 'v) list"

abbreviation obj_get :: "'v obj \<Rightarrow> string \<Rightarrow> 'v option" where
  "obj_get \<equiv> map_of"

abbreviation obj_set :: "string \<Rightarrow> 'v \<Rightarrow> 'v obj \<Rightarrow> 'v obj" where
  "obj_set \<equiv> AList.update"

abbreviation obj_del :: "string \<Rightarrow> 'v obj \<Rightarrow> 'v obj" where
  "obj_del \<equiv> AList.delete"

text \<open>\<open>(o[k] ??= []).push(v)\<close>\<close>

definition obj_push :: "string \<Rightarrow> 'v \<Rightarrow> 'v list obj \<Rightarrow> 'v list obj" where
  "obj_push k v ob =
     obj_set k ((case obj_get ob k of None \<Rightarrow> [] | Some vs \<Rightarrow> vs) @ [v]) ob"

lemma obj_get_set [simp, js_obj]:
  "obj_get (obj_set k v ob) k' = (if k' = k then Some v else obj_get ob k')"
  by (simp add: update_conv')

lemma obj_get_del [simp, js_obj]:
  "obj_get (obj_del k ob) k' = (if k' = k then None else obj_get ob k')"
  by (simp add: delete_conv')

lemma obj_get_push [simp, js_obj]:
  "obj_get (obj_push k v ob) k' =
     (if k' = k then Some ((case obj_get ob k of None \<Rightarrow> [] | Some vs \<Rightarrow> vs) @ [v])
      else obj_get ob k')"
  by (simp add: obj_push_def)

lemma distinct_keys_push [js_obj]:
  "distinct (map fst ob) \<Longrightarrow> distinct (map fst (obj_push k v ob))"
  by (simp add: obj_push_def distinct_update)

subsection \<open>Exceptions\<close>

text \<open>
  A raised exception is the left value of a sum; \<open>map_res\<close> and \<open>filter_res\<close> are
  \<open>Array.map\<close> and \<open>Array.filter\<close> with a callback that may raise: the first raise ends
  the loop.
\<close>

datatype js_error = TypeError | ReferenceError string | Thrown string

fun bind_res :: "js_error + 'a \<Rightarrow> ('a \<Rightarrow> js_error + 'b) \<Rightarrow> js_error + 'b" where
  "bind_res (Inl e) f = Inl e"
| "bind_res (Inr a) f = f a"

fun map_res :: "('a \<Rightarrow> js_error + 'b) \<Rightarrow> 'a list \<Rightarrow> js_error + 'b list" where
  "map_res f [] = Inr []"
| "map_res f (x # xs) = bind_res (f x) (\<lambda>y. bind_res (map_res f xs) (\<lambda>ys. Inr (y # ys)))"

fun filter_res :: "('a \<Rightarrow> js_error + bool) \<Rightarrow> 'a list \<Rightarrow> js_error + 'a list" where
  "filter_res p [] = Inr []"
| "filter_res p (x # xs) =
     bind_res (p x) (\<lambda>b. bind_res (filter_res p xs) (\<lambda>ys. Inr (if b then x # ys else ys)))"

lemma bind_res_Inr_iff: "bind_res r f = Inr b \<longleftrightarrow> (\<exists>a. r = Inr a \<and> f a = Inr b)"
  by (cases r) auto

lemma bind_res_assoc: "bind_res (bind_res r f) g = bind_res r (\<lambda>x. bind_res (f x) g)"
  by (cases r) auto

lemma map_res_Inr_iff: "map_res f xs = Inr ys \<longleftrightarrow> list_all2 (\<lambda>x y. f x = Inr y) xs ys"
  by (induction xs arbitrary: ys) (auto simp: bind_res_Inr_iff list_all2_Cons1)

lemma map_res_list_all:
  "map_res g xs = Inr ys \<Longrightarrow> list_all P ys = list_all (\<lambda>x. \<exists>y. g x = Inr y \<and> P y) xs"
  by (induction xs arbitrary: ys) (auto simp: bind_res_Inr_iff)

lemma list_all_filters:
  "(list_all A (filter P xs) \<and> list_all B (filter Q xs)) =
   list_all (\<lambda>x. (P x \<longrightarrow> A x) \<and> (Q x \<longrightarrow> B x)) xs"
  by (induction xs) auto

lemma map_res_total: "(\<And>x. x \<in> set xs \<Longrightarrow> f x = Inr (g x)) \<Longrightarrow> map_res f xs = Inr (map g xs)"
  by (induction xs) auto

lemma filter_res_total:
  "(\<And>x. x \<in> set xs \<Longrightarrow> p x = Inr (q x)) \<Longrightarrow> filter_res p xs = Inr (filter q xs)"
  by (induction xs) auto

lemma filter_res_in_set:
  "filter_res p xs = Inr ys \<Longrightarrow> y \<in> set ys \<longleftrightarrow> y \<in> set xs \<and> p y = Inr True"
proof (induction xs arbitrary: ys)
  case (Cons x xs)
  then obtain b zs where "p x = Inr b" "filter_res p xs = Inr zs"
    "ys = (if b then x # zs else zs)"
    by (auto simp: bind_res_Inr_iff)
  then show ?case using Cons.IH by auto
qed auto

subsection \<open>Array search and sort\<close>

text \<open>
  \<open>Array.sort\<close> is stable. With a consistent comparator its result does not depend on the
  algorithm, so insertion sort stands for it.
\<close>

fun js_insert :: "('a \<Rightarrow> 'a \<Rightarrow> int) \<Rightarrow> 'a \<Rightarrow> 'a list \<Rightarrow> 'a list" where
  "js_insert cmp x [] = [x]"
| "js_insert cmp x (y # ys) = (if cmp x y \<le> 0 then x # y # ys else y # js_insert cmp x ys)"

fun js_sort :: "('a \<Rightarrow> 'a \<Rightarrow> int) \<Rightarrow> 'a list \<Rightarrow> 'a list" where
  "js_sort cmp [] = []"
| "js_sort cmp (x # xs) = js_insert cmp x (js_sort cmp xs)"

lemma set_js_insert [simp]: "set (js_insert cmp x ys) = insert x (set ys)"
  by (induction ys) auto

lemma set_js_sort [simp]: "set (js_sort cmp xs) = set xs"
  by (induction xs) auto

lemma length_js_insert [simp]: "length (js_insert cmp x ys) = Suc (length ys)"
  by (induction ys) auto

lemma length_js_sort [simp]: "length (js_sort cmp xs) = length xs"
  by (induction xs) auto

lemma js_insert_sorted:
  assumes trans: "\<And>x y z. cmp x y \<le> 0 \<Longrightarrow> cmp y z \<le> 0 \<Longrightarrow> cmp x z \<le> 0"
    and total: "\<And>y. y \<in> set ys \<Longrightarrow> cmp x y \<le> 0 \<or> cmp y x \<le> 0"
    and sorted: "sorted_wrt (\<lambda>a b. cmp a b \<le> 0) ys"
  shows "sorted_wrt (\<lambda>a b. cmp a b \<le> 0) (js_insert cmp x ys)"
  using total sorted
proof (induction ys)
  case (Cons y ys)
  then show ?case using trans by auto
qed simp

lemma js_sort_sorted:
  assumes trans: "\<And>x y z. cmp x y \<le> 0 \<Longrightarrow> cmp y z \<le> 0 \<Longrightarrow> cmp x z \<le> 0"
    and total: "sorted_wrt (\<lambda>x y. cmp x y \<le> 0 \<or> cmp y x \<le> 0) xs"
  shows "sorted_wrt (\<lambda>a b. cmp a b \<le> 0) (js_sort cmp xs)"
  using total
proof (induction xs)
  case (Cons x xs)
  then have "sorted_wrt (\<lambda>a b. cmp a b \<le> 0) (js_insert cmp x (js_sort cmp xs))"
    by (intro js_insert_sorted [OF trans]) auto
  then show ?case by simp
qed simp

lemma filter_js_insert:
  assumes "\<And>a b. P a \<Longrightarrow> P b \<Longrightarrow> cmp a b \<le> 0"
  shows "filter P (js_insert cmp x ys) = (if P x then x # filter P ys else filter P ys)"
  using assms by (induction ys) auto

lemma js_insert_map: "js_insert cmp (f x) (map f ys) = map f (js_insert (\<lambda>a b. cmp (f a) (f b)) x ys)"
  by (induction ys) auto

lemma js_sort_map: "js_sort cmp (map f xs) = map f (js_sort (\<lambda>a b. cmp (f a) (f b)) xs)"
  by (induction xs) (simp_all add: js_insert_map)

lemma distinct_js_sort: "distinct xs \<Longrightarrow> distinct (js_sort cmp xs)"
  using card_distinct [of "js_sort cmp xs"] by (simp add: distinct_card)

text \<open>Stability: elements that compare equal keep their order.\<close>

lemma js_sort_stable:
  assumes "\<And>a b. P a \<Longrightarrow> P b \<Longrightarrow> cmp a b \<le> 0"
  shows "filter P (js_sort cmp xs) = filter P xs"
  using assms by (induction xs) (simp_all add: filter_js_insert)

lemma list_all2_map_eq:
  "list_all2 P xs ys \<Longrightarrow> (\<And>x y. P x y \<Longrightarrow> f y = x) \<Longrightarrow> map f ys = xs"
  by (induction rule: list_all2_induct) auto

lemma list_all2_in2: "list_all2 P xs ys \<Longrightarrow> y \<in> set ys \<Longrightarrow> \<exists>x \<in> set xs. P x y"
  by (induction rule: list_all2_induct) auto

lemma find_Some_in: "find P xs = Some x \<Longrightarrow> x \<in> set xs \<and> P x"
  by (auto simp: find_Some_iff)

lemma find_None: "find P xs = None \<longleftrightarrow> (\<forall>x \<in> set xs. \<not> P x)"
  by (auto simp: find_None_iff)

lemma find_sorted:
  assumes "sorted_wrt R xs" "find P xs = Some x" "y \<in> set xs" "P y"
  shows "y = x \<or> R x y"
  using assms by (induction xs) (auto split: if_splits)

lemma find_append: "find P (xs @ ys) = (case find P xs of None \<Rightarrow> find P ys | Some x \<Rightarrow> Some x)"
  by (induction xs) auto

lemma find_map: "find P (map f xs) = map_option f (find (P \<circ> f) xs)"
  by (induction xs) auto

lemma find_filter: "find P (filter Q xs) = find (\<lambda>x. Q x \<and> P x) xs"
  by (induction xs) auto

end
