(* ===== verification/Config.thy ===== *)
theory Config
  imports Prelude
begin

text \<open>
  The configuration data that the gateway reads: resources as the JSON or YAML files
  give them. The code has no classes for them, so a record has one field per property
  the code reads, an option where the code allows it to be missing.

  A resource carries \<open>r_obj\<close>, the identity of the JavaScript object: \<open>indexOf\<close> and
  \<open>!==\<close> on resources compare identities, and two files may hold equal data.
\<close>

record parent_ref =
  pr_kind :: "string option"
  pr_name :: "string option"
  pr_port :: "nat option"
  pr_section :: "string option"

record target_ref =
  tr_kind :: "string option"
  tr_name :: "string option"

text \<open>A filter's own section of its configuration is read by its maker only.\<close>

record filter_conf =
  fc_type :: string
  fc_key :: "string option"

record tls_conf =
  tc_mode :: "string option"
  tc_certificates :: "(string \<times> string) list"
  tc_frontend :: "string list option"
  tc_pqc :: "string option"

record listener =
  l_name :: "string option"
  l_address :: "string option"
  l_port :: nat
  l_protocol :: string
  l_tls :: "tls_conf option"
  l_filters :: "filter_conf list option"
  l_routeFilters :: "filter_conf list option"

record path_match =
  pm_type :: "string option"
  pm_value :: string

record item_match =
  im_type :: "string option"
  im_name :: string
  im_value :: string

record grpc_method =
  gm_type :: "string option"
  gm_service :: "string option"
  gm_method :: "string option"

text \<open>The property \<open>method\<close> of a match is a string, or an object in a GRPCRoute.\<close>

datatype js_method = MethodName string | MethodObject grpc_method

record route_match =
  rm_path :: "path_match option"
  rm_method :: "js_method option"
  rm_headers :: "item_match list option"
  rm_params :: "item_match list option"
  rm_type :: "string option"
  rm_service :: "string option"
  rm_version :: "string option"
  rm_dmethod :: "string option"
  rm_signature :: "string option"

record backend_ref =
  br_kind :: "string option"
  br_name :: "string option"
  br_weight :: "nat option"
  br_filters :: "filter_conf list option"

record timeout_conf =
  to_request :: num_js
  to_backend :: num_js

record retry_conf =
  rc_codes :: "string list option"
  rc_attempts :: num_js
  rc_backoff :: rat

record session_conf =
  sc_type :: "string option"
  sc_name :: string

record rule =
  ru_matches :: "route_match list option"
  ru_filters :: "filter_conf list option"
  ru_backendRefs :: "backend_ref list option"
  ru_timeouts :: "timeout_conf option"
  ru_retry :: "retry_conf option"
  ru_session :: "session_conf option"

record backend_target =
  bt_address :: string
  bt_port :: "nat option"
  bt_appProtocol :: "string option"
  bt_weight :: "nat option"

record conn_timeouts =
  ct_connect :: "num_js option"
  ct_idle :: "num_js option"
  ct_read :: "num_js option"
  ct_write :: "num_js option"

text \<open>A subject alternative name is an object with \<open>type\<close>, \<open>uri\<close> and \<open>hostname\<close>.\<close>

record san_conf =
  sn_type :: "string option"
  sn_uri :: "string option"
  sn_hostname :: "string option"

record tls_validation =
  tv_hostname :: "string option"
  tv_caCertificates :: "string list option"
  tv_sans :: "san_conf list option"

record hc_match =
  hm_statusCodes :: "nat list option"
  hm_body :: "string option"
  hm_headers :: "string obj option"

record hc_conf =
  hc_path :: "string option"
  hc_interval :: "rat option"
  hc_maxFails :: num_js
  hc_failTimeout :: num_js
  hc_matches :: "hc_match list"

text \<open>\<open>spec.ztm.endpoint\<close>: the mesh endpoint of a gateway or of a backend.\<close>

record endpoint =
  ep_id :: "string option"
  ep_name :: "string option"

record spec =
  sp_listeners :: "listener list"
  sp_clientCert :: "(string \<times> string) option"
  sp_parentRefs :: "parent_ref list option"
  sp_hostnames :: "string list option"
  sp_rules :: "rule list option"
  sp_targetRefs :: "target_ref list option"
  sp_targets :: "backend_target list option"
  sp_appProtocol :: "string option"
  sp_algorithm :: "string option"
  sp_timeouts :: "conn_timeouts option"
  sp_session :: "session_conf option"
  sp_validation :: "tls_validation option"
  sp_pqc :: "string option"
  sp_ports :: "(nat \<times> hc_conf) list"
  sp_endpoint :: "endpoint option"

record resource =
  r_obj :: nat
  r_kind :: "string option"
  r_name :: "string option"
  r_spec :: "spec option"

text \<open>Objects with no property set, from which examples are built.\<close>

definition no_match :: route_match where
  "no_match = \<lparr>rm_path = None, rm_method = None, rm_headers = None, rm_params = None,
     rm_type = None, rm_service = None, rm_version = None, rm_dmethod = None,
     rm_signature = None\<rparr>"

definition no_rule :: rule where
  "no_rule = \<lparr>ru_matches = None, ru_filters = None, ru_backendRefs = None,
     ru_timeouts = None, ru_retry = None, ru_session = None\<rparr>"

definition no_spec :: spec where
  "no_spec = \<lparr>sp_listeners = [], sp_clientCert = None, sp_parentRefs = None,
     sp_hostnames = None, sp_rules = None, sp_targetRefs = None, sp_targets = None,
     sp_appProtocol = None, sp_algorithm = None, sp_timeouts = None, sp_session = None,
     sp_validation = None, sp_pqc = None, sp_ports = [], sp_endpoint = None\<rparr>"

definition no_listener :: listener where
  "no_listener = \<lparr>l_name = None, l_address = None, l_port = 0, l_protocol = [],
     l_tls = None, l_filters = None, l_routeFilters = None\<rparr>"

lemmas no_defs = no_match_def no_rule_def no_spec_def no_listener_def

end
