(* ===== verification/Resources.thy ===== *)
theory Resources
  imports Config
begin

text \<open>
  The resource store, \<open>src/resources.js\<close>: the resources by kind (in load order and by
  name), the file each one came from, the secrets, and the one-shot updaters that
  routers, backends and health checks register to be told of a change.

  A callback is a value of the type \<open>'cb\<close>; what running it does to the store is a
  parameter of \<open>run_updaters\<close>. The files' contents, their decoders and
  \<open>os.path.basename\<close> belong to the host, and are parameters too.
\<close>

subsection \<open>State\<close>

record kind_map =
  km_list :: "resource list"
  km_dict :: "resource obj"

record 'cb store =
  s_map :: "kind_map obj"
  s_files :: "resource obj"
  s_secrets :: "string obj"
  s_updaters :: "'cb list obj obj"

definition empty_store :: "'cb store" where
  "empty_store = \<lparr>s_map = [], s_files = [], s_secrets = [], s_updaters = []\<rparr>"

text \<open>The arguments of \<open>onResourceChange\<close>: the new and the old resource.\<close>

type_synonym notice = "resource option \<times> resource option"

subsection \<open>Resources by kind\<close>

definition no_kind_map :: kind_map where
  "no_kind_map = \<lparr>km_list = [], km_dict = []\<rparr>"

definition kind_map_of :: "'cb store \<Rightarrow> string \<Rightarrow> kind_map" where
  "kind_map_of s k = (case obj_get (s_map s) k of None \<Rightarrow> no_kind_map | Some m \<Rightarrow> m)"

definition append_resource :: "resource \<Rightarrow> 'cb store \<Rightarrow> 'cb store" where
  "append_resource r s =
     (case r_kind r of
        None \<Rightarrow> s
      | Some k \<Rightarrow>
          if k = [] then s
          else (let m = kind_map_of s k;
                    d = (case r_name r of
                           None \<Rightarrow> km_dict m
                         | Some n \<Rightarrow> if n = [] then km_dict m else obj_set n r (km_dict m))
                in s\<lparr>s_map := obj_set k \<lparr>km_list = km_list m @ [r], km_dict = d\<rparr> (s_map s)\<rparr>))"

text \<open>\<open>list.indexOf(resource)\<close> and \<open>list.splice(i, 1)\<close>: the first entry that is this object.\<close>

fun splice_obj :: "nat \<Rightarrow> resource list \<Rightarrow> resource list" where
  "splice_obj i [] = []"
| "splice_obj i (r # rs) = (if r_obj r = i then rs else r # splice_obj i rs)"

definition remove_resource :: "resource \<Rightarrow> 'cb store \<Rightarrow> 'cb store" where
  "remove_resource r s =
     (case r_kind r of
        None \<Rightarrow> s
      | Some k \<Rightarrow>
          if k = [] then s
          else (case obj_get (s_map s) k of
                  None \<Rightarrow> s
                | Some m \<Rightarrow>
                    (let d = (case r_name r of
                                None \<Rightarrow> km_dict m
                              | Some n \<Rightarrow> if n = [] then km_dict m else obj_del n (km_dict m))
                     in s\<lparr>s_map := obj_set k
                           \<lparr>km_list = splice_obj (r_obj r) (km_list m), km_dict = d\<rparr> (s_map s)\<rparr>)))"

definition list_resources :: "'cb store \<Rightarrow> string \<Rightarrow> resource list" where
  "list_resources s k = km_list (kind_map_of s k)"

definition find_resource :: "'cb store \<Rightarrow> string \<Rightarrow> string \<Rightarrow> resource option" where
  "find_resource s k n = obj_get (km_dict (kind_map_of s k)) n"

subsection \<open>Files\<close>

definition is_json :: "string \<Rightarrow> bool" where
  "is_json f \<longleftrightarrow> ends_with ''.json'' f"

definition is_yaml :: "string \<Rightarrow> bool" where
  "is_yaml f \<longleftrightarrow> ends_with ''.yaml'' f \<or> ends_with ''.yml'' f"

definition is_secret :: "string \<Rightarrow> bool" where
  "is_secret f \<longleftrightarrow> ends_with ''.crt'' f \<or> ends_with ''.key'' f"

text \<open>
  \<open>readFile\<close>: a decoder gives \<open>None\<close> when it throws, which is caught; a secret is stored
  and nothing is returned.
\<close>

definition read_file ::
    "(string \<Rightarrow> resource option) \<Rightarrow> (string \<Rightarrow> resource option) \<Rightarrow> (string \<Rightarrow> string) \<Rightarrow>
     (string \<Rightarrow> string) \<Rightarrow> string \<Rightarrow> 'cb store \<Rightarrow> resource option \<times> 'cb store" where
  "read_file json yaml basename load f s =
     (if is_json f then (json (load f), s)
      else if is_yaml f then (yaml (load f), s)
      else if is_secret f then
        (None, s\<lparr>s_secrets := obj_set (basename f) (load f) (s_secrets s)\<rparr>)
      else (None, s))"

definition change_file ::
    "string \<Rightarrow> resource option \<Rightarrow> 'cb store \<Rightarrow> 'cb store \<times> notice list" where
  "change_file f cur s =
     (let old = obj_get (s_files s) f;
          s1 = (case old of None \<Rightarrow> s | Some o' \<Rightarrow> remove_resource o' s);
          s2 = (case cur of None \<Rightarrow> s1 | Some c \<Rightarrow> append_resource c s1);
          oldKind = Option.bind old r_kind;
          curKind = Option.bind cur r_kind
      in if truthy curKind \<and> curKind = oldKind then
           (s2\<lparr>s_files := obj_set f (the cur) (s_files s2)\<rparr>, [(cur, old)])
         else if truthy curKind \<and> truthy oldKind then
           (s2\<lparr>s_files := obj_set f (the cur) (s_files s2)\<rparr>, [(None, old), (cur, None)])
         else if cur \<noteq> None then
           (s2\<lparr>s_files := obj_set f (the cur) (s_files s2)\<rparr>, [(cur, None)])
         else if old \<noteq> None then
           (s2\<lparr>s_files := obj_del f (s_files s2)\<rparr>, [(None, old)])
         else (s2, []))"

text \<open>The body of \<open>watch\<close>: every changed path is read and applied, in order.\<close>

fun watch_files ::
    "(string \<Rightarrow> 'cb store \<Rightarrow> resource option \<times> 'cb store) \<Rightarrow> string list \<Rightarrow>
     'cb store \<Rightarrow> 'cb store \<times> notice list" where
  "watch_files rd [] s = (s, [])"
| "watch_files rd (f # fs) s =
     (let (d, s1) = rd f s; (s2, ns) = change_file f d s1; (s3, ms) = watch_files rd fs s2
      in (s3, ns @ ms))"

text \<open>
  The loading loop of \<open>init\<close> over a directory: unlike \<open>changeFile\<close> it wants a kind and a
  spec. The other branch loads the \<open>resources\<close> and \<open>secrets\<close> of one file.
\<close>

fun load_dir ::
    "(string \<Rightarrow> 'cb store \<Rightarrow> resource option \<times> 'cb store) \<Rightarrow> string list \<Rightarrow>
     'cb store \<Rightarrow> 'cb store" where
  "load_dir rd [] s = s"
| "load_dir rd (f # fs) s =
     (let (d, s1) = rd f s
      in load_dir rd fs
           (case d of
              None \<Rightarrow> s1
            | Some r \<Rightarrow>
                if truthy (r_kind r) \<and> r_spec r \<noteq> None
                then append_resource r (s1\<lparr>s_files := obj_set f r (s_files s1)\<rparr>)
                else s1))"

definition load_config :: "resource list \<Rightarrow> string obj \<Rightarrow> 'cb store \<Rightarrow> 'cb store" where
  "load_config rs secrets s =
     (let s1 = foldl (\<lambda>s r. append_resource r s) s rs
      in s1\<lparr>s_secrets := foldl (\<lambda>o' (k, v). obj_set k v o') (s_secrets s1) secrets\<rparr>)"

datatype 'raw path_stat = NoEntry | DirEntry | FileEntry 'raw | OtherEntry

text \<open>
  Where \<open>init\<close> takes its configuration from: \<open>Some\<close> of a file's content, or \<open>None\<close> for the
  directory \<open>/config\<close>.
\<close>

definition init_source ::
    "'raw option \<Rightarrow> 'raw option \<Rightarrow> string list \<Rightarrow> string \<Rightarrow> (string \<Rightarrow> string) \<Rightarrow>
     (string \<Rightarrow> 'raw path_stat) \<Rightarrow> js_error + 'raw option" where
  "init_source jsonFile yamlFile configDir pathname resolve stat =
     (let configFile = (case jsonFile of Some c \<Rightarrow> Some c | None \<Rightarrow> yamlFile);
          hasBuiltin = (configDir \<noteq> [] \<or> configFile \<noteq> None)
      in if pathname \<noteq> [] \<or> \<not> hasBuiltin then
           (let p = resolve (if pathname = [] then ''/etc/fgw'' else pathname)
            in case stat p of
                 NoEntry \<Rightarrow> Inl (Thrown (''configuration file or directory does not exist: '' @ p))
               | DirEntry \<Rightarrow> Inr None
               | FileEntry c \<Rightarrow> Inr (Some c)
               | OtherEntry \<Rightarrow> Inr configFile)
         else Inr configFile)"

subsection \<open>Updaters\<close>

definition listmap_of :: "'cb store \<Rightarrow> string \<Rightarrow> 'cb list obj" where
  "listmap_of s k = (case obj_get (s_updaters s) k of None \<Rightarrow> [] | Some lm \<Rightarrow> lm)"

definition set_updater :: "string \<Rightarrow> string \<Rightarrow> 'cb option \<Rightarrow> 'cb store \<Rightarrow> 'cb store" where
  "set_updater k key cb s =
     s\<lparr>s_updaters := obj_set k
        (obj_set key (case cb of None \<Rightarrow> [] | Some c \<Rightarrow> [c]) (listmap_of s k)) (s_updaters s)\<rparr>"

definition add_updater :: "string \<Rightarrow> string \<Rightarrow> 'cb \<Rightarrow> 'cb store \<Rightarrow> 'cb store" where
  "add_updater k key cb s =
     (let lm = listmap_of s k;
          l = (case obj_get lm key of None \<Rightarrow> [] | Some l \<Rightarrow> l);
          l' = (if cb \<in> set l then l else l @ [cb])
      in s\<lparr>s_updaters := obj_set k (obj_set key l' lm) (s_updaters s)\<rparr>)"

text \<open>
  \<open>runUpdaters\<close>: the entry is deleted before its callbacks run, so that a callback can
  register again. The key \<open>undefined\<close> runs every entry of the kind.
\<close>

definition run_updaters ::
    "('cb \<Rightarrow> 'cb store \<Rightarrow> 'cb store) \<Rightarrow> string \<Rightarrow> string option \<Rightarrow> 'cb store \<Rightarrow>
     bool \<times> 'cb store" where
  "run_updaters exec k key s =
     (case obj_get (s_updaters s) k of
        None \<Rightarrow> (False, s)
      | Some lm \<Rightarrow>
          (case key of
             None \<Rightarrow>
               (True, foldl (\<lambda>s l. foldl (\<lambda>s f. exec f s) s l)
                        (s\<lparr>s_updaters := obj_del k (s_updaters s)\<rparr>) (map snd lm))
           | Some key' \<Rightarrow>
               (case obj_get lm key' of
                  None \<Rightarrow> (False, s)
                | Some l \<Rightarrow>
                    (True, foldl (\<lambda>s f. exec f s)
                             (s\<lparr>s_updaters := obj_set k (obj_del key' lm) (s_updaters s)\<rparr>) l))))"

definition updaters_of :: "'cb store \<Rightarrow> string \<Rightarrow> string \<Rightarrow> 'cb list" where
  "updaters_of s k key = (case obj_get (listmap_of s k) key of None \<Rightarrow> [] | Some l \<Rightarrow> l)"

subsection \<open>Lists and dictionaries after an operation\<close>

lemma kind_map_of_append:
  "kind_map_of (append_resource r s) k =
     (if r_kind r = Some k \<and> k \<noteq> []
      then \<lparr>km_list = km_list (kind_map_of s k) @ [r],
            km_dict = (case r_name r of
                         None \<Rightarrow> km_dict (kind_map_of s k)
                       | Some n \<Rightarrow> if n = [] then km_dict (kind_map_of s k)
                                  else obj_set n r (km_dict (kind_map_of s k)))\<rparr>
      else kind_map_of s k)"
  by (auto simp: append_resource_def kind_map_of_def Let_def split: option.splits)

lemma list_append [simp]:
  "list_resources (append_resource r s) k =
     (if r_kind r = Some k \<and> k \<noteq> [] then list_resources s k @ [r] else list_resources s k)"
  by (simp add: list_resources_def kind_map_of_append)

lemma find_append_resource [simp]:
  "find_resource (append_resource r s) k n =
     (if r_kind r = Some k \<and> k \<noteq> [] \<and> r_name r = Some n \<and> n \<noteq> [] then Some r
      else find_resource s k n)"
  by (auto simp: find_resource_def kind_map_of_append split: option.splits)

lemma kind_map_of_remove:
  "kind_map_of (remove_resource r s) k =
     (if r_kind r = Some k \<and> k \<noteq> []
      then \<lparr>km_list = splice_obj (r_obj r) (km_list (kind_map_of s k)),
            km_dict = (case r_name r of
                         None \<Rightarrow> km_dict (kind_map_of s k)
                       | Some n \<Rightarrow> if n = [] then km_dict (kind_map_of s k)
                                  else obj_del n (km_dict (kind_map_of s k)))\<rparr>
      else kind_map_of s k)"
  by (auto simp: remove_resource_def kind_map_of_def no_kind_map_def Let_def split: option.splits)

lemma list_remove [simp]:
  "list_resources (remove_resource r s) k =
     (if r_kind r = Some k \<and> k \<noteq> [] then splice_obj (r_obj r) (list_resources s k)
      else list_resources s k)"
  by (simp add: list_resources_def kind_map_of_remove)

lemma find_remove [simp]:
  "find_resource (remove_resource r s) k n =
     (if r_kind r = Some k \<and> k \<noteq> [] \<and> r_name r = Some n \<and> n \<noteq> [] then None
      else find_resource s k n)"
  by (auto simp: find_resource_def kind_map_of_remove split: option.splits)

lemma files_append [simp]: "s_files (append_resource r s) = s_files s"
  by (auto simp: append_resource_def Let_def split: option.splits)

lemma files_remove [simp]: "s_files (remove_resource r s) = s_files s"
  by (auto simp: remove_resource_def Let_def split: option.splits)

lemma list_files [simp]: "list_resources (s\<lparr>s_files := x\<rparr>) k = list_resources s k"
  by (simp add: list_resources_def kind_map_of_def)

lemma find_files [simp]: "find_resource (s\<lparr>s_files := x\<rparr>) k n = find_resource s k n"
  by (simp add: find_resource_def kind_map_of_def)

lemma list_secrets [simp]: "list_resources (s\<lparr>s_secrets := x\<rparr>) k = list_resources s k"
  by (simp add: list_resources_def kind_map_of_def)

lemma files_secrets: "s_files (s\<lparr>s_secrets := x\<rparr>) = s_files s"
  by simp

lemma find_secrets [simp]: "find_resource (s\<lparr>s_secrets := x\<rparr>) k n = find_resource s k n"
  by (simp add: find_resource_def kind_map_of_def)

lemma set_splice_obj:
  "distinct (map r_obj rs) \<Longrightarrow> set (splice_obj i rs) = {r \<in> set rs. r_obj r \<noteq> i}"
proof (induction rs)
  case (Cons a rs)
  then show ?case by (cases "r_obj a = i") (auto simp: image_iff)
qed simp

lemma distinct_splice_obj:
  "distinct (map r_obj rs) \<Longrightarrow> distinct (map r_obj (splice_obj i rs))"
  by (induction rs) (auto simp: set_splice_obj)

subsection \<open>The store represents the files\<close>

text \<open>
  The abstract state is the map of files. \<open>store_ok\<close>: no two files hold the same object,
  the list of a kind holds the files' resources of that kind, each once, and the
  dictionary only names resources of the list.
\<close>

definition loaded :: "'cb store \<Rightarrow> string \<Rightarrow> resource set" where
  "loaded s k = {r. k \<noteq> [] \<and> r_kind r = Some k \<and> (\<exists>f. obj_get (s_files s) f = Some r)}"

definition files_distinct :: "'cb store \<Rightarrow> bool" where
  "files_distinct s \<longleftrightarrow>
     (\<forall>f g r q. obj_get (s_files s) f = Some r \<longrightarrow> obj_get (s_files s) g = Some q \<longrightarrow>
        r_obj r = r_obj q \<longrightarrow> f = g)"

definition store_ok :: "'cb store \<Rightarrow> bool" where
  "store_ok s \<longleftrightarrow> files_distinct s \<and>
     (\<forall>k. distinct (map r_obj (list_resources s k)) \<and> set (list_resources s k) = loaded s k) \<and>
     (\<forall>k n r. find_resource s k n = Some r \<longrightarrow> r \<in> set (list_resources s k) \<and> r_name r = Some n \<and> n \<noteq> [])"

definition fresh_obj :: "resource option \<Rightarrow> 'cb store \<Rightarrow> bool" where
  "fresh_obj cur s \<longleftrightarrow>
     (\<forall>c f q. cur = Some c \<longrightarrow> obj_get (s_files s) f = Some q \<longrightarrow> r_obj q \<noteq> r_obj c)"

lemma store_ok_empty [simp]: "store_ok empty_store"
  by (simp add: store_ok_def files_distinct_def loaded_def list_resources_def
      find_resource_def kind_map_of_def no_kind_map_def empty_store_def)

lemma change_file_files [simp]:
  "obj_get (s_files (fst (change_file f cur s))) g =
     (if g = f then cur else obj_get (s_files s) g)"
  by (cases cur; cases "obj_get (s_files s) f") (auto simp: change_file_def Let_def)

definition swapped :: "string \<Rightarrow> resource option \<Rightarrow> 'cb store \<Rightarrow> 'cb store" where
  "swapped f cur s =
     (let s1 = (case obj_get (s_files s) f of None \<Rightarrow> s | Some q \<Rightarrow> remove_resource q s)
      in (case cur of None \<Rightarrow> s1 | Some c \<Rightarrow> append_resource c s1))"

lemma change_file_list:
  "list_resources (fst (change_file f cur s)) k = list_resources (swapped f cur s) k"
  by (simp add: change_file_def swapped_def Let_def)

lemma change_file_find:
  "find_resource (fst (change_file f cur s)) k n = find_resource (swapped f cur s) k n"
  by (simp add: change_file_def swapped_def Let_def)

lemma swapped_distinct:
  assumes ok: "store_ok s" and fresh: "fresh_obj cur s"
  shows "distinct (map r_obj (list_resources (swapped f cur s) k))"
proof -
  have d: "distinct (map r_obj (list_resources s k))"
    and l: "set (list_resources s k) = loaded s k"
    using ok by (auto simp: store_ok_def)
  have "r_obj c \<noteq> r_obj q" if "cur = Some c" "q \<in> set (list_resources s k)" for c q
    using that fresh unfolding l loaded_def fresh_obj_def by fastforce
  then show ?thesis
    using d distinct_splice_obj [OF d]
    by (auto simp: swapped_def Let_def set_splice_obj split: option.splits)
qed

lemma ex_upd: "(\<exists>g. (if g = f then cur else m g) = Some r) \<longleftrightarrow>
    cur = Some r \<or> (\<exists>g. g \<noteq> f \<and> m g = Some r)"
  by metis

lemma ex_other: "m f = None \<Longrightarrow> (\<exists>g. g \<noteq> f \<and> m g = Some r) \<longleftrightarrow> (\<exists>g. m g = Some r)"
  by (metis option.distinct(1))

lemma swapped_set:
  assumes ok: "store_ok s"
  shows "set (list_resources (swapped f cur s) k) =
     {r. k \<noteq> [] \<and> r_kind r = Some k \<and>
         (\<exists>g. (if g = f then cur else obj_get (s_files s) g) = Some r)}"
proof -
  have d: "distinct (map r_obj (list_resources s k))"
    and l: "set (list_resources s k) = loaded s k"
    and inj: "files_distinct s"
    using ok by (auto simp: store_ok_def)
  show ?thesis
  proof (cases "obj_get (s_files s) f")
    case None
    then show ?thesis
      unfolding ex_upd ex_other [of "obj_get (s_files s)", OF None]
      by (cases cur; simp add: swapped_def l loaded_def; blast)
  next
    case (Some q)
    note q = Some
    have key: "r_obj r \<noteq> r_obj q \<longleftrightarrow> g \<noteq> f" if "obj_get (s_files s) g = Some r" for g r
    proof -
      have "g = f \<Longrightarrow> r = q" using Some that by simp
      moreover have "r_obj r = r_obj q \<Longrightarrow> g = f"
        using inj Some that unfolding files_distinct_def by blast
      ultimately show ?thesis by auto
    qed
    have rem: "set (list_resources (remove_resource q s) k) =
        {r. k \<noteq> [] \<and> r_kind r = Some k \<and> (\<exists>g. g \<noteq> f \<and> obj_get (s_files s) g = Some r)}"
    proof (cases "r_kind q = Some k \<and> k \<noteq> []")
      case True
      then have "set (list_resources (remove_resource q s) k) = {r \<in> loaded s k. r_obj r \<noteq> r_obj q}"
        by (simp add: set_splice_obj [OF d] l)
      also have "\<dots> = {r. k \<noteq> [] \<and> r_kind r = Some k \<and>
          (\<exists>g. g \<noteq> f \<and> obj_get (s_files s) g = Some r)}"
      proof (rule set_eqI)
        fix r
        show "r \<in> {r \<in> loaded s k. r_obj r \<noteq> r_obj q} \<longleftrightarrow>
            r \<in> {r. k \<noteq> [] \<and> r_kind r = Some k \<and> (\<exists>g. g \<noteq> f \<and> obj_get (s_files s) g = Some r)}"
          unfolding loaded_def mem_Collect_eq using key [of _ r] by blast
      qed
      finally show ?thesis .
    next
      case False
      have other: "g \<noteq> f" if "obj_get (s_files s) g = Some r" "r_kind r = Some k" "k \<noteq> []" for g r
        using that Some False by auto
      have "loaded s k = {r. k \<noteq> [] \<and> r_kind r = Some k \<and>
          (\<exists>g. g \<noteq> f \<and> obj_get (s_files s) g = Some r)}"
        unfolding loaded_def using other by blast
      moreover have "list_resources (remove_resource q s) k = list_resources s k"
        by (subst list_remove) (rule if_not_P [OF False])
      ultimately show ?thesis by (simp only: l)
    qed
    have "set (list_resources (swapped f cur s) k) =
        {r. k \<noteq> [] \<and> r_kind r = Some k \<and>
            (cur = Some r \<or> (\<exists>g. g \<noteq> f \<and> obj_get (s_files s) g = Some r))}" (is "?L = ?R")
    proof (cases cur)
      case None
      with Some rem show ?thesis by (simp add: swapped_def del: list_remove)
    next
      case (Some c)
      then have "?L = (if r_kind c = Some k \<and> k \<noteq> []
          then insert c (set (list_resources (remove_resource q s) k))
          else set (list_resources (remove_resource q s) k))"
        using q by (simp add: swapped_def del: list_remove)
      then show ?thesis using Some unfolding rem by (auto split: if_splits)
    qed
    then show ?thesis unfolding ex_upd .
  qed
qed

lemma swapped_find:
  assumes ok: "store_ok s" and find: "find_resource (swapped f cur s) k n = Some r"
  shows "r \<in> set (list_resources (swapped f cur s) k) \<and> r_name r = Some n \<and> n \<noteq> []"
proof -
  have sub: "find_resource s k n = Some r \<Longrightarrow> k \<noteq> [] \<and> r_kind r = Some k \<and>
      (\<exists>g. obj_get (s_files s) g = Some r) \<and> r_name r = Some n \<and> n \<noteq> []" for r
    using ok unfolding store_ok_def loaded_def by blast
  show ?thesis
  proof (cases "cur = Some r \<and> r_kind r = Some k \<and> k \<noteq> [] \<and> r_name r = Some n \<and> n \<noteq> []")
    case True
    then show ?thesis unfolding swapped_set [OF ok] ex_upd by blast
  next
    case False
    let ?s = "case obj_get (s_files s) f of None \<Rightarrow> s | Some q \<Rightarrow> remove_resource q s"
    from False find have f1: "find_resource ?s k n = Some r"
      by (cases cur) (auto simp: swapped_def simp del: find_remove split: if_splits)
    then have old: "find_resource s k n = Some r"
      by (cases "obj_get (s_files s) f") (auto split: if_splits)
    have kept: "obj_get (s_files s) f \<noteq> Some r"
    proof
      assume "obj_get (s_files s) f = Some r"
      then have "find_resource ?s k n = None" using sub [OF old] by simp
      with f1 show False by simp
    qed
    obtain g where g: "obj_get (s_files s) g = Some r" using sub [OF old] by blast
    then have "g \<noteq> f" using kept by auto
    then show ?thesis
      unfolding swapped_set [OF ok] ex_upd mem_Collect_eq using sub [OF old] g by blast
  qed
qed

lemmas swapped_facts = swapped_distinct swapped_set swapped_find

lemma change_file_store_ok:
  assumes "store_ok s" "fresh_obj cur s"
  shows "store_ok (fst (change_file f cur s))"
proof -
  let ?t = "fst (change_file f cur s)"
  have inj: "files_distinct ?t"
    using assms unfolding store_ok_def files_distinct_def fresh_obj_def change_file_files
    by (metis option.inject)
  have set: "set (list_resources ?t k) = loaded ?t k" for k
    unfolding change_file_list swapped_set [OF assms(1)] loaded_def change_file_files ..
  have find: "find_resource ?t k n = Some r \<Longrightarrow>
      r \<in> set (list_resources ?t k) \<and> r_name r = Some n \<and> n \<noteq> []" for k n r
    unfolding change_file_list change_file_find by (rule swapped_find [OF assms(1)])
  have dist: "distinct (map r_obj (list_resources ?t k))" for k
    unfolding change_file_list by (rule swapped_distinct [OF assms])
  show ?thesis
    unfolding store_ok_def using inj set find dist by blast
qed

text \<open>
  The dictionary is complete when it leads from the name of every file's resource to it.
  It is only while no two files give one kind the same name.
\<close>

definition names_unique :: "'cb store \<Rightarrow> bool" where
  "names_unique s \<longleftrightarrow>
     (\<forall>f g r q. obj_get (s_files s) f = Some r \<longrightarrow> obj_get (s_files s) g = Some q \<longrightarrow>
        truthy (r_kind r) \<longrightarrow> truthy (r_name r) \<longrightarrow> r_kind r = r_kind q \<longrightarrow>
        r_name r = r_name q \<longrightarrow> f = g)"

definition dict_complete :: "'cb store \<Rightarrow> bool" where
  "dict_complete s \<longleftrightarrow>
     (\<forall>f r k n. obj_get (s_files s) f = Some r \<longrightarrow> r_kind r = Some k \<longrightarrow> k \<noteq> [] \<longrightarrow>
        r_name r = Some n \<longrightarrow> n \<noteq> [] \<longrightarrow> find_resource s k n = Some r)"

lemma find_change_file:
  "find_resource (fst (change_file f cur s)) k n =
     (if \<exists>c. cur = Some c \<and> r_kind c = Some k \<and> k \<noteq> [] \<and> r_name c = Some n \<and> n \<noteq> [] then cur
      else if \<exists>q. obj_get (s_files s) f = Some q \<and> r_kind q = Some k \<and> k \<noteq> [] \<and>
                  r_name q = Some n \<and> n \<noteq> [] then None
      else find_resource s k n)"
  unfolding change_file_find swapped_def Let_def
  by (cases cur; cases "obj_get (s_files s) f") simp_all

lemma dict_complete_change:
  assumes comp: "dict_complete s" and u: "names_unique s"
    and u': "names_unique (fst (change_file f cur s))"
  shows "dict_complete (fst (change_file f cur s))"
  unfolding dict_complete_def
proof (intro allI impI)
  fix g r k n
  assume g: "obj_get (s_files (fst (change_file f cur s))) g = Some r"
    and k: "r_kind r = Some k" "k \<noteq> []" "r_name r = Some n" "n \<noteq> []"
  show "find_resource (fst (change_file f cur s)) k n = Some r"
  proof (cases "g = f")
    case True
    then show ?thesis using g k by (simp add: find_change_file)
  next
    case False
    then have old: "obj_get (s_files s) g = Some r" using g by simp
    have "\<not> (\<exists>c. cur = Some c \<and> r_kind c = Some k \<and> r_name c = Some n)"
    proof
      assume "\<exists>c. cur = Some c \<and> r_kind c = Some k \<and> r_name c = Some n"
      then obtain c where "obj_get (s_files (fst (change_file f cur s))) f = Some c"
        "r_kind c = r_kind r" "r_name c = r_name r"
        using k by auto
      with u' g k have "g = f" unfolding names_unique_def by (metis truthy_simps(2))
      with False show "False" ..
    qed
    moreover have "\<not> (\<exists>q. obj_get (s_files s) f = Some q \<and> r_kind q = Some k \<and> r_name q = Some n)"
    proof
      assume "\<exists>q. obj_get (s_files s) f = Some q \<and> r_kind q = Some k \<and> r_name q = Some n"
      then obtain q where "obj_get (s_files s) f = Some q"
        "r_kind q = r_kind r" "r_name q = r_name r"
        using k by auto
      with u old k have "g = f" unfolding names_unique_def by (metis truthy_simps(2))
      with False show "False" ..
    qed
    moreover have "find_resource s k n = Some r"
      using comp old k unfolding dict_complete_def by blast
    ultimately show ?thesis unfolding find_change_file by auto
  qed
qed

lemma find_sound:
  "store_ok s \<Longrightarrow> find_resource s k n = Some r \<Longrightarrow>
   \<exists>f. obj_get (s_files s) f = Some r \<and> k \<noteq> [] \<and> r_kind r = Some k \<and> n \<noteq> [] \<and> r_name r = Some n"
  unfolding store_ok_def loaded_def by blast

lemma find_exact:
  assumes "store_ok s" "dict_complete s"
  shows "find_resource s k n = Some r \<longleftrightarrow>
     k \<noteq> [] \<and> n \<noteq> [] \<and> r_kind r = Some k \<and> r_name r = Some n \<and>
     (\<exists>f. obj_get (s_files s) f = Some r)"
  using assms find_sound [OF assms(1)] unfolding dict_complete_def by blast

text \<open>C1: Hot reload keeps the store consistent. Whatever a changed file now holds (a new
  object, nothing, another kind), after \<open>changeFile\<close> the list of every kind holds exactly the
  resources of that kind in the files, each once; and as long as no two files give a kind the
  same name, \<open>find\<close> gives a resource exactly when a file holds one of that kind and name.\<close>

theorem change_file_ok:
  assumes "store_ok s" "fresh_obj cur s" "dict_complete s" "names_unique s"
    and "names_unique (fst (change_file f cur s))"
  shows "distinct (map r_obj (list_resources (fst (change_file f cur s)) k)) \<and>
         set (list_resources (fst (change_file f cur s)) k) =
           {r. k \<noteq> [] \<and> r_kind r = Some k \<and>
               (\<exists>g. (if g = f then cur else obj_get (s_files s) g) = Some r)} \<and>
         (find_resource (fst (change_file f cur s)) k n = Some r \<longleftrightarrow>
            k \<noteq> [] \<and> n \<noteq> [] \<and> r_kind r = Some k \<and> r_name r = Some n \<and>
            (\<exists>g. (if g = f then cur else obj_get (s_files s) g) = Some r))"
proof -
  let ?t = "fst (change_file f cur s)"
  have ok: "store_ok ?t" by (rule change_file_store_ok [OF assms(1,2)])
  have "distinct (map r_obj (list_resources ?t k))" and "set (list_resources ?t k) = loaded ?t k"
    using ok by (simp_all add: store_ok_def)
  then show ?thesis
    unfolding loaded_def
      find_exact [OF ok dict_complete_change [OF assms(3,4,5)]] change_file_files
    by (intro conjI) (assumption | rule refl)+
qed

definition gw_a :: resource where
  "gw_a = \<lparr>r_obj = 1, r_kind = Some ''Gateway'', r_name = Some ''a'', r_spec = Some no_spec\<rparr>"

definition gw_b :: resource where
  "gw_b = \<lparr>r_obj = 2, r_kind = Some ''Gateway'', r_name = Some ''b'', r_spec = None\<rparr>"

definition gw_a2 :: resource where
  "gw_a2 = \<lparr>r_obj = 3, r_kind = Some ''Gateway'', r_name = Some ''a'', r_spec = None\<rparr>"

definition store_a :: "nat store" where
  "store_a = fst (change_file ''x'' (Some gw_a) empty_store)"

lemma store_a_files [simp]: "s_files store_a = [(''x'', gw_a)]"
  by (simp add: store_a_def change_file_def empty_store_def gw_a_def append_resource_def Let_def
      kind_map_of_def no_kind_map_def)

lemma store_a_facts:
  "store_ok store_a" "dict_complete store_a" "names_unique store_a"
proof -
  have e: "fresh_obj (Some gw_a) (empty_store :: nat store)"
    "dict_complete (empty_store :: nat store)" "names_unique (empty_store :: nat store)"
    by (simp_all add: fresh_obj_def empty_store_def dict_complete_def names_unique_def)
  show "store_ok store_a"
    unfolding store_a_def by (rule change_file_store_ok [OF store_ok_empty e(1)])
  show u: "names_unique store_a" by (simp add: names_unique_def)
  show "dict_complete store_a"
    unfolding store_a_def
    by (rule dict_complete_change [OF e(2,3)]) (use u in \<open>simp add: store_a_def\<close>)
qed

lemma change_file_ok_witness:
  "set (list_resources (fst (change_file ''x'' (Some gw_b) store_a)) ''Gateway'') =
     {r. ''Gateway'' \<noteq> [] \<and> r_kind r = Some ''Gateway'' \<and>
         (\<exists>g. (if g = ''x'' then Some gw_b else obj_get (s_files store_a) g) = Some r)}"
proof -
  have "fresh_obj (Some gw_b) store_a"
    by (simp add: fresh_obj_def gw_a_def gw_b_def)
  moreover have "names_unique (fst (change_file ''x'' (Some gw_b) store_a))"
    by (simp add: names_unique_def split: if_splits)
  ultimately show ?thesis
    using change_file_ok [of store_a "Some gw_b" "''x''" "''Gateway''"] store_a_facts by blast
qed


text \<open>A name shared by two files is lost: when one of two files that hold a resource of
  the same kind and name is deleted, \<open>removeResource\<close> deletes the dictionary's entry whichever
  object it held, and \<open>find\<close> gives nothing although the list still has the other resource.\<close>

theorem namesake_lost:
  assumes "store_ok s" "f \<noteq> g"
    and "obj_get (s_files s) f = Some r" "obj_get (s_files s) g = Some q"
    and "r_kind r = Some k" "k \<noteq> []" "r_name r = Some n" "n \<noteq> []"
    and "r_kind q = Some k" "r_name q = Some n"
  shows "find_resource (fst (change_file f None s)) k n = None \<and>
         q \<in> set (list_resources (fst (change_file f None s)) k)"
proof
  show "find_resource (fst (change_file f None s)) k n = None"
    unfolding find_change_file using assms by simp
  have "\<exists>h. (if h = f then None else obj_get (s_files s) h) = Some q"
    by (rule exI [of _ g]) (use assms in simp)
  then show "q \<in> set (list_resources (fst (change_file f None s)) k)"
    unfolding change_file_list swapped_set [OF assms(1)] mem_Collect_eq using assms by simp
qed

definition store_aa :: "nat store" where
  "store_aa = fst (change_file ''y'' (Some gw_a2) store_a)"

lemma namesake_lost_witness:
  "find_resource store_aa ''Gateway'' ''a'' = Some gw_a2 \<and>
   find_resource (fst (change_file ''x'' None store_aa)) ''Gateway'' ''a'' = None \<and>
   gw_a2 \<in> set (list_resources (fst (change_file ''x'' None store_aa)) ''Gateway'')"
proof -
  have ok: "store_ok store_aa"
    unfolding store_aa_def
    by (rule change_file_store_ok [OF store_a_facts(1)])
      (simp add: fresh_obj_def gw_a_def gw_a2_def)
  have "find_resource store_aa ''Gateway'' ''a'' = Some gw_a2"
    unfolding store_aa_def find_change_file by (simp add: gw_a2_def)
  then show ?thesis
    using namesake_lost [OF ok, of "''x''" "''y''" gw_a gw_a2 "''Gateway''" "''a''"]
    by (simp add: store_aa_def gw_a_def gw_a2_def)
qed

subsection \<open>Notices\<close>

text \<open>A listener that keeps the set of resources it was told of.\<close>

fun heed :: "notice \<Rightarrow> resource set \<Rightarrow> resource set" where
  "heed (cur, old) known =
     (known - (case old of None \<Rightarrow> {} | Some r \<Rightarrow> {r})) \<union> (case cur of None \<Rightarrow> {} | Some r \<Rightarrow> {r})"

definition known_files :: "'cb store \<Rightarrow> resource set" where
  "known_files s = {r. truthy (r_kind r) \<and> (\<exists>f. obj_get (s_files s) f = Some r)}"

definition kinded :: "resource set \<Rightarrow> resource set" where
  "kinded R = {r \<in> R. truthy (r_kind r)}"

lemma ex_apart:
  assumes "\<And>g. m g = Some r \<Longrightarrow> m f = Some r \<Longrightarrow> g = f"
  shows "(\<exists>g. g \<noteq> f \<and> m g = Some r) \<longleftrightarrow> (\<exists>g. m g = Some r) \<and> m f \<noteq> Some r"
  using assms by metis

lemma known_aux: "(A \<and> (C \<or> E \<and> \<not> Q)) = ((((A \<and> E) \<and> \<not> Q) \<or> C) \<and> A)"
  by blast

lemma known_files_change:
  assumes d: "files_distinct s"
  shows "known_files (fst (change_file f cur s)) =
     kinded ((known_files s - (case obj_get (s_files s) f of None \<Rightarrow> {} | Some r \<Rightarrow> {r})) \<union>
             (case cur of None \<Rightarrow> {} | Some r \<Rightarrow> {r}))"
proof (rule set_eqI)
  fix r
  have "\<And>g. obj_get (s_files s) g = Some r \<Longrightarrow> obj_get (s_files s) f = Some r \<Longrightarrow> g = f"
    using d unfolding files_distinct_def by blast
  then have other: "(\<exists>g. g \<noteq> f \<and> obj_get (s_files s) g = Some r) \<longleftrightarrow>
      (\<exists>g. obj_get (s_files s) g = Some r) \<and> obj_get (s_files s) f \<noteq> Some r"
    by (rule ex_apart)
  have old: "r \<in> (case obj_get (s_files s) f of None \<Rightarrow> {} | Some r \<Rightarrow> {r}) \<longleftrightarrow>
      obj_get (s_files s) f = Some r"
    by (cases "obj_get (s_files s) f") auto
  have new: "r \<in> (case cur of None \<Rightarrow> {} | Some r \<Rightarrow> {r}) \<longleftrightarrow> cur = Some r"
    by (cases cur) auto
  show "r \<in> known_files (fst (change_file f cur s)) \<longleftrightarrow>
     r \<in> kinded ((known_files s - (case obj_get (s_files s) f of None \<Rightarrow> {} | Some r \<Rightarrow> {r})) \<union>
             (case cur of None \<Rightarrow> {} | Some r \<Rightarrow> {r}))"
    unfolding known_files_def kinded_def change_file_files ex_upd mem_Collect_eq
      Un_iff Diff_iff old new
    by (subst other) (rule known_aux)
qed

lemma notices_of_change:
  "snd (change_file f cur s) =
     (let old = obj_get (s_files s) f; oldKind = Option.bind old r_kind;
          curKind = Option.bind cur r_kind
      in if truthy curKind \<and> curKind = oldKind then [(cur, old)]
         else if truthy curKind \<and> truthy oldKind then [(None, old), (cur, None)]
         else if cur \<noteq> None then [(cur, None)]
         else if old \<noteq> None then [(None, old)] else [])"
  by (cases cur; cases "obj_get (s_files s) f") (auto simp: change_file_def Let_def)



text \<open>A document that loses its \<open>kind\<close> is never deleted for the listener: the only notice
  creates the kindless document, and the old resource, gone from the lists, stays known.\<close>

theorem kindless_replacement_unnoticed:
  assumes "store_ok s" "obj_get (s_files s) f = Some r" "r_kind r = Some k" "k \<noteq> []"
    and "\<not> truthy (r_kind c)"
  shows "snd (change_file f (Some c) s) = [(Some c, None)] \<and>
         r \<in> fold heed (snd (change_file f (Some c) s)) (known_files s) \<and>
         r \<notin> set (list_resources (fst (change_file f (Some c) s)) k)"
proof (intro conjI)
  show n: "snd (change_file f (Some c) s) = [(Some c, None)]"
    unfolding notices_of_change using assms by (simp add: Let_def)
  have "r \<in> known_files s"
    unfolding known_files_def using assms by (auto intro: exI [of _ f])
  then show "r \<in> fold heed (snd (change_file f (Some c) s)) (known_files s)"
    unfolding n by simp
  have inj: "files_distinct s" using assms(1) by (simp add: store_ok_def)
  have "\<not> (\<exists>g. (if g = f then Some c else obj_get (s_files s) g) = Some r)"
  proof
    assume "\<exists>g. (if g = f then Some c else obj_get (s_files s) g) = Some r"
    then obtain g where g: "(if g = f then Some c else obj_get (s_files s) g) = Some r" ..
    then have "g \<noteq> f" using assms(3,4,5) by (auto split: if_splits)
    with g have "obj_get (s_files s) g = Some r" by simp
    with assms(2) inj \<open>g \<noteq> f\<close> show False unfolding files_distinct_def by blast
  qed
  then show "r \<notin> set (list_resources (fst (change_file f (Some c) s)) k)"
    unfolding change_file_list swapped_set [OF assms(1)] mem_Collect_eq by blast
qed

lemma kindless_replacement_unnoticed_witness:
  "gw_a \<in> fold heed (snd (change_file ''x'' (Some (gw_a\<lparr>r_kind := None\<rparr>)) store_a))
            (known_files store_a)"
proof -
  have k: "r_kind gw_a = Some ''Gateway''" and f: "obj_get (s_files store_a) ''x'' = Some gw_a"
    by (simp_all add: gw_a_def)
  have "\<not> truthy (r_kind (gw_a\<lparr>r_kind := None\<rparr>))" by simp
  from kindless_replacement_unnoticed [OF store_a_facts(1) f k _ this]
  show ?thesis by blast
qed


subsection \<open>Updaters\<close>

lemma updaters_of_empty [simp]: "updaters_of empty_store k key = []"
  by (simp add: updaters_of_def listmap_of_def empty_store_def)

lemma updaters_of_add [simp]:
  "updaters_of (add_updater k key cb s) k' key' =
     (if k' = k \<and> key' = key
      then (if cb \<in> set (updaters_of s k key) then updaters_of s k key
            else updaters_of s k key @ [cb])
      else updaters_of s k' key')"
  by (auto simp: updaters_of_def add_updater_def listmap_of_def Let_def split: option.splits)

lemma updaters_of_set [simp]:
  "updaters_of (set_updater k key cb s) k' key' =
     (if k' = k \<and> key' = key then (case cb of None \<Rightarrow> [] | Some c \<Rightarrow> [c])
      else updaters_of s k' key')"
  by (auto simp: updaters_of_def set_updater_def listmap_of_def split: option.splits)

text \<open>Running callbacks that register themselves again: they end registered once each, in order.\<close>

lemma fold_rearm:
  assumes step: "\<And>cb s k' key'. updaters_of (step cb s) k' key' = updaters_of s k' key'"
    and "distinct (done @ cbs)"
    and "updaters_of s k key = done"
  shows "updaters_of (foldl (\<lambda>s f. add_updater k key f (step f s)) s cbs) k key = done @ cbs"
  using assms(2,3)
proof (induction cbs arbitrary: s "done")
  case (Cons c cbs)
  then have "updaters_of (add_updater k key c (step c s)) k key = done @ [c]"
    by (simp add: step)
  with Cons.IH [of "done @ [c]"] Cons.prems show ?case by simp
qed simp

lemma updaters_after_delete:
  assumes "obj_get (s_updaters s) k = Some lm"
  shows "updaters_of (s\<lparr>s_updaters := obj_set k (obj_del key lm) (s_updaters s)\<rparr>) k key = []"
  by (simp add: updaters_of_def listmap_of_def)

lemma distinct_add_updater:
  "distinct (updaters_of s k' key') \<Longrightarrow> distinct (updaters_of (add_updater k key cb s) k' key')"
  by auto

text \<open>Updaters are one-shot, and may re-arm themselves: when the callbacks of an entry do
  their work and then register again, as the routers' and the backends' do, running the entry
  runs each of them once and leaves each of them registered exactly once. A callback that does
  not register again is gone.\<close>

theorem run_updaters_rearmed:
  assumes "\<And>cb s k' key'. updaters_of (step cb s) k' key' = updaters_of s k' key'"
    and "distinct (updaters_of s k key)" "updaters_of s k key \<noteq> []"
  shows "updaters_of (snd (run_updaters (\<lambda>f s. add_updater k key f (step f s)) k (Some key) s)) k key
           = updaters_of s k key \<and>
         updaters_of (snd (run_updaters step k (Some key) s)) k key = []"
proof -
  obtain lm where lm: "obj_get (s_updaters s) k = Some lm"
    using assms(3) by (auto simp: updaters_of_def listmap_of_def split: option.splits)
  obtain cbs where cbs: "obj_get lm key = Some cbs"
    using assms(3) lm by (auto simp: updaters_of_def listmap_of_def split: option.splits)
  have u: "updaters_of s k key = cbs" using lm cbs by (simp add: updaters_of_def listmap_of_def)
  have gone: "updaters_of (foldl (\<lambda>s f. step f s) t cs) k key = updaters_of t k key" for t cs
    by (induction cs arbitrary: t) (simp_all add: assms(1))
  show ?thesis
    using fold_rearm [OF assms(1), of "[]" cbs _ k key] updaters_after_delete [OF lm] assms(2)
    by (simp add: run_updaters_def lm cbs u gone)
qed

lemma run_updaters_rearmed_witness:
  "updaters_of (snd (run_updaters (\<lambda>f s. add_updater ''Backend'' ''b'' f s) ''Backend'' (Some ''b'')
      (add_updater ''Backend'' ''b'' (7::nat) empty_store))) ''Backend'' ''b'' = [7]"
proof -
  let ?s = "add_updater ''Backend'' ''b'' (7::nat) empty_store"
  have "updaters_of ?s ''Backend'' ''b'' = [7]"
    by simp
  with run_updaters_rearmed [of "\<lambda>cb s. s" ?s "''Backend''" "''b''"] show ?thesis by simp
qed

subsection \<open>Loading\<close>

text \<open>The first load of a file leaves the store as a change of it would.\<close>

lemma loaded_store_ok:
  assumes "store_ok t" "fresh_obj (Some r) t" "obj_get (s_files t) f = None" "truthy (r_kind r)"
  shows "store_ok (append_resource r (t\<lparr>s_files := obj_set f r (s_files t)\<rparr>))"
proof -
  let ?u = "append_resource r (t\<lparr>s_files := obj_set f r (s_files t)\<rparr>)"
  have "s_files ?u = s_files (fst (change_file f (Some r) t))"
    using assms(3,4) by (simp add: change_file_def Let_def)
  moreover have "list_resources ?u k = list_resources (fst (change_file f (Some r) t)) k"
    and "find_resource ?u k n = find_resource (fst (change_file f (Some r) t)) k n" for k n
    using assms(3) unfolding change_file_list change_file_find by (simp_all add: swapped_def)
  ultimately have "store_ok ?u \<longleftrightarrow> store_ok (fst (change_file f (Some r) t))"
    by (simp only: store_ok_def files_distinct_def loaded_def)
  then show ?thesis using change_file_store_ok [OF assms(1,2)] by simp
qed

lemma load_dir_ok:
  assumes "\<And>f s. \<exists>sec. rd f s = (doc f, s\<lparr>s_secrets := sec\<rparr>)"
    and "distinct fs" "\<And>f. f \<in> set fs \<Longrightarrow> obj_get (s_files s) f = None"
    and "\<And>f g r q. doc f = Some r \<Longrightarrow> doc g = Some q \<Longrightarrow> r_obj r = r_obj q \<Longrightarrow> f = g"
    and "\<And>f g r q. obj_get (s_files s) f = Some r \<Longrightarrow> doc g = Some q \<Longrightarrow> g \<in> set fs \<Longrightarrow>
           r_obj r \<noteq> r_obj q"
    and "store_ok s"
  shows "store_ok (load_dir rd fs s)"
  using assms(2,3,5,6)
proof (induction fs arbitrary: s)
  case (Cons f fs)
  obtain sec where rd: "rd f s = (doc f, s\<lparr>s_secrets := sec\<rparr>)" using assms(1) by blast
  let ?t = "s\<lparr>s_secrets := sec\<rparr>"
  have "store_ok ?t \<longleftrightarrow> store_ok s"
    by (simp only: store_ok_def files_distinct_def loaded_def list_secrets find_secrets
        files_secrets)
  then have ok: "store_ok ?t" using Cons.prems(4) by simp
  show ?case
  proof (cases "\<exists>r. doc f = Some r \<and> truthy (r_kind r) \<and> r_spec r \<noteq> None")
    case False
    then have "load_dir rd (f # fs) s = load_dir rd fs ?t"
      by (auto simp: rd split: option.splits)
    then show ?thesis using Cons.IH [of ?t] Cons.prems ok by simp
  next
    case True
    then obtain r where r: "doc f = Some r" "truthy (r_kind r)" "r_spec r \<noteq> None" by blast
    let ?u = "append_resource r (?t\<lparr>s_files := obj_set f r (s_files ?t)\<rparr>)"
    have step: "load_dir rd (f # fs) s = load_dir rd fs ?u"
      by (simp add: rd r)
    have none: "obj_get (s_files s) f = None" using Cons.prems(2) by simp
    have fresh: "fresh_obj (Some r) ?t"
      unfolding fresh_obj_def using Cons.prems(3) r(1) by fastforce
    have ok': "store_ok ?u"
      by (rule loaded_store_ok [OF ok fresh _ r(2)]) (simp add: none files_secrets)
    have n1: "obj_get (s_files ?u) g = None" if "g \<in> set fs" for g
      using that Cons.prems(1,2) by auto
    have n2: "r_obj a \<noteq> r_obj q"
      if "obj_get (s_files ?u) h = Some a" "doc g = Some q" "g \<in> set fs" for h g a q
    proof (cases "h = f")
      case True
      then have "a = r" using that(1) by simp
      then show ?thesis using assms(4) [OF r(1) that(2)] that(3) Cons.prems(1) by auto
    next
      case False
      then show ?thesis using that Cons.prems(3) [of h a g q] by simp
    qed
    show ?thesis
      unfolding step using Cons.IH [OF _ n1 n2 ok'] Cons.prems(1) by simp
  qed
qed simp

text \<open>Loading a directory ends in a consistent store: every document with a kind and a
  spec is in the list of its kind, and nothing else is.\<close>

theorem load_dir_consistent:
  assumes "distinct fs"
    and "\<And>f g r q. doc f = Some r \<Longrightarrow> doc g = Some q \<Longrightarrow> r_obj r = r_obj q \<Longrightarrow> f = g"
    and "\<And>f s. \<exists>sec. rd f s = (doc f, s\<lparr>s_secrets := sec\<rparr>)"
  shows "set (list_resources (load_dir rd fs empty_store) k) =
         {r. k \<noteq> [] \<and> r_kind r = Some k \<and> r_spec r \<noteq> None \<and> (\<exists>f \<in> set fs. doc f = Some r)}"
proof -
  have files: "obj_get (s_files (load_dir rd fs s)) f =
      (if f \<in> set fs \<and> (\<exists>r. doc f = Some r \<and> truthy (r_kind r) \<and> r_spec r \<noteq> None)
       then doc f else obj_get (s_files s) f)" for f fs s
  proof (induction fs arbitrary: s)
    case (Cons g fs)
    obtain sec where rd: "rd g s = (doc g, s\<lparr>s_secrets := sec\<rparr>)" using assms(3) by blast
    show ?case
      by (cases "doc g") (auto simp: rd Cons.IH)
  qed simp
  have "store_ok (load_dir rd fs empty_store)"
    by (rule load_dir_ok [OF assms(3,1) _ assms(2)])
      (assumption | rule store_ok_empty | simp add: empty_store_def)+
  then have "set (list_resources (load_dir rd fs empty_store) k) =
      loaded (load_dir rd fs empty_store) k"
    by (simp add: store_ok_def)
  then show ?thesis
    unfolding loaded_def files by (auto simp: empty_store_def split: if_splits)
qed


lemma load_dir_consistent_witness:
  "set (list_resources (load_dir (\<lambda>f s. (obj_get [(''x'', gw_a), (''y'', gw_b)] f, s))
      [''x'', ''y''] (empty_store :: nat store)) ''Gateway'') = {gw_a}"
proof -
  let ?doc = "obj_get [(''x'', gw_a), (''y'', gw_b)]"
  have ids: "f = g" if "?doc f = Some r" "?doc g = Some q" "r_obj r = r_obj q" for f g r q
    using that by (auto simp: gw_a_def gw_b_def split: if_splits)
  have rd: "\<exists>sec. (?doc f, s) = (?doc f, s\<lparr>s_secrets := sec\<rparr>)" for f and s :: "nat store"
    by (rule exI [of _ "s_secrets s"]) simp
  show ?thesis
    using load_dir_consistent [of "[''x'', ''y'']" ?doc "\<lambda>f s. (?doc f, s)" "''Gateway''", OF _ ids rd]
    by (auto simp: gw_a_def gw_b_def)
qed

subsection \<open>The interface to the other components\<close>

text \<open>
  The gateway, the routers and the backends use the store through \<open>list\<close> and \<open>find\<close> only.
\<close>

locale resource_lookup =
  fixes listed :: "'s \<Rightarrow> string \<Rightarrow> resource list"
    and named :: "'s \<Rightarrow> string \<Rightarrow> string \<Rightarrow> resource option"
    and ok :: "'s \<Rightarrow> bool"
  assumes listed_kind: "ok s \<Longrightarrow> r \<in> set (listed s k) \<Longrightarrow> r_kind r = Some k \<and> k \<noteq> []"
    and listed_once: "ok s \<Longrightarrow> distinct (listed s k)"
    and named_listed: "ok s \<Longrightarrow> named s k n = Some r \<Longrightarrow> r \<in> set (listed s k)"
    and named_name: "ok s \<Longrightarrow> named s k n = Some r \<Longrightarrow> r_name r = Some n \<and> n \<noteq> []"
begin

lemma named_kind: "ok s \<Longrightarrow> named s k n = Some r \<Longrightarrow> r_kind r = Some k"
  using named_listed listed_kind by blast

lemma lists_disjoint: "ok s \<Longrightarrow> k \<noteq> k' \<Longrightarrow> set (listed s k) \<inter> set (listed s k') = {}"
proof (rule equals0I)
  fix r assume ok: "ok s" and ne: "k \<noteq> k'" and r: "r \<in> set (listed s k) \<inter> set (listed s k')"
  then have "r_kind r = Some k" "r_kind r = Some k'" using listed_kind [OF ok] by auto
  with ne show False by simp
qed

lemma gathered_kind:
  "ok s \<Longrightarrow> r \<in> set (concat (map (\<lambda>k. filter (P k) (listed s k)) ks)) \<Longrightarrow>
   \<exists>k \<in> set ks. r_kind r = Some k"
  using listed_kind by auto

text \<open>Resources gathered over several kinds, as the gateway does, are gathered once each.\<close>

lemma gathered_once:
  "ok s \<Longrightarrow> distinct ks \<Longrightarrow> distinct (concat (map (\<lambda>k. filter (P k) (listed s k)) ks))"
proof (induction ks)
  case (Cons k ks)
  have "r \<notin> set (concat (map (\<lambda>k. filter (P k) (listed s k)) ks))" if "r \<in> set (listed s k)" for r
  proof
    assume "r \<in> set (concat (map (\<lambda>k. filter (P k) (listed s k)) ks))"
    then have "\<exists>k' \<in> set ks. r_kind r = Some k'" by (rule gathered_kind [OF Cons.prems(1)])
    then show False using listed_kind [OF Cons.prems(1) that] Cons.prems(2) by simp
  qed
  then have "set (filter (P k) (listed s k)) \<inter>
      set (concat (map (\<lambda>k. filter (P k) (listed s k)) ks)) = {}"
    by auto
  then show ?case
    using Cons.IH Cons.prems listed_once [OF Cons.prems(1), of k] by simp
qed simp

end

interpretation store_lookup: resource_lookup list_resources find_resource store_ok
proof
  fix s :: "'cb store" and k n r
  assume ok: "store_ok s"
  have d: "distinct (map r_obj (list_resources s k))"
    and l: "set (list_resources s k) = loaded s k"
    using ok by (simp_all add: store_ok_def)
  show "distinct (list_resources s k)" using d by (simp add: distinct_map)
  show "r \<in> set (list_resources s k) \<Longrightarrow> r_kind r = Some k \<and> k \<noteq> []"
    unfolding l loaded_def by blast
  show "find_resource s k n = Some r \<Longrightarrow> r \<in> set (list_resources s k)"
    and "find_resource s k n = Some r \<Longrightarrow> r_name r = Some n \<and> n \<noteq> []"
    using ok unfolding store_ok_def by blast+
qed

end
