(* ===== verification/Http.thy ===== *)
theory Http
  imports Prelude
begin

text \<open>
  HTTP messages as pipy hands them to the scripts. A header is a string, or an array of
  strings when it was repeated (\<open>set-cookie\<close>). A message's body is a byte string.
\<close>

datatype header_val = One string | Many "string list"

type_synonym headers = "header_val obj"

record head =
  hd_method :: string
  hd_path :: string
  hd_headers :: headers
  hd_status :: nat

record message =
  ms_head :: head
  ms_body :: string

definition no_head :: head where
  "no_head = \<lparr>hd_method = ''GET'', hd_path = ''/'', hd_headers = [], hd_status = 200\<rparr>"

definition header_truthy :: "header_val option \<Rightarrow> bool" where
  "header_truthy h = (case h of None \<Rightarrow> False | Some (One s) \<Rightarrow> s \<noteq> [] | Some (Many vs) \<Rightarrow> True)"

text \<open>The value of a header with one value.\<close>

fun one_of :: "header_val option \<Rightarrow> string option" where
  "one_of (Some (One s)) = Some s"
| "one_of _ = None"

text \<open>A header as a string, as \<open>+\<close>, \<open>RegExp.test\<close> and templates convert it.\<close>

fun header_text :: "header_val \<Rightarrow> string" where
  "header_text (One s) = s"
| "header_text (Many vs) = join_with '','' vs"

text \<open>\<open>new Message({status, headers}, body)\<close>\<close>

definition reply :: "nat \<Rightarrow> headers \<Rightarrow> string \<Rightarrow> message" where
  "reply status hs body =
     \<lparr>ms_head = \<lparr>hd_method = [], hd_path = [], hd_headers = hs, hd_status = status\<rparr>, ms_body = body\<rparr>"

text \<open>The \<open>response\<close> section that several filters share: a status, headers and a body.\<close>

record response_conf =
  rs_status :: "nat option"
  rs_headers :: headers
  rs_body :: "string option"

definition reply_conf :: "nat \<Rightarrow> string \<Rightarrow> response_conf option \<Rightarrow> message" where
  "reply_conf status body conf =
     (case conf of
        None \<Rightarrow> reply status [] body
      | Some c \<Rightarrow> reply (or_else_nat (rs_status c) status) (rs_headers c) (or_else (rs_body c) body))"

lemma header_truthy_simps [simp]:
  "\<not> header_truthy None" "header_truthy (Some (One s)) = (s \<noteq> [])"
  "header_truthy (Some (Many vs))"
  by (simp_all add: header_truthy_def)

end
