(* ===== verification/Utils.thy ===== *)
theory Utils
  imports Resources Http
begin

text \<open>
  \<open>src/utils.js\<close>: identity of keys, the header log line, the policies of a resource, and the
  filter chains. What \<open>pipy.load\<close> and \<open>pipy.import\<close> give for a path is a parameter
  \<open>scripts\<close>; a filter's own code is the function it holds.
\<close>

subsection \<open>Keys and log lines\<close>

definition is_identical :: "'a list \<Rightarrow> 'a list \<Rightarrow> bool" where
  "is_identical a b \<longleftrightarrow>
     length a = length b \<and> \<not> list_ex (\<lambda>i. a ! i \<noteq> b ! i) [0..<length a]"

lemma is_identical_eq [simp]: "is_identical a b \<longleftrightarrow> a = b"
  by (auto simp: is_identical_def list_ex_iff intro: nth_equalityI)

definition stringify_http_headers :: "headers \<Rightarrow> string" where
  "stringify_http_headers hs =
     join_with '' '' (concat (map (\<lambda>(k, v). case v of
         Many vs \<Rightarrow> map (\<lambda>v. k @ ''='' @ v) vs
       | One v \<Rightarrow> [k @ ''='' @ v]) hs))"

subsection \<open>Policies\<close>

definition targets_resource :: "resource \<Rightarrow> target_ref \<Rightarrow> bool" where
  "targets_resource t ref \<longleftrightarrow> tr_kind ref = r_kind t \<and> tr_name ref = r_name t"

definition find_policies :: "'cb store \<Rightarrow> string \<Rightarrow> resource \<Rightarrow> js_error + resource list" where
  "find_policies s kind target =
     filter_res (\<lambda>r. case Option.bind (r_spec r) sp_targetRefs of
         None \<Rightarrow> Inl TypeError
       | Some refs \<Rightarrow> Inr (list_ex (targets_resource target) refs))
       (list_resources s kind)"

lemma find_policies_set:
  "find_policies s kind t = Inr ps \<Longrightarrow> p \<in> set ps \<longleftrightarrow>
     p \<in> set (list_resources s kind) \<and>
     (\<exists>refs ref. Option.bind (r_spec p) sp_targetRefs = Some refs \<and> ref \<in> set refs \<and>
        targets_resource t ref)"
  unfolding find_policies_def
  by (auto simp: filter_res_in_set list_ex_iff split: option.splits)

text \<open>
  \<open>policies.find(r => r.spec.x)?.spec?.x\<close>; an empty string is no value, which \<open>set_text\<close> says.
\<close>

definition set_text :: "(spec \<Rightarrow> string option) \<Rightarrow> spec \<Rightarrow> string option" where
  "set_text f sp = (if truthy (f sp) then f sp else None)"

definition first_policy :: "(spec \<Rightarrow> 'x option) \<Rightarrow> resource list \<Rightarrow> 'x option" where
  "first_policy f ps =
     Option.bind (find (\<lambda>p. Option.bind (r_spec p) f \<noteq> None) ps) (\<lambda>p. Option.bind (r_spec p) f)"

text \<open>The same lookup for a resource that may be missing: reading its kind raises.\<close>

definition find_policies_for ::
    "'cb store \<Rightarrow> string \<Rightarrow> resource option \<Rightarrow> js_error + resource list" where
  "find_policies_for s kind target =
     (case target of
        Some t \<Rightarrow> find_policies s kind t
      | None \<Rightarrow>
          filter_res (\<lambda>r. case Option.bind (r_spec r) sp_targetRefs of
              None \<Rightarrow> Inl TypeError
            | Some refs \<Rightarrow> if refs = [] then Inr False else Inl TypeError) (list_resources s kind))"

text \<open>One policy without \<open>targetRefs\<close> makes every lookup of its kind raise.\<close>

lemma filter_res_raises:
  assumes "x \<in> set xs" "p x = Inl e" "\<And>y. y \<in> set xs \<Longrightarrow> p y \<noteq> Inl e \<Longrightarrow> \<exists>b. p y = Inr b"
  shows "filter_res p xs = Inl e"
  using assms
proof (induction xs)
  case (Cons y xs)
  show ?case
  proof (cases "p y = Inl e")
    case False
    then obtain b where "p y = Inr b" using Cons.prems(3) by auto
    moreover have "filter_res p xs = Inl e"
      using Cons.IH Cons.prems False by auto
    ultimately show ?thesis by simp
  qed simp
qed simp

lemma find_policies_raises:
  assumes "p \<in> set (list_resources s kind)" "Option.bind (r_spec p) sp_targetRefs = None"
  shows "find_policies s kind t = Inl TypeError"
  unfolding find_policies_def
  by (rule filter_res_raises [OF assms(1)]) (auto simp: assms(2) split: option.splits)

subsection \<open>Filter chains\<close>

text \<open>What a script exports: a function, some other value, or nothing.\<close>

datatype 'pl script = Maker "filter_conf \<Rightarrow> js_error + 'pl" | NotFunction | NoDefault

type_synonym 'pl scripts = "string \<Rightarrow> (js_error + 'pl script) option"

text \<open>\<open>importFilter\<close>: \<open>None\<close> of \<open>scripts\<close> is a path that does not load, a left value an import
  that raises, which is caught.\<close>

definition import_filter :: "'pl scripts \<Rightarrow> string \<Rightarrow> 'pl script option" where
  "import_filter scripts path =
     (case scripts path of
        None \<Rightarrow> None
      | Some (Inl e) \<Rightarrow> None
      | Some (Inr NoDefault) \<Rightarrow> None
      | Some (Inr m) \<Rightarrow> Some m)"

definition find_maker :: "'pl scripts \<Rightarrow> string \<Rightarrow> filter_conf \<Rightarrow> 'pl script option" where
  "find_maker scripts protocol conf =
     (case import_filter scripts (''./config/filters/'' @ protocol @ ''/'' @ fc_type conf @ ''.js'') of
        Some m \<Rightarrow> Some m
      | None \<Rightarrow> import_filter scripts (''./filters/'' @ protocol @ ''/'' @ fc_type conf @ ''.js''))"

definition make_filter :: "'pl scripts \<Rightarrow> string \<Rightarrow> filter_conf \<Rightarrow> js_error + 'pl" where
  "make_filter scripts protocol conf =
     (case find_maker scripts protocol conf of
        None \<Rightarrow> Inl (Thrown (protocol @ '' filter not found: '' @ fc_type conf))
      | Some (Maker f) \<Rightarrow> f conf
      | Some _ \<Rightarrow> Inl (Thrown (''filter '' @ fc_type conf @ '' is not a function'')))"

text \<open>The callback of \<open>filters.map\<close> changes \<open>protocol\<close>, so the chain is threaded through it.\<close>

fun make_filter_list ::
    "'pl scripts \<Rightarrow> ('pl \<Rightarrow> string option) \<Rightarrow> string \<Rightarrow> filter_conf list \<Rightarrow>
     js_error + 'pl list \<times> string" where
  "make_filter_list scripts out protocol [] = Inr ([], protocol)"
| "make_filter_list scripts out protocol (c # cs) =
     bind_res (make_filter scripts protocol c)
       (\<lambda>pl. bind_res (make_filter_list scripts out (or_else (out pl) protocol) cs)
          (\<lambda>(pls, q). Inr (pl # pls, q)))"

definition make_filters ::
    "'pl scripts \<Rightarrow> ('pl \<Rightarrow> string option) \<Rightarrow> string \<Rightarrow> filter_conf list option \<Rightarrow>
     js_error + 'pl list \<times> string" where
  "make_filters scripts out protocol filters =
     make_filter_list scripts out protocol (case filters of None \<Rightarrow> [] | Some cs \<Rightarrow> cs)"

lemma make_filter_list_append:
  "make_filter_list scripts out protocol (xs @ ys) =
     bind_res (make_filter_list scripts out protocol xs)
       (\<lambda>(pls, q). bind_res (make_filter_list scripts out q ys) (\<lambda>(pls', r). Inr (pls @ pls', r)))"
proof (induction xs arbitrary: protocol)
  case Nil
  then show ?case
    by (cases "make_filter_list scripts out protocol ys") auto
next
  case (Cons c xs)
  show ?case
  proof (cases "make_filter scripts protocol c")
    case (Inr pl)
    let ?p = "or_else (out pl) protocol"
    show ?thesis
    proof (cases "make_filter_list scripts out ?p xs")
      case xs: (Inr v)
      obtain pls q where v: "v = (pls, q)" by force
      show ?thesis
        using Inr xs v by (cases "make_filter_list scripts out q ys") (auto simp: Cons.IH)
    qed (simp add: Inr Cons.IH)
  qed simp
qed

lemma make_filter_list_protocol:
  "make_filter_list scripts out protocol cs = Inr (pls, q) \<Longrightarrow> protocol \<noteq> [] \<Longrightarrow> q \<noteq> []"
proof (induction cs arbitrary: protocol pls)
  case (Cons c cs)
  then obtain pl pls' where "make_filter_list scripts out (or_else (out pl) protocol) cs = Inr (pls', q)"
    by (auto simp: bind_res_Inr_iff)
  moreover have "or_else (out pl) protocol \<noteq> []"
    using Cons.prems(2) by (auto simp: or_else_def split: option.splits)
  ultimately show ?case by (rule Cons.IH)
qed simp

lemma make_filter_list_length:
  "make_filter_list scripts out protocol cs = Inr (pls, q) \<Longrightarrow> length pls = length cs"
  by (induction cs arbitrary: protocol pls) (fastforce simp: bind_res_Inr_iff)+

end
