(* ===== verification/Backend_Selector.thy ===== *)
theory Backend_Selector
  imports Utils
begin

text \<open>
  \<open>src/modules/backend-selector.js\<close>: from a rule's backend references to targets, each with
  the filters of the listener, the rule and the reference in front of its balancer. The
  balancer is made by the router that asks (\<open>make_balancer\<close>); \<open>algo.LoadBalancer\<close> is the
  parameter \<open>alloc\<close>.
\<close>

record 'pl target =
  tg_id :: "string option"
  tg_ref :: "backend_ref option"
  tg_resource :: "resource option"
  tg_weight :: nat
  tg_pipeline :: 'pl

datatype 'pl selector = SingleTarget "'pl target" | BalancedTargets "'pl target list"

definition find_backend_resource ::
    "(string \<Rightarrow> string \<Rightarrow> resource option) \<Rightarrow> backend_ref option \<Rightarrow> resource option" where
  "find_backend_resource named ref =
     (case ref of
        None \<Rightarrow> None
      | Some r \<Rightarrow> Option.bind (br_name r) (named (or_else (br_kind r) ''Backend'')))"

type_synonym ('f, 'pl) balancer_maker =
  "backend_ref option \<Rightarrow> resource option \<Rightarrow> 'f list \<Rightarrow> string \<Rightarrow> js_error + 'pl"

definition make_backend_target ::
    "'f scripts \<Rightarrow> ('f \<Rightarrow> string option) \<Rightarrow> (string \<Rightarrow> string \<Rightarrow> resource option) \<Rightarrow>
     ('f, 'pl) balancer_maker \<Rightarrow> 'f list \<Rightarrow> 'f list \<times> string \<Rightarrow> backend_ref option \<Rightarrow>
     js_error + 'pl target" where
  "make_backend_target scripts out named make_balancer routeFilters ruleFilters ref =
     (let res = find_backend_resource named ref
      in bind_res (make_filters scripts out (snd ruleFilters) (Option.bind ref br_filters))
           (\<lambda>(backendFilters, protocol).
              bind_res (make_balancer ref res (routeFilters @ fst ruleFilters @ backendFilters) protocol)
                (\<lambda>pl. Inr \<lparr>tg_id = Option.bind ref br_name, tg_ref = ref, tg_resource = res,
                           tg_weight = or_else_nat (Option.bind ref br_weight) 1, tg_pipeline = pl\<rparr>)))"

definition rule_refs :: "rule option \<Rightarrow> backend_ref list" where
  "rule_refs rl = (case Option.bind rl ru_backendRefs of None \<Rightarrow> [] | Some rs \<Rightarrow> rs)"

definition make_backend_selector ::
    "'f scripts \<Rightarrow> ('f \<Rightarrow> string option) \<Rightarrow> (string \<Rightarrow> string \<Rightarrow> resource option) \<Rightarrow>
     string \<Rightarrow> listener option \<Rightarrow> rule option \<Rightarrow> ('f, 'pl) balancer_maker \<Rightarrow>
     js_error + 'pl selector" where
  "make_backend_selector scripts out named protocol l rl make_balancer =
     bind_res (make_filters scripts out protocol (Option.bind l l_routeFilters)) (\<lambda>(routeFilters, p).
       bind_res (make_filters scripts out p (Option.bind rl ru_filters)) (\<lambda>ruleFilters.
         let refs = rule_refs rl;
             target = make_backend_target scripts out named make_balancer routeFilters ruleFilters
         in if 1 < length refs then
              bind_res (map_res target (map Some refs)) (\<lambda>ts. Inr (BalancedTargets ts))
            else
              bind_res (target (if refs = [] then None else Some (hd refs)))
                (\<lambda>t. Inr (SingleTarget t))))"

text \<open>What the selector function gives: the one target, or the load balancer's choice.\<close>

definition select_target ::
    "('pl target list \<Rightarrow> 'h \<Rightarrow> 'pl target option) \<Rightarrow> 'pl selector \<Rightarrow> 'h \<Rightarrow> 'pl target option" where
  "select_target alloc sel hint =
     (case sel of SingleTarget t \<Rightarrow> Some t | BalancedTargets ts \<Rightarrow> alloc ts hint)"

fun targets_of :: "'pl selector \<Rightarrow> 'pl target list" where
  "targets_of (SingleTarget t) = [t]"
| "targets_of (BalancedTargets ts) = ts"

subsection \<open>Every target carries the whole chain\<close>

definition rule_chain :: "listener option \<Rightarrow> rule option \<Rightarrow> backend_ref option \<Rightarrow> filter_conf list" where
  "rule_chain l rl ref =
     (case Option.bind l l_routeFilters of None \<Rightarrow> [] | Some cs \<Rightarrow> cs) @
     (case Option.bind rl ru_filters of None \<Rightarrow> [] | Some cs \<Rightarrow> cs) @
     (case Option.bind ref br_filters of None \<Rightarrow> [] | Some cs \<Rightarrow> cs)"

lemma make_backend_target_chain:
  assumes "make_filters scripts out protocol (Option.bind l l_routeFilters) = Inr (fs, p)"
    and "make_filters scripts out p (Option.bind rl ru_filters) = Inr rf"
    and "make_backend_target scripts out named make_balancer fs rf ref = Inr t"
  shows "\<exists>chain q. make_filter_list scripts out protocol (rule_chain l rl ref) = Inr (chain, q) \<and>
     make_balancer ref (find_backend_resource named ref) chain q = Inr (tg_pipeline t) \<and>
     tg_ref t = ref \<and> tg_resource t = find_backend_resource named ref \<and>
     tg_weight t = or_else_nat (Option.bind ref br_weight) 1"
  using assms
  by (cases rf)
    (auto simp: make_backend_target_def make_filters_def rule_chain_def make_filter_list_append
      bind_res_Inr_iff Let_def)

lemma selector_targets:
  assumes "make_backend_selector scripts out named protocol l rl make_balancer = Inr sel"
  obtains fs p rf where
    "make_filters scripts out protocol (Option.bind l l_routeFilters) = Inr (fs, p)"
    "make_filters scripts out p (Option.bind rl ru_filters) = Inr rf"
    "list_all2 (\<lambda>ref t. make_backend_target scripts out named make_balancer fs rf ref = Inr t)
       (if rule_refs rl = [] then [None] else map Some (rule_refs rl)) (targets_of sel)"
proof -
  obtain fs p rf where f: "make_filters scripts out protocol (Option.bind l l_routeFilters) = Inr (fs, p)"
    "make_filters scripts out p (Option.bind rl ru_filters) = Inr rf"
    and sel: "(let refs = rule_refs rl;
             target = make_backend_target scripts out named make_balancer fs rf
         in if 1 < length refs then
              bind_res (map_res target (map Some refs)) (\<lambda>ts. Inr (BalancedTargets ts))
            else
              bind_res (target (if refs = [] then None else Some (hd refs)))
                (\<lambda>t. Inr (SingleTarget t))) = Inr sel"
    using assms unfolding make_backend_selector_def by (auto simp: bind_res_Inr_iff)
  have "list_all2 (\<lambda>ref t. make_backend_target scripts out named make_balancer fs rf ref = Inr t)
       (if rule_refs rl = [] then [None] else map Some (rule_refs rl)) (targets_of sel)"
  proof (cases "1 < length (rule_refs rl)")
    case True
    then have "rule_refs rl \<noteq> []" by auto
    then show ?thesis using sel True by (auto simp: bind_res_Inr_iff map_res_Inr_iff Let_def)
  next
    case False
    then have "rule_refs rl = [] \<or> (\<exists>r. rule_refs rl = [r])"
      by (cases "rule_refs rl") auto
    then show ?thesis using sel by (auto simp: bind_res_Inr_iff Let_def)
  qed
  then show thesis by (rule that [OF f])
qed

lemma selector_chain:
  assumes "make_backend_selector scripts out named protocol l rl make_balancer = Inr sel"
  shows "map tg_ref (targets_of sel) =
           (if rule_refs rl = [] then [None] else map Some (rule_refs rl)) \<and>
         (\<forall>t \<in> set (targets_of sel). \<exists>chain q.
            make_filter_list scripts out protocol (rule_chain l rl (tg_ref t)) = Inr (chain, q) \<and>
            make_balancer (tg_ref t) (find_backend_resource named (tg_ref t)) chain q
              = Inr (tg_pipeline t))"
proof -
  obtain fs p rf where f:
    "make_filters scripts out protocol (Option.bind l l_routeFilters) = Inr (fs, p)"
    "make_filters scripts out p (Option.bind rl ru_filters) = Inr rf"
    and all: "list_all2 (\<lambda>ref t. make_backend_target scripts out named make_balancer fs rf ref = Inr t)
       (if rule_refs rl = [] then [None] else map Some (rule_refs rl)) (targets_of sel)"
    by (rule selector_targets [OF assms])
  note chain = make_backend_target_chain [OF f]
  have "map tg_ref (targets_of sel) =
      (if rule_refs rl = [] then [None] else map Some (rule_refs rl))"
    using all by (rule list_all2_map_eq) (use chain in blast)
  moreover have "\<exists>ref. make_backend_target scripts out named make_balancer fs rf ref = Inr t"
    if "t \<in> set (targets_of sel)" for t
    using list_all2_in2 [OF all that] by blast
  ultimately show ?thesis using chain by blast
qed

text \<open>C5: A selector serves every backend reference of its rule, in order, and the pipeline of
  each target is built on one unbroken filter chain: the filters of the listener, of the rule
  and of the reference, made as a single list, so that a filter that changes the protocol (as
  CallDubbo does) changes it for every filter and for the balancer behind it.\<close>

theorem selector_chains:
  assumes "make_backend_selector scripts out named protocol l rl make_balancer = Inr sel"
  shows "map tg_ref (targets_of sel) =
           (if rule_refs rl = [] then [None] else map Some (rule_refs rl)) \<and>
         (\<forall>t \<in> set (targets_of sel). \<exists>chain q.
            make_filter_list scripts out protocol (rule_chain l rl (tg_ref t)) = Inr (chain, q) \<and>
            make_balancer (tg_ref t) (find_backend_resource named (tg_ref t)) chain q
              = Inr (tg_pipeline t))"
  using assms by (rule selector_chain)

text \<open>An example: a rule with a filter that speaks Dubbo, and two references, one of weight 0.\<close>

definition ex_scripts :: "string scripts" where
  "ex_scripts p =
     (if p = ''./filters/http/CallDubbo.js'' then Some (Inr (Maker (\<lambda>c. Inr ''CallDubbo'')))
      else if p = ''./filters/dubbo/Log.js'' then Some (Inr (Maker (\<lambda>c. Inr ''Log'')))
      else None)"

definition ex_out :: "string \<Rightarrow> string option" where
  "ex_out pl = (if pl = ''CallDubbo'' then Some ''dubbo'' else None)"

definition ex_ref :: "string \<Rightarrow> nat option \<Rightarrow> backend_ref" where
  "ex_ref n w = \<lparr>br_kind = None, br_name = Some n, br_weight = w,
     br_filters = Some [\<lparr>fc_type = ''Log'', fc_key = None\<rparr>]\<rparr>"

definition ex_rule :: rule where
  "ex_rule = no_rule\<lparr>ru_filters := Some [\<lparr>fc_type = ''CallDubbo'', fc_key = None\<rparr>],
     ru_backendRefs := Some [ex_ref ''a'' (Some 0), ex_ref ''b'' (Some 3)]\<rparr>"

definition ex_balancer :: "(string, string list \<times> string) balancer_maker" where
  "ex_balancer ref res fs p = Inr (fs, p)"

definition ex_target :: "string \<Rightarrow> nat \<Rightarrow> nat \<Rightarrow> (string list \<times> string) target" where
  "ex_target n w w' = \<lparr>tg_id = Some n, tg_ref = Some (ex_ref n (Some w)), tg_resource = None,
     tg_weight = w', tg_pipeline = ([''CallDubbo'', ''Log''], ''dubbo'')\<rparr>"

lemma ex_selector:
  "make_backend_selector ex_scripts ex_out (\<lambda>k n. None) ''http'' None (Some ex_rule) ex_balancer =
   Inr (BalancedTargets [ex_target ''a'' 0 1, ex_target ''b'' 3 3])"
  by (simp add: make_backend_selector_def make_filters_def make_filter_def find_maker_def
      import_filter_def ex_scripts_def ex_out_def ex_rule_def ex_ref_def ex_balancer_def
      ex_target_def rule_refs_def no_rule_def make_backend_target_def find_backend_resource_def)

lemma selector_chains_witness:
  "map tg_ref [ex_target ''a'' 0 1, ex_target ''b'' 3 3] =
     [Some (ex_ref ''a'' (Some 0)), Some (ex_ref ''b'' (Some 3))]"
  using selector_chains [OF ex_selector] by (simp add: ex_rule_def rule_refs_def)

text \<open>A reference of weight 0 still gets traffic: the weight that reaches the load balancer
  is never 0, because \<open>weight || 1\<close> takes 0 for a missing weight; any other weight is kept.\<close>

theorem weight_zero_served:
  assumes "make_backend_selector scripts out named protocol l rl make_balancer = Inr sel"
    and "t \<in> set (targets_of sel)"
  shows "tg_weight t = (case Option.bind (tg_ref t) br_weight of None \<Rightarrow> 1 | Some w \<Rightarrow> max 1 w)"
proof -
  obtain fs p rf where f:
    "make_filters scripts out protocol (Option.bind l l_routeFilters) = Inr (fs, p)"
    "make_filters scripts out p (Option.bind rl ru_filters) = Inr rf"
    and all: "list_all2 (\<lambda>ref t. make_backend_target scripts out named make_balancer fs rf ref = Inr t)
       (if rule_refs rl = [] then [None] else map Some (rule_refs rl)) (targets_of sel)"
    by (rule selector_targets [OF assms(1)])
  obtain ref where "make_backend_target scripts out named make_balancer fs rf ref = Inr t"
    using list_all2_in2 [OF all assms(2)] by blast
  then have "tg_ref t = ref" "tg_weight t = or_else_nat (Option.bind ref br_weight) 1"
    using make_backend_target_chain [OF f] by blast+
  then show ?thesis by (simp add: or_else_nat_def split: option.splits)
qed

lemma weight_zero_served_witness:
  "tg_weight (ex_target ''a'' 0 1) = 1"
  using weight_zero_served [OF ex_selector, of "ex_target ''a'' 0 1"]
  by (simp add: ex_target_def ex_ref_def)

end
