(* ===== verification/Session.thy ===== *)
theory Session
  imports Config Http
begin

text \<open>
  \<open>src/modules/session-persistence.js\<close>: a session key is taken from a request (cookie or
  header) and from a response (\<open>set-cookie\<close> or header); \<open>restore\<close> looks the key of a request
  up, \<open>preserve\<close> stores a session under the key of a response. The cache is
  \<open>algo.Cache\<close>, given by its two operations and the law that a key gives what was
  last set.
\<close>

subsection \<open>Keys\<close>

definition req_cookie_key :: "string \<Rightarrow> head \<Rightarrow> js_error + header_val option" where
  "req_cookie_key name h =
     (let prefix = name @ ''='' in
      case obj_get (hd_headers h) ''cookie'' of
        None \<Rightarrow> Inr None
      | Some (Many vs) \<Rightarrow> Inl TypeError
      | Some (One s) \<Rightarrow>
          if s = [] then Inr None
          else Inr (map_option (\<lambda>c. One (trim (drop (length prefix) c)))
                     (find (\<lambda>c. starts_with prefix (trim c)) (split_on CHR '';'' s))))"

definition res_cookie_key :: "string \<Rightarrow> head \<Rightarrow> js_error + header_val option" where
  "res_cookie_key name h =
     (let prefix = name @ ''='';
          v = (case obj_get (hd_headers h) ''set-cookie'' of
                 Some (Many vs) \<Rightarrow> find (starts_with prefix) vs
               | Some (One s) \<Rightarrow> Some s
               | None \<Rightarrow> Some [])
      in if truthy v then
           (let s = the v;
                s' = (case index_of CHR '';'' s of None \<Rightarrow> s | Some i \<Rightarrow> take i s)
            in Inr (Some (One (drop (length prefix) s'))))
         else Inr None)"

definition header_key :: "string \<Rightarrow> head \<Rightarrow> js_error + header_val option" where
  "header_key name h = Inr (obj_get (hd_headers h) name)"

text \<open>A type other than \<open>Cookie\<close> and \<open>Header\<close> leaves the getters undefined: calling one raises.\<close>

definition req_key :: "session_conf \<Rightarrow> head \<Rightarrow> js_error + header_val option" where
  "req_key cfg =
     (let ty = or_else (sc_type cfg) ''Cookie''
      in if ty = ''Cookie'' then req_cookie_key (sc_name cfg)
         else if ty = ''Header'' then header_key (sc_name cfg)
         else (\<lambda>h. Inl TypeError))"

definition res_key :: "session_conf \<Rightarrow> head \<Rightarrow> js_error + header_val option" where
  "res_key cfg =
     (let ty = or_else (sc_type cfg) ''Cookie''
      in if ty = ''Cookie'' then res_cookie_key (sc_name cfg)
         else if ty = ''Header'' then header_key (sc_name cfg)
         else (\<lambda>h. Inl TypeError))"

subsection \<open>Restore and preserve\<close>

text \<open>\<open>$sessionKey\<close> is a variable of the stream, the cache is shared by all streams.\<close>

record 'c session =
  ss_key :: "header_val option"
  ss_cache :: 'c

definition restore ::
    "('c \<Rightarrow> header_val option \<Rightarrow> 's option) \<Rightarrow> session_conf \<Rightarrow> head \<Rightarrow> 'c session \<Rightarrow>
     js_error + 's option \<times> 'c session" where
  "restore get cfg h st =
     bind_res (req_key cfg h) (\<lambda>k.
       Inr (if header_truthy k then get (ss_cache st) k else None, st\<lparr>ss_key := k\<rparr>))"

definition preserve ::
    "(header_val option \<Rightarrow> 's \<Rightarrow> 'c \<Rightarrow> 'c) \<Rightarrow> session_conf \<Rightarrow> head \<Rightarrow> 's \<Rightarrow> 'c session \<Rightarrow>
     js_error + 'c session" where
  "preserve put cfg h v st =
     bind_res (res_key cfg h) (\<lambda>k.
       (let key = (if header_truthy k then k else ss_key st)
        in Inr (st\<lparr>ss_key := key, ss_cache := put key v (ss_cache st)\<rparr>)))"

text \<open>What the cache of pipy promises.\<close>

definition cache_law :: "('c \<Rightarrow> 'k \<Rightarrow> 's option) \<Rightarrow> ('k \<Rightarrow> 's \<Rightarrow> 'c \<Rightarrow> 'c) \<Rightarrow> bool" where
  "cache_law get put \<longleftrightarrow>
     (\<forall>c k v k'. get (put k v c) k' = (if k' = k then Some v else get c k'))"

lemma cache_law_map [simp]: "cache_law (\<lambda>c. c) (\<lambda>k v c. c(k \<mapsto> v))"
  by (simp add: cache_law_def)

subsection \<open>Round trips\<close>

text \<open>A cookie pair as browsers write it: no semicolon, no surrounding white space.\<close>

definition cookie_ok :: "string \<Rightarrow> string \<Rightarrow> bool" where
  "cookie_ok name val \<longleftrightarrow>
     name \<noteq> [] \<and> val \<noteq> [] \<and> CHR '';'' \<notin> set (name @ ''='' @ val) \<and>
     \<not> is_space (name ! 0) \<and> \<not> is_space (val ! 0) \<and> \<not> is_space (last val)"

lemma trim_id: "s \<noteq> [] \<Longrightarrow> \<not> is_space (s ! 0) \<Longrightarrow> \<not> is_space (last s) \<Longrightarrow> trim s = s"
proof -
  assume s: "s \<noteq> []" "\<not> is_space (s ! 0)" "\<not> is_space (last s)"
  have "dropWhile is_space s = s" using s by (cases s) auto
  moreover have "dropWhile is_space (rev s) = rev s"
    using s by (cases s rule: rev_cases) auto
  ultimately show "trim s = s" by (simp add: trim_def)
qed

lemma trim_space: "trim (CHR '' '' # s) = trim s"
  by (simp add: trim_def is_space_def)

lemma cookie_trim:
  assumes "cookie_ok name val"
  shows "trim (name @ ''='' @ val) = name @ ''='' @ val" "trim val = val" "trim (CHR ''='' # val) = CHR ''='' # val"
  using assms
  by (auto simp: cookie_ok_def nth_append is_space_def intro!: trim_id)

lemma split_first:
  assumes "c \<notin> set a" "rest = [] \<or> hd rest = c"
  shows "\<exists>ps. split_on c (a @ rest) = a # ps"
  using assms
proof (induction a)
  case Nil
  then show ?case by (cases rest) auto
next
  case (Cons x a)
  then show ?case by auto
qed

lemma index_of_append:
  "c \<notin> set a \<Longrightarrow> index_of c (a @ rest) = map_option (\<lambda>i. length a + i) (index_of c rest)"
proof (induction a)
  case Nil
  then show ?case by (cases "index_of c rest") auto
next
  case (Cons x a)
  then show ?case by (cases "index_of c rest") auto
qed

lemma index_of_None: "c \<notin> set a \<Longrightarrow> index_of c a = None"
  by (induction a) auto

lemma cut_at:
  assumes "c \<notin> set a" "rest = [] \<or> hd rest = c"
  shows "(case index_of c (a @ rest) of None \<Rightarrow> a @ rest | Some i \<Rightarrow> take i (a @ rest)) = a"
  using assms by (cases rest) (auto simp: index_of_append index_of_None)

text \<open>The key of a response that sets the cookie, alone or among others.\<close>

lemma res_key_set:
  assumes "cookie_ok n val" "rest = [] \<or> hd rest = CHR '';''"
    and "obj_get (hd_headers h) ''set-cookie'' = Some (One (n @ ''='' @ val @ rest)) \<or>
         (\<exists>vs ws. obj_get (hd_headers h) ''set-cookie'' = Some (Many (vs @ (n @ ''='' @ val @ rest) # ws)) \<and>
            (\<forall>v \<in> set vs. \<not> starts_with (n @ ''='') v))"
  shows "res_cookie_key n h = Inr (Some (One val))"
proof -
  let ?c = "n @ ''='' @ val @ rest"
  have no: "CHR '';'' \<notin> set (n @ ''='' @ val)" using assms(1) by (simp add: cookie_ok_def)
  have cut: "(case index_of CHR '';'' ?c of None \<Rightarrow> ?c | Some i \<Rightarrow> take i ?c) = n @ ''='' @ val"
    using cut_at [OF no assms(2)] unfolding append_assoc .
  have "starts_with (n @ ''='') ?c" by (auto simp: starts_with_iff)
  then have f: "find (starts_with (n @ ''='')) (vs @ ?c # ws) = Some ?c"
    if "\<forall>v \<in> set vs. \<not> starts_with (n @ ''='') v" for vs ws
    using that by (auto simp: find_append find_None [symmetric])
  have v: "(case obj_get (hd_headers h) ''set-cookie'' of
                 Some (Many vs) \<Rightarrow> find (starts_with (n @ ''='')) vs
               | Some (One s) \<Rightarrow> Some s
               | None \<Rightarrow> Some []) = Some ?c"
    using assms(3) f by auto
  show ?thesis unfolding res_cookie_key_def Let_def v option.sel cut by simp
qed

text \<open>The key of a request whose first cookie is the session's.\<close>

lemma req_key_first:
  assumes "cookie_ok n val" "more' = [] \<or> hd more' = CHR '';''"
    and "obj_get (hd_headers h) ''cookie'' = Some (One (n @ ''='' @ val @ more'))"
  shows "req_cookie_key n h = Inr (Some (One val))"
proof -
  have no: "CHR '';'' \<notin> set (n @ ''='' @ val)" using assms(1) by (simp add: cookie_ok_def)
  obtain ps where ps: "split_on CHR '';'' (n @ ''='' @ val @ more') = (n @ ''='' @ val) # ps"
    using split_first [OF no assms(2)] by auto
  have start: "starts_with (n @ ''='') (n @ ''='' @ val)" by (auto simp: starts_with_iff)
  show ?thesis
    using start assms(3) ps cookie_trim [OF assms(1)] by (simp add: req_cookie_key_def)
qed

lemma cookie_truthy: "cookie_ok n val \<Longrightarrow> header_truthy (Some (One val))"
  by (simp add: cookie_ok_def)

text \<open>Cookie persistence works when the cookie comes first: a session stored under the
  cookie a response sets (in one header or among several) is restored for every request whose
  \<open>cookie\<close> header starts with that cookie, whatever follows.\<close>

theorem session_restored:
  assumes "cache_law get put" "or_else (sc_type cfg) ''Cookie'' = ''Cookie''"
    and "cookie_ok (sc_name cfg) val" "rest = [] \<or> hd rest = CHR '';''" "more' = [] \<or> hd more' = CHR '';''"
    and "obj_get (hd_headers res) ''set-cookie'' = Some (One (sc_name cfg @ ''='' @ val @ rest)) \<or>
         (\<exists>vs ws. obj_get (hd_headers res) ''set-cookie'' =
              Some (Many (vs @ (sc_name cfg @ ''='' @ val @ rest) # ws)) \<and>
            (\<forall>v \<in> set vs. \<not> starts_with (sc_name cfg @ ''='') v))"
    and "obj_get (hd_headers req) ''cookie'' = Some (One (sc_name cfg @ ''='' @ val @ more'))"
  shows "\<exists>st'. preserve put cfg res session st = Inr st' \<and>
           (\<exists>st''. restore get cfg req (st'\<lparr>ss_key := k\<rparr>) = Inr (Some session, st''))"
proof -
  show ?thesis
    using assms(1,2) req_key_first [OF assms(3,5,7)] res_key_set [OF assms(3,4,6)]
      cookie_truthy [OF assms(3)]
    by (simp add: preserve_def restore_def req_key_def res_key_def cache_law_def Let_def)
qed

text \<open>A cookie that is not the first is misread: browsers separate cookies by a semicolon
  and a space, the prefix is cut from the piece with the space still in front, and the key that
  is looked up starts with the equals sign, so the stored session is not found.\<close>

theorem later_cookie_misread:
  assumes "cookie_ok (sc_name cfg) val" "or_else (sc_type cfg) ''Cookie'' = ''Cookie''"
    and "CHR '';'' \<notin> set other" "\<not> starts_with (sc_name cfg @ ''='') (trim other)"
    and "obj_get (hd_headers req) ''cookie'' = Some (One (other @ ''; '' @ sc_name cfg @ ''='' @ val))"
  shows "req_key cfg req = Inr (Some (One (''='' @ val))) \<and>
         restore get cfg req st =
           Inr (get (ss_cache st) (Some (One (''='' @ val))), st\<lparr>ss_key := Some (One (''='' @ val))\<rparr>)"
proof -
  let ?n = "sc_name cfg"
  have no: "CHR '';'' \<notin> set (CHR '' '' # ?n @ ''='' @ val)" using assms(1) by (simp add: cookie_ok_def)
  have split: "split_on CHR '';'' (other @ ''; '' @ ?n @ ''='' @ val) =
      [other, CHR '' '' # ?n @ ''='' @ val]"
  proof -
    have "split_on CHR '';'' (a @ CHR '';'' # b) = a # split_on CHR '';'' b" if "CHR '';'' \<notin> set a" for a b
      using that by (induction a) auto
    moreover have "split_on CHR '';'' s = [s]" if "CHR '';'' \<notin> set s" for s
      using that by (induction s) auto
    ultimately show ?thesis using assms(3) no by simp
  qed
  have "starts_with (?n @ ''='') (trim (CHR '' '' # ?n @ ''='' @ val))"
    using cookie_trim(1) [OF assms(1)] by (auto simp: trim_space starts_with_iff)
  moreover have "drop (length (?n @ ''='')) (CHR '' '' # ?n @ ''='' @ val) = ''='' @ val"
    by (simp add: drop_Cons split: nat.split)
  ultimately have "req_cookie_key ?n req = Inr (Some (One (''='' @ val)))"
    using assms(4,5) split cookie_trim(3) [OF assms(1)] by (simp add: req_cookie_key_def)
  then show ?thesis using assms(2) by (simp add: req_key_def restore_def)
qed

definition ex_session :: session_conf where
  "ex_session = \<lparr>sc_type = None, sc_name = ''sid''\<rparr>"

definition ex_req :: "string \<Rightarrow> head" where
  "ex_req c = no_head\<lparr>hd_headers := [(''cookie'', One c)]\<rparr>"

definition ex_res :: "string \<Rightarrow> head" where
  "ex_res c = no_head\<lparr>hd_headers := [(''set-cookie'', One c)]\<rparr>"

lemma ex_cookie: "cookie_ok (sc_name ex_session) ''v1''"
  by (simp add: cookie_ok_def ex_session_def is_space_def)

lemma session_restored_witness:
  "\<exists>st'. preserve (\<lambda>k v c. c(k \<mapsto> v)) ex_session (ex_res ''sid=v1; Path=/'') (7::nat)
      \<lparr>ss_key = None, ss_cache = Map.empty\<rparr> = Inr st' \<and>
     (\<exists>st''. restore (\<lambda>c. c) ex_session (ex_req ''sid=v1; a=b'') (st'\<lparr>ss_key := None\<rparr>) =
        Inr (Some 7, st''))"
  using session_restored [OF cache_law_map _ ex_cookie, of "''; Path=/''" "''; a=b''"
      "ex_res ''sid=v1; Path=/''" "ex_req ''sid=v1; a=b''" 7 "\<lparr>ss_key = None, ss_cache = Map.empty\<rparr>" None]
  by (simp add: ex_session_def ex_req_def ex_res_def no_head_def)

lemma later_cookie_misread_witness:
  "req_key ex_session (ex_req ''a=b; sid=v1'') = Inr (Some (One ''=v1''))"
proof -
  have "\<not> starts_with (sc_name ex_session @ ''='') (trim ''a=b'')"
    by (simp add: ex_session_def starts_with_def trim_def is_space_def)
  moreover have "obj_get (hd_headers (ex_req ''a=b; sid=v1'')) ''cookie'' =
      Some (One (''a=b'' @ ''; '' @ sc_name ex_session @ ''='' @ ''v1''))"
    by (simp add: ex_session_def ex_req_def no_head_def)
  moreover have "or_else (sc_type ex_session) ''Cookie'' = ''Cookie''" "CHR '';'' \<notin> set ''a=b''"
    by (simp_all add: ex_session_def)
  ultimately have "req_key ex_session (ex_req ''a=b; sid=v1'') = Inr (Some (One (''='' @ ''v1'')))"
    using later_cookie_misread [OF ex_cookie] by blast
  then show ?thesis by simp
qed

end
