(* ===== verification/Host_Match.thy ===== *)
theory Host_Match
  imports Prelude
begin

text \<open>
  The name table that the HTTP and TLS routers, TLS termination and the DNS modifier build
  the same way: full names in an object, wildcards as a list of postfixes that is searched
  in order when no full name is found.
\<close>

subsection \<open>Lookup\<close>

definition postfix_find :: "(string \<times> 'v) list \<Rightarrow> string \<Rightarrow> 'v option" where
  "postfix_find posts name = map_option snd (find (\<lambda>(p, _). ends_with p name) posts)"

definition host_lookup :: "'v obj \<Rightarrow> (string \<times> 'v) list \<Rightarrow> string \<Rightarrow> 'v option" where
  "host_lookup fulls posts name =
     (case obj_get fulls name of Some v \<Rightarrow> Some v | None \<Rightarrow> postfix_find posts name)"

text \<open>\<open>sort((a, b) => b[0].length - a[0].length)\<close>: the longest postfix first.\<close>

definition by_length :: "string \<times> 'v \<Rightarrow> string \<times> 'v \<Rightarrow> int" where
  "by_length a b = int (length (fst b)) - int (length (fst a))"

definition sort_postfixes :: "(string \<times> 'v) list \<Rightarrow> (string \<times> 'v) list" where
  "sort_postfixes posts = js_sort by_length posts"

lemma sort_postfixes_sorted:
  "sorted_wrt (\<lambda>a b. length (fst b) \<le> length (fst a)) (sort_postfixes posts)"
proof -
  have "sorted_wrt (\<lambda>a b. by_length a b \<le> 0) (sort_postfixes posts)"
    unfolding sort_postfixes_def
    by (rule js_sort_sorted) (auto simp: by_length_def sorted_wrt_iff_nth_less)
  then show ?thesis
    by (rule sorted_wrt_mono_rel [rotated]) (simp add: by_length_def)
qed

lemma set_sort_postfixes [simp]: "set (sort_postfixes posts) = set posts"
  by (simp add: sort_postfixes_def)

lemma postfix_find_Some:
  "postfix_find posts name = Some v \<Longrightarrow> \<exists>p. (p, v) \<in> set posts \<and> ends_with p name"
  by (auto simp: postfix_find_def dest!: find_Some_in)

lemma postfix_find_None:
  "postfix_find posts name = None \<longleftrightarrow> (\<forall>(p, v) \<in> set posts. \<not> ends_with p name)"
  by (auto simp: postfix_find_def find_None)

lemma postfix_find_longest:
  assumes s: "sorted_wrt (\<lambda>a b. length (fst b) \<le> length (fst a)) posts"
    and f: "postfix_find posts name = Some v"
  shows "\<exists>p. (p, v) \<in> set posts \<and> ends_with p name \<and>
           (\<forall>(q, w) \<in> set posts. ends_with q name \<longrightarrow> length q \<le> length p)"
proof -
  obtain p where p: "find (\<lambda>(p, _). ends_with p name) posts = Some (p, v)"
    using f by (auto simp: postfix_find_def)
  have "length q \<le> length p" if "(q, w) \<in> set posts" "ends_with q name" for q w
    using find_sorted [OF s p that(1)] that(2) by auto
  then show ?thesis using find_Some_in [OF p] by auto
qed

subsection \<open>The contract\<close>

locale host_table =
  fixes lookup :: "string \<Rightarrow> 'v option"
    and exact :: "string \<Rightarrow> 'v option"
    and wild :: "(string \<times> 'v) list"
  assumes exact_first: "exact name = Some v \<Longrightarrow> lookup name = Some v"
    and else_wild: "exact name = None \<Longrightarrow> lookup name = postfix_find wild name"
begin

lemma found:
  "lookup name = Some v \<Longrightarrow> exact name = Some v \<or> (\<exists>p. (p, v) \<in> set wild \<and> ends_with p name)"
  by (cases "exact name") (auto simp: exact_first else_wild dest: postfix_find_Some)

lemma not_found:
  "lookup name = None \<longleftrightarrow> exact name = None \<and> (\<forall>(p, v) \<in> set wild. \<not> ends_with p name)"
  by (cases "exact name") (auto simp: exact_first else_wild postfix_find_None)

text \<open>A catch-all wildcard makes the table total.\<close>

lemma catch_all: "([], v) \<in> set wild \<Longrightarrow> lookup name \<noteq> None"
  unfolding not_found by fastforce

end

text \<open>A table whose wildcards are sorted serves the most specific one.\<close>

locale sorted_host_table = host_table lookup exact wild
  for lookup :: "string \<Rightarrow> 'v option" and exact wild +
  assumes longest_first: "sorted_wrt (\<lambda>a b. length (fst b) \<le> length (fst a)) wild"
begin

lemma most_specific:
  assumes "exact name = None" "lookup name = Some v"
  shows "\<exists>p. (p, v) \<in> set wild \<and> ends_with p name \<and>
           (\<forall>(q, w) \<in> set wild. ends_with q name \<longrightarrow> length q \<le> length p)"
  using postfix_find_longest [OF longest_first] assms by (simp add: else_wild)

text \<open>With distinct wildcards the answer is determined by the set of wildcards.\<close>

lemma determined:
  assumes "exact name = None" "lookup name = Some v" "distinct (map fst wild)"
    and "(q, w) \<in> set wild" "ends_with q name"
    and "\<And>p u. (p, u) \<in> set wild \<Longrightarrow> ends_with p name \<Longrightarrow> length p \<le> length q"
  shows "v = w"
proof -
  obtain p where p: "(p, v) \<in> set wild" "ends_with p name"
    "\<And>q w. (q, w) \<in> set wild \<Longrightarrow> ends_with q name \<Longrightarrow> length q \<le> length p"
    using most_specific [OF assms(1,2)] by blast
  have "length p = length q" using p(3) [OF assms(4,5)] assms(6) [OF p(1,2)] by simp
  then have "p = q" using ends_with_same_length [OF p(2) assms(5)] by simp
  then show ?thesis using assms(3,4) p(1) by (metis eq_key_imp_eq_value)
qed

end

interpretation lookup_table: host_table "host_lookup fulls posts" "obj_get fulls" posts
  for fulls :: "'v obj" and posts
  by unfold_locales (simp_all add: host_lookup_def)

interpretation sorted_table: sorted_host_table
    "host_lookup fulls (sort_postfixes posts)" "obj_get fulls" "sort_postfixes posts"
  for fulls :: "'v obj" and posts
  by unfold_locales (simp add: sort_postfixes_sorted)

end
