(* ===== verification/Router_Http.thy ===== *)
theory Router_Http
  imports Backend_Selector Session Host_Match
begin

text \<open>
  \<open>src/modules/router-http.js\<close>: from the routes of a listener to a router of requests: hosts,
  the priority of the matches, their matchers, the fast path tables, and the pipeline
  of a rule (timeouts, retries, session persistence).

  \<open>algo.URLRouter\<close> is \<open>url\<close>: given its patterns and a path, the pattern it takes. \<open>RegExp\<close>
  is \<open>regex\<close>: no test for a pattern that does not compile. \<open>URL\<close> and \<open>os.path.join\<close>
  are \<open>query\<close> and \<open>join2\<close>. They are gathered in a record of the environment.
\<close>

subsection \<open>Environment and state\<close>

record http_env =
  he_url :: "string list \<Rightarrow> string \<Rightarrow> string option"
  he_regex :: "string \<Rightarrow> (string \<Rightarrow> bool) option"
  he_query :: "string \<Rightarrow> headers"
  he_join :: "string \<Rightarrow> string \<Rightarrow> string"

text \<open>The variables of a stream that matching sets.\<close>

record match_vars =
  mv_route :: "resource option"
  mv_rule :: "rule option"
  mv_base :: "string option"

definition no_vars :: match_vars where
  "no_vars = \<lparr>mv_route = None, mv_rule = None, mv_base = None\<rparr>"

text \<open>A row of the matches: the match, the selector of its rule, where it came from.\<close>

record 'sel entry =
  en_match :: route_match
  en_sel :: 'sel
  en_res :: resource
  en_rule :: rule
  en_prio :: string

text \<open>The constant \<open>USE_FAST_MATCH\<close>; the code keeps both ways of matching.\<close>

definition use_fast_match :: bool where
  "use_fast_match = True"

subsection \<open>Priority\<close>

definition len_of :: "'a list option \<Rightarrow> nat" where
  "len_of xs = (case xs of None \<Rightarrow> 0 | Some l \<Rightarrow> length l)"

definition method_truthy :: "js_method option \<Rightarrow> bool" where
  "method_truthy m =
     (case m of None \<Rightarrow> False | Some (MethodName s) \<Rightarrow> s \<noteq> [] | Some (MethodObject g) \<Rightarrow> True)"

definition pad3 :: "nat \<Rightarrow> string" where
  "pad3 n = pad_start 3 CHR ''0'' (nat_str n)"

definition path_ranks :: "path_match option \<Rightarrow> string \<times> string" where
  "path_ranks p =
     (case p of
        None \<Rightarrow> (''0'', ''000'')
      | Some pm \<Rightarrow>
          if pm_type pm = Some ''Exact'' then (''3'', ''000'')
          else if pm_type pm = Some ''PathPrefix'' then (''2'', pad3 (length (pm_value pm)))
          else if pm_type pm = Some ''RegularExpression'' then (''1'', pad3 (length (pm_value pm)))
          else (''0'', ''000''))"

definition get_match_priority :: "route_match \<Rightarrow> nat \<Rightarrow> string" where
  "get_match_priority m i =
     join_with ''/''
       [fst (path_ranks (rm_path m)), snd (path_ranks (rm_path m)),
        (if method_truthy (rm_method m) then ''1'' else ''0''),
        pad3 (len_of (rm_headers m)), pad3 (len_of (rm_params m)),
        pad_start 6 CHR ''0'' (nat_str i)]"

definition by_priority :: "'sel entry \<Rightarrow> 'sel entry \<Rightarrow> int" where
  "by_priority a b = (if str_less (en_prio b) (en_prio a) then -1 else 1)"

text \<open>Rows in the order of the configuration, numbered, then sorted.\<close>

fun set_priorities :: "nat \<Rightarrow> 'sel entry list \<Rightarrow> 'sel entry list" where
  "set_priorities i [] = []"
| "set_priorities i (e # es) =
     e\<lparr>en_prio := get_match_priority (en_match e) i\<rparr> # set_priorities (Suc i) es"

definition sort_entries :: "'sel entry list \<Rightarrow> 'sel entry list" where
  "sort_entries es = js_sort by_priority (set_priorities 0 es)"

definition rule_entries :: "rule \<times> 'sel \<times> resource \<Rightarrow> 'sel entry list" where
  "rule_entries r =
     (let (rl, sel, res) = r;
          row = (\<lambda>m. \<lparr>en_match = m, en_sel = sel, en_res = res, en_rule = rl, en_prio = []\<rparr>)
      in case ru_matches rl of None \<Rightarrow> [row no_match] | Some ms \<Rightarrow> map row ms)"

subsection \<open>Matchers\<close>

definition compile :: "http_env \<Rightarrow> string \<Rightarrow> js_error + (string \<Rightarrow> bool)" where
  "compile env re = (case he_regex env re of
      None \<Rightarrow> Inl (Thrown ''Invalid regular expression'') | Some f \<Rightarrow> Inr f)"

text \<open>A path matcher tells whether a path matches and the \<open>$basePath\<close> it sets.\<close>

type_synonym path_matcher = "string \<Rightarrow> bool \<times> string option"

definition base_of :: "string \<Rightarrow> string" where
  "base_of value =
     (let b = (if ends_with ''/'' value then butlast value else value) in if b = [] then ''/'' else b)"

definition make_path_matcher ::
    "bool \<Rightarrow> http_env \<Rightarrow> path_match option \<Rightarrow> js_error + path_matcher option" where
  "make_path_matcher fast env pm =
     (case pm of
        None \<Rightarrow> Inr None
      | Some m \<Rightarrow>
          (let type' = or_else (pm_type m) ''Exact''; value = pm_value m in
           if type' = ''Exact'' then
             (if fast then Inr None
              else Inr (Some (\<lambda>p. (he_url env [value] p \<noteq> None, None))))
           else if type' = ''PathPrefix'' then
             (let base = base_of value in
              if fast then Inr (Some (\<lambda>p. (True, Some base)))
              else Inr (Some (\<lambda>p. if he_url env [base, base @ ''/*''] p \<noteq> None then (True, Some base)
                                 else (False, None))))
           else if type' = ''RegularExpression'' then
             bind_res (compile env value) (\<lambda>f. Inr (Some (\<lambda>p. (f p, None))))
           else Inr (Some (\<lambda>p. (False, None)))))"

definition make_method_matcher :: "bool \<Rightarrow> js_method option \<Rightarrow> (string \<Rightarrow> bool) option" where
  "make_method_matcher fast m =
     (if fast \<or> \<not> method_truthy m then None else Some (\<lambda>s. m = Some (MethodName s)))"

definition item_value :: "headers \<Rightarrow> string \<Rightarrow> header_val" where
  "item_value ob k = (case obj_get ob k of None \<Rightarrow> One [] | Some v \<Rightarrow> v)"

definition make_object_matcher ::
    "http_env \<Rightarrow> item_match list option \<Rightarrow> js_error + (headers \<Rightarrow> bool) option" where
  "make_object_matcher env items =
     (case items of
        None \<Rightarrow> Inr None
      | Some is \<Rightarrow>
          if is = [] then Inr None
          else
            (let exact = map (\<lambda>i. (to_lower (im_name i), im_value i))
                   (filter (\<lambda>i. im_type i = Some ''Exact'' \<or> \<not> truthy (im_type i)) is)
             in bind_res (map_res (\<lambda>i. bind_res (compile env (im_value i))
                                        (\<lambda>f. Inr (to_lower (im_name i), f)))
                            (filter (\<lambda>i. im_type i = Some ''RegularExpression'') is))
                  (\<lambda>regex. Inr (Some (\<lambda>ob.
                     list_all (\<lambda>(k, v). One v = item_value ob k) exact \<and>
                     list_all (\<lambda>(k, f). f (header_text (item_value ob k))) regex)))))"

definition grpc_of :: "js_method \<Rightarrow> grpc_method" where
  "grpc_of m = (case m of MethodObject g \<Rightarrow> g
     | MethodName s \<Rightarrow> \<lparr>gm_type = None, gm_service = None, gm_method = None\<rparr>)"

text \<open>A field of the gRPC match that is missing or empty matches everything.\<close>

definition field_test :: "(string \<Rightarrow> string \<Rightarrow> bool) \<Rightarrow> string option \<Rightarrow> string \<Rightarrow> bool" where
  "field_test f v s = (if truthy v then f (the v) s else True)"

definition make_grpc_method_matcher ::
    "http_env \<Rightarrow> js_method option \<Rightarrow> js_error + (string \<Rightarrow> bool) option" where
  "make_grpc_method_matcher env m =
     (if \<not> method_truthy m then Inr None
      else
        (let g = grpc_of (the m); service = gm_service g; meth = gm_method g;
             type' = or_else (gm_type g) ''Exact'';
             on_path = (\<lambda>check path.
               if \<not> starts_with ''/'' path then False
               else (let s = split_on CHR ''/'' path;
                         sv = (if 1 < length s then s ! 1 else []);
                         mt = (if 2 < length s then s ! 2 else [])
                     in sv \<noteq> [] \<and> mt \<noteq> [] \<and> check sv mt))
         in if type' = ''Exact'' then
              Inr (Some (on_path (\<lambda>s m'. field_test (=) service s \<and> field_test (=) meth m')))
            else if type' = ''RegularExpression'' then
              bind_res (if truthy service then compile env (the service) else Inr (\<lambda>s. True)) (\<lambda>fs.
                bind_res (if truthy meth then compile env (the meth) else Inr (\<lambda>s. True)) (\<lambda>fm.
                  Inr (Some (on_path (\<lambda>s m'. fs s \<and> fm m')))))
            else Inr (Some (\<lambda>path. False))))"

subsection \<open>Match functions\<close>

type_synonym match_func = "head \<Rightarrow> match_vars \<Rightarrow> bool \<times> match_vars"

definition passes :: "('a \<Rightarrow> bool) option \<Rightarrow> 'a \<Rightarrow> bool" where
  "passes f x = (case f of None \<Rightarrow> True | Some g \<Rightarrow> g x)"

definition set_base :: "string option \<Rightarrow> match_vars \<Rightarrow> match_vars" where
  "set_base b mv = (case b of None \<Rightarrow> mv | Some x \<Rightarrow> mv\<lparr>mv_base := Some x\<rparr>)"

text \<open>The checks run in order; the path matcher sets \<open>$basePath\<close> before the later checks run.\<close>

definition http_match_func ::
    "http_env \<Rightarrow> (string \<Rightarrow> bool) option \<Rightarrow> path_matcher option \<Rightarrow> (headers \<Rightarrow> bool) option \<Rightarrow>
     (headers \<Rightarrow> bool) option \<Rightarrow> resource \<Rightarrow> rule \<Rightarrow> match_func" where
  "http_match_func env meth path hds params res rl h mv =
     (if \<not> passes meth (hd_method h) then (False, mv)
      else
        (let (ok, base) = (case path of None \<Rightarrow> (True, None) | Some f \<Rightarrow> f (hd_path h));
             mv1 = set_base base mv
         in if \<not> ok then (False, mv1)
            else if \<not> passes hds (hd_headers h) then (False, mv1)
            else if \<not> passes params (he_query env (hd_path h)) then (False, mv1)
            else (True, mv1\<lparr>mv_route := Some res, mv_rule := Some rl\<rparr>)))"

definition make_http_match :: "bool \<Rightarrow> http_env \<Rightarrow> 'sel entry \<Rightarrow> js_error + match_func" where
  "make_http_match fast env e =
     bind_res (make_path_matcher fast env (rm_path (en_match e))) (\<lambda>path.
       bind_res (make_object_matcher env (rm_headers (en_match e))) (\<lambda>hds.
         bind_res (make_object_matcher env (rm_params (en_match e))) (\<lambda>params.
           Inr (http_match_func env (make_method_matcher fast (rm_method (en_match e)))
                  path hds params (en_res e) (en_rule e)))))"

definition make_grpc_match :: "http_env \<Rightarrow> 'sel entry \<Rightarrow> js_error + match_func" where
  "make_grpc_match env e =
     bind_res (make_grpc_method_matcher env (rm_method (en_match e))) (\<lambda>meth.
       bind_res (make_object_matcher env (rm_headers (en_match e))) (\<lambda>hds.
         Inr (\<lambda>h mv. (passes meth (hd_path h) \<and> passes hds (hd_headers h), mv))))"


subsection \<open>Rule selectors\<close>

type_synonym 'sel row = "match_func \<times> 'sel \<times> route_match"

fun find_match :: "'sel row list \<Rightarrow> head \<Rightarrow> match_vars \<Rightarrow> 'sel row option \<times> match_vars" where
  "find_match [] h mv = (None, mv)"
| "find_match (r # rs) h mv =
     (let (ok, mv1) = fst r h mv in if ok then (Some r, mv1) else find_match rs h mv1)"

record 'sel rule_table =
  rt_fast :: bool
  rt_rows :: "'sel row list"
  rt_paths :: "'sel row list obj obj"
  rt_methods :: "'sel row list obj"
  rt_slow :: "'sel row list"

definition method_key :: "js_method option \<Rightarrow> string" where
  "method_key m =
     (case m of None \<Rightarrow> ''*''
      | Some (MethodName s) \<Rightarrow> if s = [] then ''*'' else s
      | Some (MethodObject g) \<Rightarrow> ''[object Object]'')"

definition path_key :: "http_env \<Rightarrow> route_match \<Rightarrow> string option" where
  "path_key env m =
     (case rm_path m of
        None \<Rightarrow> None
      | Some p \<Rightarrow>
          if pm_type p = Some ''Exact'' then Some (pm_value p)
          else if pm_type p = Some ''PathPrefix'' then Some (he_join env (pm_value p) ''*'')
          else None)"

text \<open>One row into the tables of the fast match.\<close>

definition file_row :: "http_env \<Rightarrow> 'sel row \<Rightarrow> 'sel rule_table \<Rightarrow> 'sel rule_table" where
  "file_row env r t =
     (let m = snd (snd r) in
      case path_key env m of
        Some p \<Rightarrow>
          t\<lparr>rt_paths := obj_set p
             (obj_push (method_key (rm_method m)) r
                (case obj_get (rt_paths t) p of None \<Rightarrow> [] | Some ms \<Rightarrow> ms)) (rt_paths t)\<rparr>
      | None \<Rightarrow>
          if method_truthy (rm_method m)
          then t\<lparr>rt_methods := obj_push (method_key (rm_method m)) r (rt_methods t)\<rparr>
          else t\<lparr>rt_slow := rt_slow t @ [r]\<rparr>)"

definition file_rows :: "http_env \<Rightarrow> 'sel row list \<Rightarrow> 'sel rule_table \<Rightarrow> 'sel rule_table" where
  "file_rows env rs t = foldl (\<lambda>t r. file_row env r t) t rs"

definition route_rules ::
    "(rule \<Rightarrow> bool \<Rightarrow> js_error + 'sel) \<Rightarrow> bool \<Rightarrow> resource list \<Rightarrow>
     js_error + (rule \<times> 'sel \<times> resource) list" where
  "route_rules mk http2 routes =
     bind_res (map_res (\<lambda>res.
         case Option.bind (r_spec res) sp_rules of
           None \<Rightarrow> Inl TypeError
         | Some rules \<Rightarrow> map_res (\<lambda>rl. bind_res (mk rl http2) (\<lambda>s. Inr (rl, s, res))) rules) routes)
       (\<lambda>rss. Inr (concat rss))"

definition make_row :: "bool \<Rightarrow> http_env \<Rightarrow> string \<Rightarrow> 'sel entry \<Rightarrow> js_error + 'sel row" where
  "make_row fast env kind e =
     bind_res (if kind = ''HTTPRoute'' then make_http_match fast env e else make_grpc_match env e)
       (\<lambda>f. Inr (f, en_sel e, en_match e))"

definition make_rule_selector ::
    "bool \<Rightarrow> http_env \<Rightarrow> (rule \<Rightarrow> bool \<Rightarrow> js_error + 'sel) \<Rightarrow> resource list \<Rightarrow>
     js_error + 'sel rule_table" where
  "make_rule_selector fast env mk routes =
     (let kind = Option.bind (if routes = [] then None else Some (hd routes)) r_kind in
      bind_res (route_rules mk (kind = Some ''GRPCRoute'') routes) (\<lambda>rules.
        let es = sort_entries (concat (map rule_entries rules)) in
        if kind \<noteq> Some ''HTTPRoute'' \<and> kind \<noteq> Some ''GRPCRoute''
        then Inl (Thrown (''route-http: unknown resource kind: '' @
                (case kind of None \<Rightarrow> ''undefined'' | Some k \<Rightarrow> k)))
        else
          bind_res (map_res (make_row fast env (the kind)) es) (\<lambda>rows.
            let t = \<lparr>rt_fast = (fast \<and> kind = Some ''HTTPRoute''), rt_rows = rows, rt_paths = [],
                     rt_methods = [], rt_slow = []\<rparr>
            in Inr (if kind = Some ''HTTPRoute'' then file_rows env rows t
                    else t\<lparr>rt_slow := rows\<rparr>))))"

text \<open>
  The three places of the fast match: the most specific path pattern, the method, the rest.
  Only the rows of one method are looked at, and only of one pattern.
\<close>

definition path_checks :: "http_env \<Rightarrow> 'sel rule_table \<Rightarrow> head \<Rightarrow> 'sel row list option" where
  "path_checks env t h =
     (case he_url env (map fst (rt_paths t)) (hd_path h) of
        None \<Rightarrow> None
      | Some p \<Rightarrow>
          (case obj_get (rt_paths t) p of
             None \<Rightarrow> None
           | Some ms \<Rightarrow>
               (case obj_get ms (hd_method h) of Some rs \<Rightarrow> Some rs | None \<Rightarrow> obj_get ms ''*'')))"

definition find_in :: "'sel row list option \<Rightarrow> head \<Rightarrow> match_vars \<Rightarrow> 'sel row option \<times> match_vars" where
  "find_in rs h mv = (case rs of None \<Rightarrow> (None, mv) | Some l \<Rightarrow> find_match l h mv)"

definition select_row ::
    "http_env \<Rightarrow> 'sel rule_table \<Rightarrow> head \<Rightarrow> match_vars \<Rightarrow> 'sel row option \<times> match_vars" where
  "select_row env t h mv =
     (if rt_fast t then
        (case find_in (path_checks env t h) h mv of
           (Some r, mv1) \<Rightarrow> (Some r, mv1)
         | (None, mv1) \<Rightarrow>
             (case find_in (obj_get (rt_methods t) (hd_method h)) h mv1 of
                (Some r, mv2) \<Rightarrow> (Some r, mv2)
              | (None, mv2) \<Rightarrow> find_match (rt_slow t) h mv2))
      else find_match (rt_rows t) h mv)"

subsection \<open>Hosts\<close>

text \<open>The routes by host name: \<open>hostFullnames\<close> and \<open>hostPostfixes\<close>.\<close>

definition add_host ::
    "resource \<Rightarrow> string \<Rightarrow> resource list obj \<times> resource list obj \<Rightarrow>
     resource list obj \<times> resource list obj" where
  "add_host r name tabs =
     (let n = to_lower (trim name) in
      if starts_with ''*'' n then (fst tabs, obj_push (tl n) r (snd tabs))
      else (obj_push n r (fst tabs), snd tabs))"

definition route_hosts :: "resource \<Rightarrow> js_error + string list" where
  "route_hosts r =
     (case r_spec r of
        None \<Rightarrow> Inl TypeError
      | Some sp \<Rightarrow> Inr (case sp_hostnames sp of None \<Rightarrow> [''*''] | Some hs \<Rightarrow> hs))"

fun host_tables ::
    "resource list \<Rightarrow> resource list obj \<times> resource list obj \<Rightarrow>
     js_error + resource list obj \<times> resource list obj" where
  "host_tables [] tabs = Inr tabs"
| "host_tables (r # rs) tabs =
     bind_res (route_hosts r) (\<lambda>hs. host_tables rs (foldl (\<lambda>t n. add_host r n t) tabs hs))"

record 'sel router =
  ro_fulls :: "'sel rule_table obj"
  ro_posts :: "(string \<times> 'sel rule_table) list"

definition make_router ::
    "http_env \<Rightarrow> (rule \<Rightarrow> bool \<Rightarrow> js_error + 'sel) \<Rightarrow> resource list \<Rightarrow> js_error + 'sel router" where
  "make_router env mk routes =
     bind_res (host_tables routes ([], [])) (\<lambda>(fulls, posts).
       let mkEntry = (\<lambda>(k, rs). bind_res (make_rule_selector use_fast_match env mk rs) (\<lambda>t. Inr (k, t)))
       in bind_res (map_res mkEntry fulls) (\<lambda>fs.
            bind_res (map_res mkEntry (sort_postfixes posts)) (\<lambda>ps.
              Inr \<lparr>ro_fulls = fs, ro_posts = ps\<rparr>)))"

text \<open>The name that is looked up: lower case, without what follows the last colon.\<close>

definition host_name :: "string \<Rightarrow> string" where
  "host_name host =
     (let s = to_lower host in case last_index_of CHR '':'' s of None \<Rightarrow> s | Some i \<Rightarrow> take i s)"

definition route_table :: "'sel router \<Rightarrow> string \<Rightarrow> 'sel rule_table option" where
  "route_table ro name = host_lookup (ro_fulls ro) (ro_posts ro) name"

text \<open>
  The router function: the host that is kept as \<open>$hostname\<close>, the selector of the row that
  matches, and the stream's variables. A repeated \<open>host\<close> header is an array, on which
  \<open>toLowerCase\<close> raises.
\<close>

definition route_request ::
    "http_env \<Rightarrow> 'sel router \<Rightarrow> head \<Rightarrow> match_vars \<Rightarrow>
     js_error + header_val option \<times> 'sel option \<times> match_vars" where
  "route_request env ro h mv =
     (case obj_get (hd_headers h) ''host'' of
        None \<Rightarrow> Inr (None, None, mv)
      | Some (Many vs) \<Rightarrow> Inl TypeError
      | Some (One host) \<Rightarrow>
          if host = [] then Inr (Some (One host), None, mv)
          else
            (let name = host_name host in
             case route_table ro name of
               None \<Rightarrow> Inr (Some (One name), None, mv)
             | Some t \<Rightarrow>
                 (let (row, mv1) = select_row env t h mv
                  in Inr (Some (One name), map_option (\<lambda>r. fst (snd r)) row, mv1))))"


subsection \<open>Pipelines of a rule\<close>

text \<open>
  The stages in front of a backend. A timeout races the rest of the chain against a timer
  and answers 504; a retry repeats the rest of the chain.
\<close>

datatype ('f, 'b) stage = FilterStage 'f | TimeoutStage rat | RetryStage retry_conf | Forward 'b

text \<open>A response, or stages; with session persistence the response's head is preserved.\<close>

datatype ('f, 'b) rule_pipeline = Respond nat | Chain "('f, 'b) stage list" "session_conf option"

text \<open>\<open>Number.parseFloat(t) || Infinity\<close>, kept when it is positive and finite.\<close>

definition finite_timeout :: "num_js \<Rightarrow> rat option" where
  "finite_timeout v = (case v of None \<Rightarrow> None | Some x \<Rightarrow> if 0 < x then Some x else None)"

definition make_rule_balancer ::
    "(string \<Rightarrow> backend_ref option \<Rightarrow> resource \<Rightarrow> bool \<Rightarrow> js_error + 'b) \<Rightarrow> rule \<Rightarrow> bool \<Rightarrow>
     ('f, ('f, 'b) rule_pipeline) balancer_maker" where
  "make_rule_balancer make_balancer rl http2 ref res filters protocol =
     (if res = None \<and> filters = [] then Inr (Respond 500)
      else
        bind_res (case res of
                    None \<Rightarrow> Inr []
                  | Some r \<Rightarrow> bind_res (make_balancer protocol ref r http2) (\<lambda>b. Inr [Forward b]))
          (\<lambda>fwd.
             let retry = (case ru_retry rl of None \<Rightarrow> [] | Some rc \<Rightarrow> [RetryStage rc]);
                 back = (case Option.bind (ru_timeouts rl) (\<lambda>t. finite_timeout (to_backend t)) of
                           None \<Rightarrow> [] | Some x \<Rightarrow> [TimeoutStage x]);
                 front = (case Option.bind (ru_timeouts rl) (\<lambda>t. finite_timeout (to_request t)) of
                            None \<Rightarrow> [] | Some x \<Rightarrow> [TimeoutStage x]);
                 fwd' = (if protocol = ''http'' then back @ retry @ fwd else fwd)
             in Inr (Chain (front @ map FilterStage filters @ fwd') (ru_session rl))))"

text \<open>The selector of a rule: its targets, and the session persistence that gives the hint.\<close>

record ('f, 'b) rule_sel =
  rs_targets :: "('f, 'b) rule_pipeline selector"
  rs_session :: "session_conf option"

definition make_backend_selector_for_rule ::
    "'f scripts \<Rightarrow> ('f \<Rightarrow> string option) \<Rightarrow> (string \<Rightarrow> string \<Rightarrow> resource option) \<Rightarrow> listener \<Rightarrow>
     (string \<Rightarrow> backend_ref option \<Rightarrow> resource \<Rightarrow> bool \<Rightarrow> js_error + 'b) \<Rightarrow> rule \<Rightarrow> bool \<Rightarrow>
     js_error + ('f, 'b) rule_sel" where
  "make_backend_selector_for_rule scripts out named l make_balancer rl http2 =
     bind_res (make_backend_selector scripts out named ''http'' (Some l) (Some rl)
                 (make_rule_balancer make_balancer rl http2))
       (\<lambda>sel. Inr \<lparr>rs_targets = sel, rs_session = ru_session rl\<rparr>)"

text \<open>\<open>selector(restoreSession(head))\<close>, or \<open>selector()\<close>.\<close>

definition pick_target ::
    "('c \<Rightarrow> header_val option \<Rightarrow> 's option) \<Rightarrow>
     (('f, 'b) rule_pipeline target list \<Rightarrow> 's option \<Rightarrow> ('f, 'b) rule_pipeline target option) \<Rightarrow>
     ('f, 'b) rule_sel \<Rightarrow> head \<Rightarrow> 'c session \<Rightarrow>
     js_error + ('f, 'b) rule_pipeline target option \<times> 'c session" where
  "pick_target get alloc rs h st =
     (case rs_session rs of
        None \<Rightarrow> Inr (select_target alloc (rs_targets rs) None, st)
      | Some cfg \<Rightarrow>
          bind_res (restore get cfg h st) (\<lambda>(hint, st').
            Inr (select_target alloc (rs_targets rs) hint, st')))"

text \<open>Where \<open>handleRequest\<close> sends the request.\<close>

definition answer :: "('f, 'b) rule_pipeline target option \<Rightarrow> ('f, 'b) rule_pipeline" where
  "answer sel = (case sel of None \<Rightarrow> Respond 404 | Some t \<Rightarrow> tg_pipeline t)"

subsection \<open>Retries\<close>

text \<open>The statuses of one code: \<open>5xx\<close> is a hundred of them.\<close>

definition code_statuses :: "string \<Rightarrow> int list" where
  "code_statuses code =
     (if drop 1 code = ''xx'' then
        (case parse_int (take 1 code @ ''00'') of
           None \<Rightarrow> [] | Some base \<Rightarrow> map (\<lambda>i. base + int i) [0..<100])
      else (case parse_int code of None \<Rightarrow> [] | Some n \<Rightarrow> [n]))"

definition retry_codes :: "retry_conf \<Rightarrow> int list" where
  "retry_codes rc =
     concat (map code_statuses (case rc_codes rc of None \<Rightarrow> [''5xx''] | Some cs \<Rightarrow> cs))"

definition need_retry :: "retry_conf \<Rightarrow> nat \<Rightarrow> bool" where
  "need_retry rc status \<longleftrightarrow> int status \<in> set (retry_codes rc)"

text \<open>\<open>++$retryCounter < retryConfig.attempts\<close>, false when there is no number of attempts.\<close>

definition below :: "nat \<Rightarrow> num_js \<Rightarrow> bool" where
  "below n v = (case v of None \<Rightarrow> False | Some x \<Rightarrow> of_nat n < x)"

datatype verdict = RetryIt | Conclude

text \<open>
  What the head of a response does: the verdict, the counter, and the entry for
  \<open>$ctx.retries\<close> (whether the retry succeeded).
\<close>

definition retry_step :: "retry_conf \<Rightarrow> nat \<Rightarrow> nat \<Rightarrow> verdict \<times> nat \<times> bool list" where
  "retry_step rc status counter =
     (let needs = need_retry rc status;
          note' = (if 0 < counter then [\<not> needs] else [])
      in if needs then
           (if below (Suc counter) (rc_attempts rc) then (RetryIt, Suc counter, note')
            else (Conclude, 0, note'))
         else (Conclude, counter, note'))"

text \<open>The pause before a repetition, in seconds.\<close>

definition backoff :: "retry_conf \<Rightarrow> nat \<Rightarrow> rat option" where
  "backoff rc counter = (if 0 < counter then Some (rc_backoff rc * 2 ^ (counter - 1)) else None)"

text \<open>
  A request against a backend that answers with the given statuses, one after the other: the
  index of the response that goes to the client, the notes, the pauses. \<open>None\<close> when the
  statuses run out before a verdict.
\<close>

fun run_retries ::
    "retry_conf \<Rightarrow> nat list \<Rightarrow> nat \<Rightarrow> (nat \<times> bool list \<times> rat list) option" where
  "run_retries rc [] counter = None"
| "run_retries rc (s # ss) counter =
     (case retry_step rc s counter of
        (Conclude, c, notes) \<Rightarrow> Some (0, notes, [])
      | (RetryIt, c, notes) \<Rightarrow>
          map_option (\<lambda>(i, ns, ps). (Suc i, notes @ ns, the (backoff rc c) # ps))
            (run_retries rc ss c))"


subsection \<open>The order of priorities\<close>

text \<open>The ranks as numbers: path type, path length, method, headers, parameters, position.\<close>

definition path_rank :: "path_match option \<Rightarrow> nat \<times> nat" where
  "path_rank p =
     (case p of
        None \<Rightarrow> (0, 0)
      | Some pm \<Rightarrow>
          if pm_type pm = Some ''Exact'' then (3, 0)
          else if pm_type pm = Some ''PathPrefix'' then (2, length (pm_value pm))
          else if pm_type pm = Some ''RegularExpression'' then (1, length (pm_value pm))
          else (0, 0))"

definition ranks :: "route_match \<Rightarrow> nat \<Rightarrow> nat list" where
  "ranks m i =
     [fst (path_rank (rm_path m)), snd (path_rank (rm_path m)),
      (if method_truthy (rm_method m) then 1 else 0), len_of (rm_headers m), len_of (rm_params m), i]"

fun lex_less :: "nat list \<Rightarrow> nat list \<Rightarrow> bool" where
  "lex_less (x # xs) (y # ys) = (x < y \<or> (x = y \<and> lex_less xs ys))"
| "lex_less _ _ = False"

text \<open>What fits the padding of the ranks.\<close>

definition fits :: "route_match \<Rightarrow> nat \<Rightarrow> bool" where
  "fits m i \<longleftrightarrow> (\<forall>p. rm_path m = Some p \<longrightarrow> length (pm_value p) < 1000) \<and>
     len_of (rm_headers m) < 1000 \<and> len_of (rm_params m) < 1000 \<and> i < 1000000"

lemma pad3_digits: "n < 1000 \<Longrightarrow> pad3 n = digits_fixed 3 n"
  using nat_str_digits [of n 3] by (simp add: pad3_def)

lemma path_rank_bounds:
  "fits m i \<Longrightarrow> fst (path_rank (rm_path m)) < 10 \<and> snd (path_rank (rm_path m)) < 1000"
  by (auto simp: fits_def path_rank_def split: option.splits)

lemma path_ranks_digits:
  assumes "fits m i"
  shows "path_ranks (rm_path m) =
     (digits_fixed 1 (fst (path_rank (rm_path m))), digits_fixed 3 (snd (path_rank (rm_path m))))"
proof -
  have z: "digits_fixed 3 0 = ''000''" by (simp add: digits_fixed_0 numeral_3_eq_3)
  have one: "digits_fixed 1 k = [digit_char (k mod 10)]" for k
    using digits_fixed.simps(2) [of 0 k] by simp
  show ?thesis
    using assms
    by (auto simp: fits_def path_ranks_def path_rank_def pad3_digits z one digit_char_def
        split: option.splits)
qed

lemma priority_digits:
  assumes "fits m i"
  shows "get_match_priority m i =
     digits_fixed 1 (ranks m i ! 0) @ ''/'' @ digits_fixed 3 (ranks m i ! 1) @ ''/'' @
     digits_fixed 1 (ranks m i ! 2) @ ''/'' @ digits_fixed 3 (ranks m i ! 3) @ ''/'' @
     digits_fixed 3 (ranks m i ! 4) @ ''/'' @ digits_fixed 6 (ranks m i ! 5)"
proof -
  have one: "digits_fixed 1 k = [digit_char (k mod 10)]" for k
    using digits_fixed.simps(2) [of 0 k] by simp
  have "pad_start 6 CHR ''0'' (nat_str i) = digits_fixed 6 i"
    using nat_str_digits [of i 6] assms by (simp add: fits_def)
  then show ?thesis
    using assms
    unfolding get_match_priority_def path_ranks_digits [OF assms] ranks_def
    by (simp add: fits_def pad3_digits one digit_char_def)
qed

lemma str_less_slash:
  "length a = length b \<Longrightarrow>
   str_less (a @ ''/'' @ x) (b @ ''/'' @ y) = (str_less a b \<or> (a = b \<and> str_less x y))"
  by (simp add: str_less_append_fixed)

lemma digits_fixed_eq:
  "a < 10 ^ w \<Longrightarrow> b < 10 ^ w \<Longrightarrow> (digits_fixed w a = digits_fixed w b) = (a = b)"
  using digits_fixed_inj by blast

lemma priority_less:
  assumes "fits m i" "fits n j"
  shows "str_less (get_match_priority m i) (get_match_priority n j) = lex_less (ranks m i) (ranks n j)"
proof -
  have b: "ranks k l ! 0 < 10 ^ 1 \<and> ranks k l ! 1 < 10 ^ 3 \<and> ranks k l ! 2 < 10 ^ 1 \<and>
      ranks k l ! 3 < 10 ^ 3 \<and> ranks k l ! 4 < 10 ^ 3 \<and> ranks k l ! 5 < 10 ^ 6"
    if "fits k l" for k l
    using that path_rank_bounds [OF that] by (simp add: ranks_def fits_def)
  have l: "lex_less (ranks m i) (ranks n j) =
      (ranks m i ! 0 < ranks n j ! 0 \<or> (ranks m i ! 0 = ranks n j ! 0 \<and>
      (ranks m i ! 1 < ranks n j ! 1 \<or> (ranks m i ! 1 = ranks n j ! 1 \<and>
      (ranks m i ! 2 < ranks n j ! 2 \<or> (ranks m i ! 2 = ranks n j ! 2 \<and>
      (ranks m i ! 3 < ranks n j ! 3 \<or> (ranks m i ! 3 = ranks n j ! 3 \<and>
      (ranks m i ! 4 < ranks n j ! 4 \<or> (ranks m i ! 4 = ranks n j ! 4 \<and>
       ranks m i ! 5 < ranks n j ! 5))))))))))"
    by (simp add: ranks_def)
  show ?thesis
    unfolding priority_digits [OF assms(1)] priority_digits [OF assms(2)] l
    using b [OF assms(1)] b [OF assms(2)]
    by (simp only: str_less_slash length_digits_fixed digits_fixed_eq str_less_digits)
qed


lemma lex_linear: "length xs = length ys \<Longrightarrow> xs = ys \<or> lex_less xs ys \<or> lex_less ys xs"
  by (induction xs ys rule: list_induct2) auto

lemma set_priorities_map:
  "set_priorities k es =
     map (\<lambda>i. (es ! i)\<lparr>en_prio := get_match_priority (en_match (es ! i)) (k + i)\<rparr>) [0..<length es]"
proof (induction es arbitrary: k)
  case (Cons e es)
  have "[0..<length (e # es)] = 0 # map Suc [0..<length es]"
    by (simp add: map_Suc_upt upt_conv_Cons del: upt_Suc)
  then show ?case by (simp add: Cons.IH del: upt_Suc)
qed simp

text \<open>C12: The matches of a host are tried in the order of their ranks compared as numbers: path
  type (exact, prefix, regular expression, none), path length, method, number of headers,
  number of parameters, and position. The code compares padded decimal text, which agrees as
  long as lengths stay under 1000 and positions under a million. Of two matches that are equal
  in everything else the later one in the configuration comes first.\<close>

theorem matches_in_rank_order:
  assumes "\<forall>i < length es. fits (en_match (es ! i)) i"
  shows "\<exists>is. distinct is \<and> set is = {..<length es} \<and>
           map en_match (sort_entries es) = map (\<lambda>i. en_match (es ! i)) is \<and>
           map en_sel (sort_entries es) = map (\<lambda>i. en_sel (es ! i)) is \<and>
           sorted_wrt (\<lambda>i j. lex_less (ranks (en_match (es ! j)) j) (ranks (en_match (es ! i)) i)) is"
proof -
  let ?f = "\<lambda>i. (es ! i)\<lparr>en_prio := get_match_priority (en_match (es ! i)) i\<rparr>"
  let ?r = "\<lambda>i. ranks (en_match (es ! i)) i"
  let ?cmp = "\<lambda>i j. by_priority (?f i) (?f j)"
  let ?is = "js_sort ?cmp [0..<length es]"
  have s: "sort_entries es = map ?f ?is"
    by (simp add: sort_entries_def set_priorities_map js_sort_map)
  have cmp: "?cmp i j \<le> 0 \<longleftrightarrow> str_less (en_prio (?f j)) (en_prio (?f i))" for i j
    by (simp add: by_priority_def)
  have rank: "?cmp i j \<le> 0 \<longleftrightarrow> lex_less (?r j) (?r i)" if "i < length es" "j < length es" for i j
    unfolding cmp using priority_less assms that by simp
  have diff: "lex_less (?r i) (?r j) \<or> lex_less (?r j) (?r i)" if "i \<noteq> j" for i j
    using lex_linear [of "?r i" "?r j"] that by (auto simp: ranks_def)
  have "sorted_wrt (\<lambda>i j. ?cmp i j \<le> 0) ?is"
  proof (rule js_sort_sorted)
    show "?cmp x z \<le> 0" if "?cmp x y \<le> 0" "?cmp y z \<le> 0" for x y z
      using that unfolding cmp by (blast intro: str_less_trans)
    show "sorted_wrt (\<lambda>x y. ?cmp x y \<le> 0 \<or> ?cmp y x \<le> 0) [0..<length es]"
      unfolding sorted_wrt_iff_nth_less using rank diff by simp
  qed
  then have "sorted_wrt (\<lambda>i j. lex_less (?r j) (?r i)) ?is"
    by (rule sorted_wrt_mono_rel [rotated]) (use rank in simp)
  moreover have "distinct ?is" "set ?is = {..<length es}"
    by (simp_all add: distinct_js_sort atLeast0LessThan)
  ultimately show ?thesis
    by (intro exI [of _ ?is]) (simp add: s)
qed

definition ex_match :: "string \<Rightarrow> string \<Rightarrow> route_match" where
  "ex_match ty v = no_match\<lparr>rm_path := Some \<lparr>pm_type = Some ty, pm_value = v\<rparr>\<rparr>"

definition ex_entry :: "nat \<Rightarrow> route_match \<Rightarrow> nat entry" where
  "ex_entry k m = \<lparr>en_match = m, en_sel = k,
     en_res = \<lparr>r_obj = 0, r_kind = Some ''HTTPRoute'', r_name = None, r_spec = None\<rparr>,
     en_rule = no_rule, en_prio = []\<rparr>"

lemma matches_in_rank_order_witness:
  "\<exists>is. distinct is \<and> set is = {..<2} \<and>
     map en_sel (sort_entries [ex_entry 0 (ex_match ''PathPrefix'' ''/''), ex_entry 1 (ex_match ''Exact'' ''/a'')])
       = map (\<lambda>i. en_sel ([ex_entry 0 (ex_match ''PathPrefix'' ''/''), ex_entry 1 (ex_match ''Exact'' ''/a'')] ! i)) is"
proof -
  let ?es = "[ex_entry 0 (ex_match ''PathPrefix'' ''/''), ex_entry 1 (ex_match ''Exact'' ''/a'')]"
  have "\<forall>i < length ?es. fits (en_match (?es ! i)) i"
    by (auto simp: fits_def ex_entry_def ex_match_def no_match_def len_of_def
        numeral_2_eq_2 less_Suc_eq)
  from matches_in_rank_order [OF this] show ?thesis by (auto simp: numeral_2_eq_2)
qed


subsection \<open>The matchers against what they mean\<close>

definition item_pass :: "http_env \<Rightarrow> headers \<Rightarrow> item_match \<Rightarrow> bool" where
  "item_pass env ob i =
     (if im_type i = Some ''Exact'' \<or> \<not> truthy (im_type i) then
        One (im_value i) = item_value ob (to_lower (im_name i))
      else if im_type i = Some ''RegularExpression'' then
        (case he_regex env (im_value i) of
           None \<Rightarrow> False | Some f \<Rightarrow> f (header_text (item_value ob (to_lower (im_name i)))))
      else True)"

definition items_pass :: "http_env \<Rightarrow> item_match list option \<Rightarrow> headers \<Rightarrow> bool" where
  "items_pass env items ob = list_all (item_pass env ob) (case items of None \<Rightarrow> [] | Some is \<Rightarrow> is)"

lemma object_matcher:
  assumes "make_object_matcher env items = Inr f"
  shows "passes f ob = items_pass env items ob"
proof (cases items)
  case None
  then show ?thesis using assms by (auto simp: make_object_matcher_def passes_def items_pass_def)
next
  case (Some its)
  show ?thesis
  proof (cases "its = []")
    case True
    then show ?thesis using assms Some
      by (auto simp: make_object_matcher_def passes_def items_pass_def)
  next
    case False
    let ?P = "\<lambda>i. im_type i = Some ''Exact'' \<or> \<not> truthy (im_type i)"
    let ?Q = "\<lambda>i. im_type i = Some ''RegularExpression''"
    let ?g = "\<lambda>i. bind_res (compile env (im_value i)) (\<lambda>f. Inr (to_lower (im_name i), f))"
    obtain regex where r: "map_res ?g (filter ?Q its) = Inr regex"
      and f: "f = Some (\<lambda>ob.
                 list_all (\<lambda>(k, v). One v = item_value ob k)
                   (map (\<lambda>i. (to_lower (im_name i), im_value i)) (filter ?P its)) \<and>
                 list_all (\<lambda>(k, f). f (header_text (item_value ob k))) regex)"
      using assms Some False by (auto simp: make_object_matcher_def bind_res_Inr_iff)
    have "passes f ob = (list_all (\<lambda>i. One (im_value i) = item_value ob (to_lower (im_name i))) (filter ?P its) \<and>
        list_all (\<lambda>i. \<exists>y. ?g i = Inr y \<and> (case y of (k, f) \<Rightarrow> f (header_text (item_value ob k)))) (filter ?Q its))"
      unfolding f passes_def option.case map_res_list_all [OF r]
      by (simp add: list.pred_map o_def case_prod_beta)
    also have "\<dots> = list_all (item_pass env ob) its"
      unfolding list_all_filters
      by (rule arg_cong [of _ _ "\<lambda>P. list_all P its"])
        (auto simp: item_pass_def compile_def fun_eq_iff split: option.splits)
    finally show ?thesis by (simp add: items_pass_def Some)
  qed
qed

text \<open>What a row of an HTTPRoute still tests once the tables have taken path and method.\<close>

definition path_test :: "http_env \<Rightarrow> path_match option \<Rightarrow> string \<Rightarrow> bool" where
  "path_test env pm p =
     (case pm of
        None \<Rightarrow> True
      | Some m \<Rightarrow>
          if or_else (pm_type m) ''Exact'' \<in> {''Exact'', ''PathPrefix''} then True
          else if or_else (pm_type m) ''Exact'' = ''RegularExpression'' then
            (case he_regex env (pm_value m) of None \<Rightarrow> False | Some f \<Rightarrow> f p)
          else False)"

definition row_test :: "http_env \<Rightarrow> route_match \<Rightarrow> head \<Rightarrow> bool" where
  "row_test env m h \<longleftrightarrow>
     path_test env (rm_path m) (hd_path h) \<and> items_pass env (rm_headers m) (hd_headers h) \<and>
     items_pass env (rm_params m) (he_query env (hd_path h))"

lemma path_matcher_fast:
  "make_path_matcher True env pm = Inr f \<Longrightarrow>
   (case f of None \<Rightarrow> True | Some g \<Rightarrow> fst (g p)) = path_test env pm p"
  by (auto simp: make_path_matcher_def path_test_def compile_def Let_def bind_res_Inr_iff
      split: option.splits if_splits)

lemma http_match_fast:
  assumes "make_http_match True env e = Inr f"
  shows "fst (f h mv) = row_test env (en_match e) h"
    and "fst (f h mv) \<Longrightarrow> mv_rule (snd (f h mv)) = Some (en_rule e) \<and> mv_route (snd (f h mv)) = Some (en_res e)"
proof -
  obtain path hds params where m:
    "make_path_matcher True env (rm_path (en_match e)) = Inr path"
    "make_object_matcher env (rm_headers (en_match e)) = Inr hds"
    "make_object_matcher env (rm_params (en_match e)) = Inr params"
    and f: "f = http_match_func env None path hds params (en_res e) (en_rule e)"
    using assms by (auto simp: make_http_match_def bind_res_Inr_iff make_method_matcher_def)
  show "fst (f h mv) = row_test env (en_match e) h"
    unfolding row_test_def f path_matcher_fast [OF m(1), symmetric]
      object_matcher [OF m(2), symmetric] object_matcher [OF m(3), symmetric]
    by (auto simp: http_match_func_def passes_def [of None] Let_def split: option.splits prod.splits)
  show "fst (f h mv) \<Longrightarrow> mv_rule (snd (f h mv)) = Some (en_rule e) \<and> mv_route (snd (f h mv)) = Some (en_res e)"
    unfolding f by (auto simp: http_match_func_def Let_def split: if_splits prod.splits)
qed

subsection \<open>The tables of the fast match\<close>

definition path_rows :: "'sel rule_table \<Rightarrow> string \<Rightarrow> string \<Rightarrow> 'sel row list" where
  "path_rows t p k =
     (case obj_get (rt_paths t) p of
        None \<Rightarrow> []
      | Some ms \<Rightarrow> (case obj_get ms k of None \<Rightarrow> [] | Some rs \<Rightarrow> rs))"

definition method_rows :: "'sel rule_table \<Rightarrow> string \<Rightarrow> 'sel row list" where
  "method_rows t k = (case obj_get (rt_methods t) k of None \<Rightarrow> [] | Some rs \<Rightarrow> rs)"

abbreviation row_match :: "'sel row \<Rightarrow> route_match" where
  "row_match r \<equiv> snd (snd r)"

lemma path_rows_file:
  "path_rows (file_row env r t) p k = path_rows t p k @
     (if path_key env (row_match r) = Some p \<and> method_key (rm_method (row_match r)) = k then [r] else [])"
  by (auto simp: path_rows_def file_row_def Let_def split: option.splits)

lemma method_rows_file:
  "method_rows (file_row env r t) k = method_rows t k @
     (if path_key env (row_match r) = None \<and> method_truthy (rm_method (row_match r)) \<and>
         method_key (rm_method (row_match r)) = k then [r] else [])"
  by (auto simp: method_rows_def file_row_def Let_def split: option.splits)

lemma slow_rows_file:
  "rt_slow (file_row env r t) = rt_slow t @
     (if path_key env (row_match r) = None \<and> \<not> method_truthy (rm_method (row_match r)) then [r] else [])"
  by (auto simp: file_row_def Let_def split: option.splits)

lemma file_rows_tables:
  "path_rows (file_rows env rs t) p k = path_rows t p k @
     filter (\<lambda>r. path_key env (row_match r) = Some p \<and> method_key (rm_method (row_match r)) = k) rs"
  "method_rows (file_rows env rs t) k = method_rows t k @
     filter (\<lambda>r. path_key env (row_match r) = None \<and> method_truthy (rm_method (row_match r)) \<and>
       method_key (rm_method (row_match r)) = k) rs"
  "rt_slow (file_rows env rs t) = rt_slow t @
     filter (\<lambda>r. path_key env (row_match r) = None \<and> \<not> method_truthy (rm_method (row_match r))) rs"
  by (induction rs arbitrary: t)
    (simp_all add: file_rows_def path_rows_file method_rows_file slow_rows_file)

lemma file_rows_kept:
  "rt_fast (file_rows env rs t) = rt_fast t" "rt_rows (file_rows env rs t) = rt_rows t"
  by (induction rs arbitrary: t)
    (simp_all add: file_rows_def file_row_def Let_def split: option.splits)


lemma find_match_append:
  "find_match (xs @ ys) h mv =
     (case find_match xs h mv of (Some r, mv1) \<Rightarrow> (Some r, mv1) | (None, mv1) \<Rightarrow> find_match ys h mv1)"
  by (induction xs arbitrary: mv) (auto split: prod.splits)

lemma find_in_list: "find_in rs h mv = find_match (case rs of None \<Rightarrow> [] | Some l \<Rightarrow> l) h mv"
  by (simp add: find_in_def split: option.splits)

text \<open>The rows that are tried for a request, in order.\<close>

definition candidates :: "http_env \<Rightarrow> 'sel rule_table \<Rightarrow> head \<Rightarrow> 'sel row list" where
  "candidates env t h =
     (if rt_fast t then
        (case path_checks env t h of None \<Rightarrow> [] | Some l \<Rightarrow> l) @ method_rows t (hd_method h) @ rt_slow t
      else rt_rows t)"

lemma select_row_candidates: "select_row env t h mv = find_match (candidates env t h) h mv"
  by (auto simp: select_row_def candidates_def find_match_append find_in_list method_rows_def
      split: prod.splits option.splits)

lemma find_match_test:
  assumes "\<And>r mv. r \<in> set rs \<Longrightarrow> fst (fst r h mv) = Q r"
  shows "fst (find_match rs h mv) = find Q rs"
  using assms by (induction rs arbitrary: mv) (auto split: prod.splits, (metis fst_conv)+)

lemma find_match_vars:
  "find_match rs h mv = (Some r, mv') \<Longrightarrow> r \<in> set rs \<and> (\<exists>mv0. fst r h mv0 = (True, mv'))"
  by (induction rs arbitrary: mv) (auto split: prod.splits if_splits)

text \<open>What a fast table of an HTTPRoute is made of.\<close>

lemma http_table:
  assumes "make_rule_selector True env mk routes = Inr t" "routes \<noteq> []"
    and "r_kind (hd routes) = Some ''HTTPRoute''"
  shows "\<exists>es. map_res (make_row True env ''HTTPRoute'') es = Inr (rt_rows t)" and "rt_fast t"
    and "path_rows t p k = filter (\<lambda>r. path_key env (row_match r) = Some p \<and>
        method_key (rm_method (row_match r)) = k) (rt_rows t)"
    and "method_rows t k = filter (\<lambda>r. path_key env (row_match r) = None \<and>
        method_truthy (rm_method (row_match r)) \<and> method_key (rm_method (row_match r)) = k) (rt_rows t)"
    and "rt_slow t = filter (\<lambda>r. path_key env (row_match r) = None \<and>
        \<not> method_truthy (rm_method (row_match r))) (rt_rows t)"
proof -
  obtain rules where rules: "route_rules mk False routes = Inr rules"
    using assms by (auto simp: make_rule_selector_def bind_res_Inr_iff Let_def)
  let ?es = "sort_entries (concat (map rule_entries rules))"
  obtain rows where rows: "map_res (make_row True env ''HTTPRoute'') ?es = Inr rows"
    and t: "t = file_rows env rows \<lparr>rt_fast = True, rt_rows = rows, rt_paths = [],
              rt_methods = [], rt_slow = []\<rparr>"
    using assms rules by (auto simp: make_rule_selector_def bind_res_Inr_iff Let_def)
  have r: "rt_rows t = rows" by (simp add: t file_rows_kept)
  show "\<exists>es. map_res (make_row True env ''HTTPRoute'') es = Inr (rt_rows t)"
    unfolding r using rows by blast
  show "rt_fast t" by (simp add: t file_rows_kept)
  show "path_rows t p k = filter (\<lambda>r. path_key env (row_match r) = Some p \<and>
        method_key (rm_method (row_match r)) = k) (rt_rows t)"
    unfolding r unfolding t file_rows_tables by (simp add: path_rows_def)
  show "method_rows t k = filter (\<lambda>r. path_key env (row_match r) = None \<and>
        method_truthy (rm_method (row_match r)) \<and> method_key (rm_method (row_match r)) = k) (rt_rows t)"
    unfolding r unfolding t file_rows_tables by (simp add: method_rows_def)
  show "rt_slow t = filter (\<lambda>r. path_key env (row_match r) = None \<and>
        \<not> method_truthy (rm_method (row_match r))) (rt_rows t)"
    unfolding r unfolding t file_rows_tables by simp
qed

lemma table_row:
  assumes "map_res (make_row True env ''HTTPRoute'') es = Inr rows" "r \<in> set rows"
  shows "fst (fst r h mv) = row_test env (row_match r) h"
proof -
  have all: "list_all2 (\<lambda>e r. make_row True env ''HTTPRoute'' e = Inr r) es rows"
    using assms(1) by (simp add: map_res_Inr_iff)
  obtain e where "make_row True env ''HTTPRoute'' e = Inr r"
    using list_all2_in2 [OF all assms(2)] by (rule bexE)
  then obtain f where "make_http_match True env e = Inr f" and r: "r = (f, en_sel e, en_match e)"
    by (auto simp: make_row_def bind_res_Inr_iff)
  from http_match_fast(1) [OF this(1)] show ?thesis unfolding r by simp
qed

text \<open>Where a row comes from: a rule of one of the routes, and one of its matches.\<close>

definition rules_of :: "resource \<Rightarrow> rule list" where
  "rules_of res = (case Option.bind (r_spec res) sp_rules of None \<Rightarrow> [] | Some rls \<Rightarrow> rls)"

definition matches_of :: "rule \<Rightarrow> route_match list" where
  "matches_of rl = (case ru_matches rl of None \<Rightarrow> [no_match] | Some ms \<Rightarrow> ms)"

lemma route_rules_in:
  assumes "route_rules mk http2 routes = Inr rules" "(rl, s, res) \<in> set rules"
  shows "res \<in> set routes \<and> rl \<in> set (rules_of res) \<and> mk rl http2 = Inr s"
proof -
  let ?f = "\<lambda>res. case Option.bind (r_spec res) sp_rules of
      None \<Rightarrow> Inl TypeError
    | Some rules \<Rightarrow> map_res (\<lambda>rl. bind_res (mk rl http2) (\<lambda>s. Inr (rl, s, res))) rules"
  obtain rss where rss: "list_all2 (\<lambda>x y. ?f x = Inr y) routes rss" and r: "rules = concat rss"
    using assms(1) by (auto simp: route_rules_def bind_res_Inr_iff map_res_Inr_iff)
  obtain rs where "rs \<in> set rss" and in_rs: "(rl, s, res) \<in> set rs" using assms(2) r by auto
  then obtain x where x: "x \<in> set routes" "?f x = Inr rs" using list_all2_in2 [OF rss] by blast
  then obtain rls where rls: "Option.bind (r_spec x) sp_rules = Some rls"
    and all: "list_all2 (\<lambda>rl y. bind_res (mk rl http2) (\<lambda>s. Inr (rl, s, x)) = Inr y) rls rs"
    by (auto simp: map_res_Inr_iff split: option.splits)
  obtain q where "q \<in> set rls" "bind_res (mk q http2) (\<lambda>s. Inr (q, s, x)) = Inr (rl, s, res)"
    using list_all2_in2 [OF all in_rs] by (rule bexE)
  then show ?thesis using x(1) rls by (auto simp: bind_res_Inr_iff rules_of_def)
qed

lemma rule_entries_in:
  "e \<in> set (rule_entries (rl, s, res)) \<Longrightarrow>
   en_match e \<in> set (matches_of rl) \<and> en_sel e = s \<and> en_res e = res \<and> en_rule e = rl"
  by (auto simp: rule_entries_def matches_of_def Let_def split: option.splits)

lemma set_priorities_in:
  "e \<in> set (set_priorities i es) \<Longrightarrow> \<exists>e' \<in> set es. \<exists>p. e = e'\<lparr>en_prio := p\<rparr>"
  by (induction es arbitrary: i) auto

lemma table_row_origin:
  assumes "make_rule_selector True env mk routes = Inr t" "routes \<noteq> []"
    and "r_kind (hd routes) = Some ''HTTPRoute''" "r \<in> set (rt_rows t)"
  obtains res rl where "res \<in> set routes" "rl \<in> set (rules_of res)" "mk rl False = Inr (fst (snd r))"
    "row_match r \<in> set (matches_of rl)"
    "\<forall>h mv mv'. fst r h mv = (True, mv') \<longrightarrow> mv_route mv' = Some res \<and> mv_rule mv' = Some rl"
proof -
  obtain rules where rules: "route_rules mk False routes = Inr rules"
    using assms by (auto simp: make_rule_selector_def bind_res_Inr_iff Let_def)
  let ?es = "sort_entries (concat (map rule_entries rules))"
  obtain rows where all: "list_all2 (\<lambda>e r. make_row True env ''HTTPRoute'' e = Inr r) ?es rows"
    and t: "t = file_rows env rows \<lparr>rt_fast = True, rt_rows = rows, rt_paths = [],
              rt_methods = [], rt_slow = []\<rparr>"
    using assms rules by (auto simp: make_rule_selector_def bind_res_Inr_iff map_res_Inr_iff Let_def)
  have "r \<in> set rows" using assms(4) by (simp add: t file_rows_kept)
  then obtain e where e: "e \<in> set ?es" "make_row True env ''HTTPRoute'' e = Inr r"
    using list_all2_in2 [OF all] by blast
  obtain f where f: "make_http_match True env e = Inr f" and r: "r = (f, en_sel e, en_match e)"
    using e(2) by (auto simp: make_row_def bind_res_Inr_iff)
  have "e \<in> set (set_priorities 0 (concat (map rule_entries rules)))" using e(1) by (simp add: sort_entries_def)
  from set_priorities_in [OF this]
  obtain e' p where e': "e' \<in> set (concat (map rule_entries rules))" "e = e'\<lparr>en_prio := p\<rparr>"
    by (elim bexE exE)
  then obtain rl s res where rl: "(rl, s, res) \<in> set rules" "e' \<in> set (rule_entries (rl, s, res))" by auto
  note from_rule = rule_entries_in [OF rl(2)] and from_route = route_rules_in [OF rules rl(1)]
  show thesis
  proof (rule that [of res rl])
    show "\<forall>h mv mv'. fst r h mv = (True, mv') \<longrightarrow> mv_route mv' = Some res \<and> mv_rule mv' = Some rl"
    proof (intro allI impI)
      fix h mv mv' assume "fst r h mv = (True, mv')"
      then show "mv_route mv' = Some res \<and> mv_rule mv' = Some rl"
        using http_match_fast(2) [OF f, of h mv] from_rule by (simp add: r e'(2))
    qed
  qed (use from_rule from_route in \<open>simp_all add: r e'(2)\<close>)
qed

lemma path_checks_rows:
  assumes "path_checks env t h = Some l" "r \<in> set l"
  shows "\<exists>p k. he_url env (map fst (rt_paths t)) (hd_path h) = Some p \<and>
           (k = hd_method h \<or> k = ''*'') \<and> r \<in> set (path_rows t p k)"
  using assms
  by (auto simp: path_checks_def path_rows_def split: option.splits)

text \<open>Which patterns, methods, headers and parameters a match asks for.\<close>

definition served_by :: "http_env \<Rightarrow> 'sel rule_table \<Rightarrow> route_match \<Rightarrow> head \<Rightarrow> bool" where
  "served_by env t m h \<longleftrightarrow>
     (method_key (rm_method m) = hd_method h \<or> method_key (rm_method m) = ''*'') \<and>
     (path_key env m \<noteq> None \<longrightarrow> he_url env (map fst (rt_paths t)) (hd_path h) = path_key env m) \<and>
     path_test env (rm_path m) (hd_path h) \<and>
     items_pass env (rm_headers m) (hd_headers h) \<and>
     items_pass env (rm_params m) (he_query env (hd_path h))"

lemma fast_match_fits:
  assumes "make_rule_selector True env mk routes = Inr t" "routes \<noteq> []"
    and "r_kind (hd routes) = Some ''HTTPRoute''"
    and "select_row env t h mv = (Some r, mv')"
  shows "r \<in> set (rt_rows t) \<and> served_by env t (row_match r) h \<and>
         find (\<lambda>r. row_test env (row_match r) h) (candidates env t h) = Some r"
proof -
  obtain es where rows: "map_res (make_row True env ''HTTPRoute'') es = Inr (rt_rows t)"
    using http_table(1) [OF assms(1,2,3)] by blast
  note fast = http_table(2) [OF assms(1,2,3)] and tabs = http_table(3-5) [OF assms(1,2,3)]
  have cand: "q \<in> set (rt_rows t) \<and>
      (method_key (rm_method (row_match q)) = hd_method h \<or> method_key (rm_method (row_match q)) = ''*'') \<and>
      (path_key env (row_match q) \<noteq> None \<longrightarrow>
         he_url env (map fst (rt_paths t)) (hd_path h) = path_key env (row_match q))"
    if q: "q \<in> set (candidates env t h)" for q
  proof -
    consider l where "path_checks env t h = Some l" "q \<in> set l"
      | "q \<in> set (method_rows t (hd_method h))" | "q \<in> set (rt_slow t)"
      using q fast by (cases "path_checks env t h") (auto simp: candidates_def)
    then show ?thesis
    proof cases
      case 1
      then show ?thesis using path_checks_rows [OF 1] by (auto simp: tabs(1))
    next
      case 2
      then show ?thesis by (simp add: tabs(2))
    next
      case 3
      then have "method_key (rm_method (row_match q)) = ''*''"
        by (auto simp: tabs(3) method_key_def method_truthy_def split: option.splits js_method.splits)
      with 3 show ?thesis by (simp add: tabs(3))
    qed
  qed
  have test: "fst (fst q h mv) = row_test env (row_match q) h" if "q \<in> set (candidates env t h)" for q mv
    using table_row [OF rows] cand [OF that] by blast
  have f: "find (\<lambda>r. row_test env (row_match r) h) (candidates env t h) = Some r"
    using find_match_test [of "candidates env t h" h "\<lambda>r. row_test env (row_match r) h" mv] test assms(4)
    by (simp add: select_row_candidates)
  then have "r \<in> set (candidates env t h)" "row_test env (row_match r) h"
    using find_Some_in [OF f] by auto
  then show ?thesis using f cand [of r] by (auto simp: served_by_def row_test_def)
qed


text \<open>A more specific pattern shadows all others: when no match of the pattern that the URL
  router takes passes its header and parameter tests, and no match without a pattern does, the
  request gets no backend, even if it fits a less specific pattern whose match has no further
  conditions. The fast match does not fall back, where the slow match would.\<close>

theorem specific_pattern_shadows:
  assumes "make_rule_selector True env mk routes = Inr t" "routes \<noteq> []"
    and "r_kind (hd routes) = Some ''HTTPRoute''"
    and "he_url env (map fst (rt_paths t)) (hd_path h) = Some p"
    and "\<forall>r \<in> set (rt_rows t). path_key env (row_match r) = Some p \<or> path_key env (row_match r) = None \<longrightarrow>
           \<not> row_test env (row_match r) h"
  shows "fst (select_row env t h mv) = None"
proof (rule ccontr)
  assume "fst (select_row env t h mv) \<noteq> None"
  then obtain r mv' where s: "select_row env t h mv = (Some r, mv')"
    by (metis not_None_eq prod.collapse)
  note r = fast_match_fits [OF assms(1,2,3) s]
  then have "path_key env (row_match r) = Some p \<or> path_key env (row_match r) = None"
    using assms(4) unfolding served_by_def by force
  then show False using r assms(5) find_Some_in by fastforce
qed


text \<open>An example: \<open>/a\<close> for requests with the header \<open>x: 1\<close>, and \<open>/\<close> for all.\<close>

definition ex_http :: http_env where
  "ex_http = \<lparr>
     he_url = \<lambda>ks p. if starts_with ''/a'' p \<and> ''/a/*'' \<in> set ks then Some ''/a/*''
                    else if ''/*'' \<in> set ks then Some ''/*'' else None,
     he_regex = \<lambda>re. None, he_query = \<lambda>p. [],
     he_join = \<lambda>p q. if ends_with ''/'' p then p @ q else p @ ''/'' @ q\<rparr>"

definition ex_m1 :: route_match where
  "ex_m1 = no_match\<lparr>rm_path := Some \<lparr>pm_type = Some ''PathPrefix'', pm_value = ''/a''\<rparr>,
     rm_headers := Some [\<lparr>im_type = None, im_name = ''X'', im_value = ''1''\<rparr>]\<rparr>"

definition ex_m2 :: route_match where
  "ex_m2 = no_match\<lparr>rm_path := Some \<lparr>pm_type = Some ''PathPrefix'', pm_value = ''/''\<rparr>\<rparr>"

definition ex_routes :: "resource list" where
  "ex_routes = [\<lparr>r_obj = 1, r_kind = Some ''HTTPRoute'', r_name = Some ''r'',
     r_spec = Some (no_spec\<lparr>sp_rules := Some [no_rule\<lparr>ru_matches := Some [ex_m1]\<rparr>,
                                              no_rule\<lparr>ru_matches := Some [ex_m2]\<rparr>]\<rparr>)\<rparr>]"

definition ex_head :: "string \<Rightarrow> headers \<Rightarrow> head" where
  "ex_head p hs = no_head\<lparr>hd_path := p, hd_headers := hs\<rparr>"

lemmas ex_http_defs = ex_http_def ex_m1_def ex_m2_def ex_routes_def no_match_def no_rule_def no_spec_def

lemma ex_prio:
  "get_match_priority ex_m1 0 = ''2/002/0/001/000/000000''"
  "get_match_priority ex_m2 (Suc 0) = ''2/001/0/000/000/000001''"
  by (simp_all add: get_match_priority_def path_ranks_def pad3_def pad_start_def nat_str.simps
      digit_char_def len_of_def method_truthy_def ex_m1_def ex_m2_def no_match_def)
    (simp_all add: numeral_eq_Suc)

lemma ex_sorted:
  "sort_entries (concat (map rule_entries
      [(no_rule\<lparr>ru_matches := Some [ex_m1]\<rparr>, 7::nat, r), (no_rule\<lparr>ru_matches := Some [ex_m2]\<rparr>, 7, r)])) =
   [\<lparr>en_match = ex_m1, en_sel = 7, en_res = r, en_rule = no_rule\<lparr>ru_matches := Some [ex_m1]\<rparr>,
      en_prio = ''2/002/0/001/000/000000''\<rparr>,
    \<lparr>en_match = ex_m2, en_sel = 7, en_res = r, en_rule = no_rule\<lparr>ru_matches := Some [ex_m2]\<rparr>,
      en_prio = ''2/001/0/000/000/000001''\<rparr>]"
  by (simp add: sort_entries_def rule_entries_def ex_prio by_priority_def)

lemma ex_table:
  "\<exists>t r1 r2. make_rule_selector True ex_http (\<lambda>rl b. Inr (7::nat)) ex_routes = Inr t \<and>
     rt_rows t = [r1, r2] \<and> row_match r1 = ex_m1 \<and> row_match r2 = ex_m2 \<and>
     rt_paths t = [(''/a/*'', [(''*'', [r1])]), (''/*'', [(''*'', [r2])])]"
proof -
  let ?res = "hd ex_routes"
  have rules: "route_rules (\<lambda>rl b. Inr (7::nat)) False ex_routes =
      Inr [(no_rule\<lparr>ru_matches := Some [ex_m1]\<rparr>, 7, ?res), (no_rule\<lparr>ru_matches := Some [ex_m2]\<rparr>, 7, ?res)]"
    by (simp add: route_rules_def ex_routes_def)
  have k: "ex_routes \<noteq> []" "r_kind (hd ex_routes) = Some ''HTTPRoute''"
    by (simp_all add: ex_routes_def)
  have keys: "path_key ex_http ex_m1 = Some ''/a/*''" "path_key ex_http ex_m2 = Some ''/*''"
    by (simp_all add: path_key_def ex_m1_def ex_m2_def ex_http_def no_match_def ends_with_def)
  have meth: "rm_method ex_m1 = None" "rm_method ex_m2 = None"
    by (simp_all add: ex_m1_def ex_m2_def no_match_def)
  have "\<exists>f. make_row True ex_http ''HTTPRoute'' e = Inr (f, en_sel e, en_match e)"
    if "en_match e = ex_m1 \<or> en_match e = ex_m2" for e :: "nat entry"
    using that
    by (auto simp: make_row_def make_http_match_def make_path_matcher_def make_object_matcher_def
        ex_m1_def ex_m2_def no_match_def)
  note row = this
  let ?e1 = "\<lparr>en_match = ex_m1, en_sel = 7::nat, en_res = ?res, en_rule = no_rule\<lparr>ru_matches := Some [ex_m1]\<rparr>,
      en_prio = ''2/002/0/001/000/000000''\<rparr>"
  let ?e2 = "\<lparr>en_match = ex_m2, en_sel = 7::nat, en_res = ?res, en_rule = no_rule\<lparr>ru_matches := Some [ex_m2]\<rparr>,
      en_prio = ''2/001/0/000/000/000001''\<rparr>"
  obtain f1 where f1: "make_row True ex_http ''HTTPRoute'' ?e1 = Inr (f1, 7, ex_m1)"
    using row [of ?e1] by auto
  obtain f2 where f2: "make_row True ex_http ''HTTPRoute'' ?e2 = Inr (f2, 7, ex_m2)"
    using row [of ?e2] by auto
  note s = ex_sorted [of ?res]
  show ?thesis
    unfolding make_rule_selector_def Let_def
    by (simp add: k rules s [simplified] f1 f2 file_rows_def file_row_def obj_push_def keys meth
        method_key_def)
qed

lemma ex_join_keys:
  "path_key ex_http ex_m1 = Some ''/a/*''" "path_key ex_http ex_m2 = Some ''/*''"
  by (simp_all add: path_key_def ex_m1_def ex_m2_def ex_http_def no_match_def ends_with_def)

lemma ex_lower: "to_lower ''X'' = ''x''"
  by (simp add: to_lower_def lower_char_def lower_table_def)

lemma ex_items:
  "items_pass ex_http (rm_headers ex_m1) hs = (One ''1'' = item_value hs ''x'')"
  by (simp add: items_pass_def item_pass_def ex_m1_def no_match_def ex_lower)

lemma ex_tests:
  "row_test ex_http ex_m1 (ex_head ''/a/b'' []) = False"
  "row_test ex_http ex_m1 (ex_head ''/a/b'' [(''x'', One ''1'')]) = True"
  by (simp_all add: row_test_def ex_items)
    (simp_all add: path_test_def items_pass_def item_value_def ex_m1_def no_match_def ex_head_def no_head_def)

lemma ex_routes_ok: "ex_routes \<noteq> []" "r_kind (hd ex_routes) = Some ''HTTPRoute''"
  by (simp_all add: ex_routes_def)

lemma specific_pattern_shadows_witness:
  "\<exists>t. make_rule_selector True ex_http (\<lambda>rl b. Inr (7::nat)) ex_routes = Inr t \<and>
     ex_m2 \<in> row_match ` set (rt_rows t) \<and> row_test ex_http ex_m2 (ex_head ''/a/b'' []) \<and>
     fst (select_row ex_http t (ex_head ''/a/b'' []) no_vars) = None"
proof -
  from ex_table obtain t r1 r2 where
    t: "make_rule_selector True ex_http (\<lambda>rl b. Inr (7::nat)) ex_routes = Inr t"
    and rows: "rt_rows t = [r1, r2]" "row_match r1 = ex_m1" "row_match r2 = ex_m2"
    and paths: "rt_paths t = [(''/a/*'', [(''*'', [r1])]), (''/*'', [(''*'', [r2])])]"
    by (elim exE conjE)
  have url: "he_url ex_http (map fst (rt_paths t)) (hd_path (ex_head ''/a/b'' [])) = Some ''/a/*''"
    by (simp add: paths ex_http_def ex_head_def no_head_def starts_with_def)
  have "\<forall>r \<in> set (rt_rows t). path_key ex_http (row_match r) = Some ''/a/*'' \<or>
      path_key ex_http (row_match r) = None \<longrightarrow> \<not> row_test ex_http (row_match r) (ex_head ''/a/b'' [])"
    by (simp add: rows ex_join_keys ex_tests(1))
  from specific_pattern_shadows [OF t ex_routes_ok url this]
  have "fst (select_row ex_http t (ex_head ''/a/b'' []) no_vars) = None" .
  moreover have "row_test ex_http ex_m2 (ex_head ''/a/b'' [])"
    by (simp add: row_test_def path_test_def items_pass_def ex_m2_def no_match_def)
  moreover have "ex_m2 \<in> row_match ` set (rt_rows t)" by (simp add: rows)
  ultimately show ?thesis using t by (intro exI conjI)
qed



subsection \<open>Hosts\<close>

definition hosts_of :: "resource \<Rightarrow> string list" where
  "hosts_of r = (case route_hosts r of Inl e \<Rightarrow> [] | Inr hs \<Rightarrow> hs)"

text \<open>A route once for each time it names the host, or the wildcard of a postfix.\<close>

definition hosted :: "string \<Rightarrow> resource \<Rightarrow> resource list" where
  "hosted n r = map (\<lambda>_. r)
     (filter (\<lambda>x. \<not> starts_with ''*'' (to_lower (trim x)) \<and> to_lower (trim x) = n) (hosts_of r))"

definition posted :: "string \<Rightarrow> resource \<Rightarrow> resource list" where
  "posted p r = map (\<lambda>_. r)
     (filter (\<lambda>x. starts_with ''*'' (to_lower (trim x)) \<and> tl (to_lower (trim x)) = p) (hosts_of r))"

definition rows_at :: "'a list obj \<Rightarrow> string \<Rightarrow> 'a list" where
  "rows_at ob k = (case obj_get ob k of None \<Rightarrow> [] | Some l \<Rightarrow> l)"

lemma rows_at_push [simp]: "rows_at (obj_push k v ob) k' = rows_at ob k' @ (if k' = k then [v] else [])"
  by (simp add: rows_at_def)

text \<open>No entry of a table is empty, and its keys are distinct.\<close>

definition full_table :: "'a list obj \<Rightarrow> bool" where
  "full_table ob \<longleftrightarrow> (\<forall>k. obj_get ob k \<noteq> Some []) \<and> distinct (map fst ob)"

lemma full_table_push: "full_table ob \<Longrightarrow> full_table (obj_push k v ob)"
  by (simp add: full_table_def distinct_keys_push)

lemma full_table_get: "full_table ob \<Longrightarrow> obj_get ob k = (if rows_at ob k = [] then None else Some (rows_at ob k))"
  by (auto simp: full_table_def rows_at_def split: option.splits)

lemma add_hosts_rows:
  "rows_at (fst (foldl (\<lambda>t n. add_host r n t) tabs hs)) n = rows_at (fst tabs) n @ map (\<lambda>_. r)
     (filter (\<lambda>x. \<not> starts_with ''*'' (to_lower (trim x)) \<and> to_lower (trim x) = n) hs)"
  "rows_at (snd (foldl (\<lambda>t n. add_host r n t) tabs hs)) p = rows_at (snd tabs) p @ map (\<lambda>_. r)
     (filter (\<lambda>x. starts_with ''*'' (to_lower (trim x)) \<and> tl (to_lower (trim x)) = p) hs)"
  by (induction hs arbitrary: tabs) (auto simp: add_host_def Let_def)

lemma add_hosts_full:
  "full_table (fst tabs) \<Longrightarrow> full_table (snd tabs) \<Longrightarrow>
   full_table (fst (foldl (\<lambda>t n. add_host r n t) tabs hs)) \<and>
   full_table (snd (foldl (\<lambda>t n. add_host r n t) tabs hs))"
  by (induction hs arbitrary: tabs) (auto simp: add_host_def Let_def full_table_push)

lemma host_tables_rows:
  "host_tables rs tabs = Inr tabs' \<Longrightarrow>
   rows_at (fst tabs') n = rows_at (fst tabs) n @ concat (map (hosted n) rs) \<and>
   rows_at (snd tabs') p = rows_at (snd tabs) p @ concat (map (posted p) rs)"
proof (induction rs arbitrary: tabs)
  case (Cons r rs)
  then obtain hs where hs: "route_hosts r = Inr hs"
    and rest: "host_tables rs (foldl (\<lambda>t n. add_host r n t) tabs hs) = Inr tabs'"
    by (auto simp: bind_res_Inr_iff)
  show ?case
    using Cons.IH [OF rest] by (simp add: add_hosts_rows hosted_def posted_def hosts_of_def hs)
qed simp

lemma host_tables_full:
  "host_tables rs tabs = Inr tabs' \<Longrightarrow> full_table (fst tabs) \<Longrightarrow> full_table (snd tabs) \<Longrightarrow>
   full_table (fst tabs') \<and> full_table (snd tabs')"
proof (induction rs arbitrary: tabs)
  case (Cons r rs)
  then obtain hs where "host_tables rs (foldl (\<lambda>t n. add_host r n t) tabs hs) = Inr tabs'"
    by (auto simp: bind_res_Inr_iff)
  then show ?case using Cons.IH add_hosts_full [OF Cons.prems(2,3)] by blast
qed simp

lemma map_entries:
  assumes "map_res (\<lambda>(k, v). bind_res (f v) (\<lambda>t. Inr (k, t))) xs = Inr ys"
  shows "map fst ys = map fst xs"
    and "obj_get xs k = Some v \<Longrightarrow> \<exists>t. obj_get ys k = Some t \<and> f v = Inr t"
    and "obj_get xs k = None \<Longrightarrow> obj_get ys k = None"
  using assms by (induction xs arbitrary: ys) (auto simp: bind_res_Inr_iff split: if_splits)

lemma map_entries_in:
  assumes "map_res (\<lambda>(k, v). bind_res (f v) (\<lambda>t. Inr (k, t))) xs = Inr ys" "(k, t) \<in> set ys"
  shows "\<exists>v. (k, v) \<in> set xs \<and> f v = Inr t"
proof -
  have all: "list_all2 (\<lambda>x y. (\<lambda>(k, v). bind_res (f v) (\<lambda>t. Inr (k, t))) x = Inr y) xs ys"
    using assms(1) by (simp add: map_res_Inr_iff)
  obtain x where "x \<in> set xs" "(\<lambda>(k, v). bind_res (f v) (\<lambda>t. Inr (k, t))) x = Inr (k, t)"
    using list_all2_in2 [OF all assms(2)] by (rule bexE)
  moreover obtain k' v where "x = (k', v)" by (rule prod.exhaust)
  ultimately have "(k, v) \<in> set xs" "f v = Inr t" by (auto simp: bind_res_Inr_iff)
  then show ?thesis by blast
qed

text \<open>The tables of a router, read off its routes.\<close>

lemma router_tables:
  assumes "make_router env mk routes = Inr ro"
  defines "mt \<equiv> make_rule_selector use_fast_match env mk"
  shows "concat (map (hosted n) routes) \<noteq> [] \<Longrightarrow>
      \<exists>t. obj_get (ro_fulls ro) n = Some t \<and> mt (concat (map (hosted n) routes)) = Inr t"
    and "concat (map (hosted n) routes) = [] \<Longrightarrow> obj_get (ro_fulls ro) n = None"
    and "q \<in> fst ` set (ro_posts ro) \<longleftrightarrow> concat (map (posted q) routes) \<noteq> []"
    and "(q, t) \<in> set (ro_posts ro) \<Longrightarrow> mt (concat (map (posted q) routes)) = Inr t"
    and "sorted_wrt (\<lambda>a b. length (fst b) \<le> length (fst a)) (ro_posts ro)"
proof -
  obtain fulls posts where h: "host_tables routes ([], []) = Inr (fulls, posts)"
    and f: "map_res (\<lambda>(k, rs). bind_res (mt rs) (\<lambda>t. Inr (k, t))) fulls = Inr (ro_fulls ro)"
    and p: "map_res (\<lambda>(k, rs). bind_res (mt rs) (\<lambda>t. Inr (k, t))) (sort_postfixes posts) = Inr (ro_posts ro)"
    using assms(1) unfolding mt_def by (auto simp: make_router_def bind_res_Inr_iff Let_def)
  have full: "full_table fulls" "full_table posts"
    using host_tables_full [OF h] by (simp_all add: full_table_def)
  have fg: "obj_get fulls k = (let l = concat (map (hosted k) routes) in if l = [] then None else Some l)"
    and pg: "obj_get posts k = (let l = concat (map (posted k) routes) in if l = [] then None else Some l)" for k
    using host_tables_rows [OF h, of k k] full_table_get [OF full(1), of k] full_table_get [OF full(2), of k]
    by (simp_all add: rows_at_def [of "[]"] Let_def)
  have dist: "distinct (map fst posts)" using full(2) by (simp add: full_table_def)
  have entry: "(q, l) \<in> set posts \<longleftrightarrow> l = concat (map (posted q) routes) \<and> l \<noteq> []" for q l
    unfolding map_of_eq_Some_iff [OF dist, symmetric] pg by (auto simp: Let_def)
  have keys: "map fst (ro_posts ro) = map fst (sort_postfixes posts)" by (rule map_entries(1) [OF p])
  show "concat (map (hosted n) routes) \<noteq> [] \<Longrightarrow>
      \<exists>t. obj_get (ro_fulls ro) n = Some t \<and> mt (concat (map (hosted n) routes)) = Inr t"
    by (rule map_entries(2) [OF f]) (simp add: fg)
  show "concat (map (hosted n) routes) = [] \<Longrightarrow> obj_get (ro_fulls ro) n = None"
    by (rule map_entries(3) [OF f]) (simp add: fg)
  have fst: "fst ` set (ro_posts ro) = fst ` set posts"
    using arg_cong [OF keys, of set] by simp
  have "q \<in> fst ` set posts \<longleftrightarrow> (\<exists>l. (q, l) \<in> set posts)" by force
  then show "q \<in> fst ` set (ro_posts ro) \<longleftrightarrow> concat (map (posted q) routes) \<noteq> []"
    unfolding fst entry by simp
  show "mt (concat (map (posted q) routes)) = Inr t" if qt: "(q, t) \<in> set (ro_posts ro)"
  proof -
    obtain l where l: "(q, l) \<in> set (sort_postfixes posts)" and m: "mt l = Inr t"
      using map_entries_in [OF p qt] by (elim exE conjE)
    have "(q, l) \<in> set posts" using l by simp
    then have "l = concat (map (posted q) routes)" unfolding entry by (rule conjunct1)
    then show ?thesis using m by simp
  qed
  have "sorted_wrt (\<lambda>a b. length b \<le> length a) (map fst (sort_postfixes posts))"
    using sort_postfixes_sorted [of posts] by (simp add: sorted_wrt_map)
  then show "sorted_wrt (\<lambda>a b. length (fst b) \<le> length (fst a)) (ro_posts ro)"
    unfolding keys [symmetric] by (simp add: sorted_wrt_map)
qed

lemma host_rules:
  assumes "make_router env mk routes = Inr ro"
  shows "(concat (map (hosted n) routes) \<noteq> [] \<longrightarrow>
           (\<exists>t. route_table ro n = Some t \<and>
              make_rule_selector use_fast_match env mk (concat (map (hosted n) routes)) = Inr t)) \<and>
         (concat (map (hosted n) routes) = [] \<longrightarrow>
           (case route_table ro n of
              None \<Rightarrow> \<forall>q. ends_with q n \<longrightarrow> concat (map (posted q) routes) = []
            | Some t \<Rightarrow> \<exists>p. ends_with p n \<and> concat (map (posted p) routes) \<noteq> [] \<and>
                make_rule_selector use_fast_match env mk (concat (map (posted p) routes)) = Inr t \<and>
                (\<forall>q. ends_with q n \<and> concat (map (posted q) routes) \<noteq> [] \<longrightarrow> length q \<le> length p)))"
proof (intro conjI impI)
  note tabs = router_tables [OF assms]
  assume "concat (map (hosted n) routes) \<noteq> []"
  from tabs(1) [OF this] show "\<exists>t. route_table ro n = Some t \<and>
      make_rule_selector use_fast_match env mk (concat (map (hosted n) routes)) = Inr t"
    by (auto simp: route_table_def intro: lookup_table.exact_first)
next
  note tabs = router_tables [OF assms]
  assume "concat (map (hosted n) routes) = []"
  then have none: "obj_get (ro_fulls ro) n = None" by (rule tabs(2))
  show "case route_table ro n of
      None \<Rightarrow> \<forall>q. ends_with q n \<longrightarrow> concat (map (posted q) routes) = []
    | Some t \<Rightarrow> \<exists>p. ends_with p n \<and> concat (map (posted p) routes) \<noteq> [] \<and>
        make_rule_selector use_fast_match env mk (concat (map (posted p) routes)) = Inr t \<and>
        (\<forall>q. ends_with q n \<and> concat (map (posted q) routes) \<noteq> [] \<longrightarrow> length q \<le> length p)"
  proof (cases "route_table ro n")
    case None
    then have "\<forall>(q, t) \<in> set (ro_posts ro). \<not> ends_with q n"
      unfolding route_table_def lookup_table.not_found by simp
    then show ?thesis using None tabs(3) by fastforce
  next
    case (Some t)
    then have "postfix_find (ro_posts ro) n = Some t"
      using none by (simp add: route_table_def host_lookup_def)
    from postfix_find_longest [OF tabs(5) this] obtain q where q: "(q, t) \<in> set (ro_posts ro)"
      "ends_with q n" "\<forall>(q', w) \<in> set (ro_posts ro). ends_with q' n \<longrightarrow> length q' \<le> length q"
      by blast
    have ne: "concat (map (posted q) routes) \<noteq> []" using tabs(3) [of q] q(1) by force
    have "length q' \<le> length q" if e: "ends_with q' n" and c: "concat (map (posted q') routes) \<noteq> []" for q'
    proof -
      have "q' \<in> fst ` set (ro_posts ro)" unfolding tabs(3) by (rule c)
      then obtain w where "(q', w) \<in> set (ro_posts ro)" by force
      then show ?thesis using e q(3) by blast
    qed
    then show ?thesis using Some q(2) ne tabs(4) [OF q(1)] by auto
  qed
qed

text \<open>C14: A request goes to the rules of the most specific host: if routes name the host
  itself, the table is made from exactly those routes in order; otherwise from the routes of
  the longest wildcard that the host ends with; and a host without either has no table.\<close>

theorem most_specific_host:
  assumes "make_router env mk routes = Inr ro"
  shows "(concat (map (hosted n) routes) \<noteq> [] \<longrightarrow>
           (\<exists>t. route_table ro n = Some t \<and>
              make_rule_selector use_fast_match env mk (concat (map (hosted n) routes)) = Inr t)) \<and>
         (concat (map (hosted n) routes) = [] \<longrightarrow>
           (case route_table ro n of
              None \<Rightarrow> \<forall>q. ends_with q n \<longrightarrow> concat (map (posted q) routes) = []
            | Some t \<Rightarrow> \<exists>p. ends_with p n \<and> concat (map (posted p) routes) \<noteq> [] \<and>
                make_rule_selector use_fast_match env mk (concat (map (posted p) routes)) = Inr t \<and>
                (\<forall>q. ends_with q n \<and> concat (map (posted q) routes) \<noteq> [] \<longrightarrow> length q \<le> length p)))"
  using assms by (rule host_rules)

definition ex_host_route :: "nat \<Rightarrow> string \<Rightarrow> resource" where
  "ex_host_route i name = \<lparr>r_obj = i, r_kind = Some ''HTTPRoute'', r_name = None,
     r_spec = Some (no_spec\<lparr>sp_hostnames := Some [name], sp_rules := Some []\<rparr>)\<rparr>"

lemma ex_host_names: "to_lower (trim ''a.io'') = ''a.io''" "to_lower (trim ''*.io'') = ''*.io''"
  by (simp_all add: trim_def is_space_def to_lower_def lower_char_def lower_table_def)

lemma ex_router:
  "\<exists>ro. make_router ex_http (\<lambda>rl b. Inr (7::nat))
     [ex_host_route 1 ''a.io'', ex_host_route 2 ''*.io''] = Inr ro"
  by (simp add: make_router_def route_hosts_def ex_host_route_def no_spec_def add_host_def
      ex_host_names starts_with_def obj_push_def sort_postfixes_def make_rule_selector_def
      route_rules_def sort_entries_def file_rows_def Let_def)

lemma most_specific_host_witness:
  "\<exists>ro t. make_router ex_http (\<lambda>rl b. Inr (7::nat))
       [ex_host_route 1 ''a.io'', ex_host_route 2 ''*.io''] = Inr ro \<and>
     route_table ro ''a.io'' = Some t \<and>
     make_rule_selector use_fast_match ex_http (\<lambda>rl b. Inr 7) [ex_host_route 1 ''a.io''] = Inr t"
proof -
  let ?routes = "[ex_host_route 1 ''a.io'', ex_host_route 2 ''*.io'']"
  from ex_router obtain ro where ro: "make_router ex_http (\<lambda>rl b. Inr (7::nat)) ?routes = Inr ro"
    by (elim exE)
  have "concat (map (hosted ''a.io'') ?routes) = [ex_host_route 1 ''a.io'']"
    by (simp add: hosted_def hosts_of_def route_hosts_def ex_host_route_def no_spec_def
        ex_host_names starts_with_def)
  with most_specific_host [OF ro, of "''a.io''"] ro show ?thesis by auto
qed

subsection \<open>Retries end\<close>

lemma below_nat: "below m (Some (of_nat n)) = (m < n)"
  by (simp add: below_def)

lemma run_retries_from:
  assumes "rc_attempts rc = Some (of_nat n)" "c < n" "n \<le> length ss + c"
  shows "\<exists>i ns ps. run_retries rc ss c = Some (i, ns, ps) \<and> c + i < n \<and> i < length ss \<and>
           (\<forall>j < i. need_retry rc (ss ! j)) \<and> (need_retry rc (ss ! i) \<longrightarrow> c + i = n - 1) \<and>
           length ns = i + (if 0 < c then 1 else 0) \<and>
           ps = map (\<lambda>k. rc_backoff rc * 2 ^ k) [c..<c + i] \<and>
           (ns \<noteq> [] \<longrightarrow> last ns = (\<not> need_retry rc (ss ! i)))"
  using assms(2,3)
proof (induction ss arbitrary: c)
  case (Cons s ss)
  show ?case
  proof (cases "need_retry rc s \<and> Suc c < n")
    case False
    then have "run_retries rc (s # ss) c = Some (0, if 0 < c then [\<not> need_retry rc s] else [], [])"
      using assms(1) by (simp add: retry_step_def below_nat Let_def)
    then show ?thesis using False Cons.prems by auto
  next
    case True
    then obtain i ns ps where ih: "run_retries rc ss (Suc c) = Some (i, ns, ps)"
      "Suc c + i < n" "i < length ss" "\<forall>j < i. need_retry rc (ss ! j)"
      "need_retry rc (ss ! i) \<longrightarrow> Suc c + i = n - 1" "length ns = Suc i"
      "ps = map (\<lambda>k. rc_backoff rc * 2 ^ k) [Suc c..<Suc c + i]"
      "ns \<noteq> [] \<longrightarrow> last ns = (\<not> need_retry rc (ss ! i))"
      using Cons.IH [of "Suc c"] Cons.prems by auto
    have "run_retries rc (s # ss) c =
        Some (Suc i, (if 0 < c then [\<not> need_retry rc s] else []) @ ns, rc_backoff rc * 2 ^ c # ps)"
      using True ih(1) assms(1) by (simp add: retry_step_def below_nat backoff_def Let_def)
    moreover have "rc_backoff rc * 2 ^ c # ps = map (\<lambda>k. rc_backoff rc * 2 ^ k) [c..<c + Suc i]"
      using ih(7) by (simp add: upt_conv_Cons)
    moreover have "\<forall>j < Suc i. need_retry rc ((s # ss) ! j)"
      using True ih(4) by (simp add: All_less_Suc2)
    moreover have "ns \<noteq> []" using ih(6) by auto
    ultimately show ?thesis using ih True by auto
  qed
qed simp

text \<open>C15: Retrying ends, and within its bound: with \<open>n\<close> attempts the client gets the first
  response whose status asks for no retry, or else the \<open>n\<close>-th; the pauses are the back-off
  doubled each time, there is one note per repetition, and the last note tells whether the
  response that was delivered is good.\<close>

theorem retries_bounded:
  assumes "rc_attempts rc = Some (of_nat n)" "0 < n" "n \<le> length ss"
  shows "\<exists>i ns ps. run_retries rc ss 0 = Some (i, ns, ps) \<and> i < n \<and>
           (\<forall>j < i. need_retry rc (ss ! j)) \<and> (need_retry rc (ss ! i) \<longrightarrow> i = n - 1) \<and>
           length ns = i \<and> ps = map (\<lambda>k. rc_backoff rc * 2 ^ k) [0..<i] \<and>
           (ns \<noteq> [] \<longrightarrow> last ns = (\<not> need_retry rc (ss ! i)))"
  using run_retries_from [OF assms(1,2), of ss] assms(3) by auto

lemma retries_bounded_witness:
  "\<exists>i ns ps. run_retries \<lparr>rc_codes = Some [''503''], rc_attempts = Some 3, rc_backoff = 1\<rparr>
     [503, 200, 200] 0 = Some (i, ns, ps) \<and> i < 3"
  using retries_bounded [of "\<lparr>rc_codes = Some [''503''], rc_attempts = Some 3, rc_backoff = 1\<rparr>" 3
      "[503, 200, 200]"] by auto

end
