(* ===== verification/Request_Flow.thy ===== *)
theory Request_Flow
  imports Router_Http
begin

text \<open>
  The way of an HTTP request of the second version from the routes of a listener to the targets
  of a rule: the router (\<open>Router_Http\<close>) with the selectors of rules (\<open>Backend_Selector\<close>) that
  \<open>router-http.js\<close> gives it.
\<close>

text \<open>A route that is most specific for a host: it names the host, or, when no route does, a
  wildcard for it such that no route has a longer one.\<close>

definition names_host :: "resource list \<Rightarrow> string \<Rightarrow> resource \<Rightarrow> bool" where
  "names_host routes n res \<longleftrightarrow>
     (if concat (map (hosted n) routes) \<noteq> [] then hosted n res \<noteq> []
      else \<exists>p. ends_with p n \<and> posted p res \<noteq> [] \<and>
        (\<forall>q. ends_with q n \<and> concat (map (posted q) routes) \<noteq> [] \<longrightarrow> length q \<le> length p))"

text \<open>A match that a request fits: its method, its path, its headers and its parameters. A path
  with a pattern is one that the URL router takes that pattern for.\<close>

definition request_fits :: "http_env \<Rightarrow> route_match \<Rightarrow> head \<Rightarrow> bool" where
  "request_fits env m h \<longleftrightarrow>
     (method_key (rm_method m) = hd_method h \<or> method_key (rm_method m) = ''*'') \<and>
     (case path_key env m of None \<Rightarrow> True | Some k \<Rightarrow> \<exists>ks. he_url env ks (hd_path h) = Some k) \<and>
     path_test env (rm_path m) (hd_path h) \<and> items_pass env (rm_headers m) (hd_headers h) \<and>
     items_pass env (rm_params m) (he_query env (hd_path h))"

lemma served_by_fits: "served_by env t m h \<Longrightarrow> request_fits env m h"
  by (auto simp: served_by_def request_fits_def split: option.split)

lemma in_hosted: "res \<in> set (concat (map (hosted n) routes)) \<Longrightarrow> res \<in> set routes \<and> hosted n res \<noteq> []"
  by (force simp: hosted_def filter_empty_conv)

lemma in_posted: "res \<in> set (concat (map (posted p) routes)) \<Longrightarrow> res \<in> set routes \<and> posted p res \<noteq> []"
  by (force simp: posted_def filter_empty_conv)

text \<open>The table of a host is made from routes that are most specific for it.\<close>

lemma table_routes:
  assumes "make_router env mk routes = Inr ro" "route_table ro n = Some t"
  obtains rs where "make_rule_selector True env mk rs = Inr t" "rs \<noteq> []"
    "\<And>res. res \<in> set rs \<Longrightarrow> res \<in> set routes \<and> names_host routes n res"
proof (cases "concat (map (hosted n) routes) = []")
  case False
  then have "make_rule_selector True env mk (concat (map (hosted n) routes)) = Inr t"
    using host_rules [OF assms(1), of n] assms(2) by (auto simp: use_fast_match_def)
  then show thesis
    by (rule that) (use False in \<open>simp_all add: names_host_def in_hosted del: concat_eq_Nil_conv set_concat\<close>)
next
  case True
  then obtain p where p: "ends_with p n" "concat (map (posted p) routes) \<noteq> []"
      "make_rule_selector True env mk (concat (map (posted p) routes)) = Inr t"
      "\<forall>q. ends_with q n \<and> concat (map (posted q) routes) \<noteq> [] \<longrightarrow> length q \<le> length p"
    using host_rules [OF assms(1), of n] assms(2) by (auto simp: use_fast_match_def)
  show thesis
  proof (rule that [OF p(3,2)])
    fix res assume "res \<in> set (concat (map (posted p) routes))"
    from in_posted [OF this] have res: "res \<in> set routes" "posted p res \<noteq> []" by simp_all
    have "\<exists>p. ends_with p n \<and> posted p res \<noteq> [] \<and>
        (\<forall>q. ends_with q n \<and> concat (map (posted q) routes) \<noteq> [] \<longrightarrow> length q \<le> length p)"
      by (rule exI [of _ p]) (intro conjI p(1,4) res(2))
    then show "res \<in> set routes \<and> names_host routes n res"
      using True res(1) unfolding names_host_def by (simp only: if_False not_True_eq_False simp_thms)
  qed
qed

text \<open>Where a request is routed to: a rule with a match that it fits.\<close>

lemma request_rule:
  assumes "make_router env mk routes = Inr ro"
    and "route_request env ro h mv = Inr (host, Some sel, mv')"
    and "\<forall>res \<in> set routes. r_kind res = Some ''HTTPRoute''"
  obtains n res rl m where "host = Some (One n)" "res \<in> set routes" "names_host routes n res"
    "rl \<in> set (rules_of res)" "m \<in> set (matches_of rl)" "request_fits env m h" "mk rl False = Inr sel"
    "mv_route mv' = Some res" "mv_rule mv' = Some rl"
proof -
  obtain x where x: "obj_get (hd_headers h) ''host'' = Some (One x)" "x \<noteq> []"
    using assms(2) by (auto simp: route_request_def split: option.splits header_val.splits if_splits)
  let ?n = "host_name x"
  obtain t where t: "route_table ro ?n = Some t"
    using assms(2) x by (auto simp: route_request_def Let_def split: option.splits)
  obtain r where r: "select_row env t h mv = (Some r, mv')" and sel: "sel = fst (snd r)" and n: "host = Some (One ?n)"
    using assms(2) x t by (auto simp: route_request_def Let_def split: prod.splits)
  obtain rs where rs: "make_rule_selector True env mk rs = Inr t" "rs \<noteq> []"
    "\<And>res. res \<in> set rs \<Longrightarrow> res \<in> set routes \<and> names_host routes ?n res"
    using table_routes [OF assms(1) t] by blast
  have kind: "r_kind (hd rs) = Some ''HTTPRoute''" using rs(2,3) assms(3) by (cases rs) auto
  note fit = fast_match_fits [OF rs(1,2) kind r]
  obtain res rl where o': "res \<in> set rs" "rl \<in> set (rules_of res)" "mk rl False = Inr (fst (snd r))"
    "row_match r \<in> set (matches_of rl)"
    "\<forall>h mv mv'. fst r h mv = (True, mv') \<longrightarrow> mv_route mv' = Some res \<and> mv_rule mv' = Some rl"
    by (rule table_row_origin [OF rs(1,2) kind conjunct1 [OF fit]])
  have "\<exists>mv0. fst r h mv0 = (True, mv')"
    using find_match_vars r by (metis select_row_candidates)
  then have vars: "mv_route mv' = Some res \<and> mv_rule mv' = Some rl" using o'(5) by blast
  show thesis
    by (rule that [OF n _ _ o'(2,4) served_by_fits])
      (use rs(3) [OF o'(1)] fit vars o'(3) sel in auto)
qed

text \<open>The load balancer of a selector takes one of its targets.\<close>

definition takes_targets :: "('pl target list \<Rightarrow> 's option \<Rightarrow> 'pl target option) \<Rightarrow> bool" where
  "takes_targets alloc \<longleftrightarrow> (\<forall>ts hint t. alloc ts hint = Some t \<longrightarrow> t \<in> set ts)"

lemma picked_target:
  assumes "takes_targets alloc" "pick_target get alloc sel h st = Inr (Some t, st')"
  shows "t \<in> set (targets_of (rs_targets sel))"
  using assms by (cases "rs_targets sel")
    (auto simp: pick_target_def select_target_def takes_targets_def bind_res_Inr_iff split: option.splits)

text \<open>What a target of a rule is made of.\<close>

lemma rule_target:
  assumes "make_backend_selector_for_rule scripts out named l mb rl http2 = Inr sel"
    and "t \<in> set (targets_of (rs_targets sel))"
  shows "tg_ref t \<in> (if rule_refs (Some rl) = [] then {None} else Some ` set (rule_refs (Some rl))) \<and>
     (\<exists>chain q. make_filter_list scripts out ''http'' (rule_chain (Some l) (Some rl) (tg_ref t)) = Inr (chain, q) \<and>
        make_rule_balancer mb rl http2 (tg_ref t) (find_backend_resource named (tg_ref t)) chain q = Inr (tg_pipeline t))"
proof -
  have sel: "make_backend_selector scripts out named ''http'' (Some l) (Some rl) (make_rule_balancer mb rl http2) =
      Inr (rs_targets sel)"
    using assms(1) by (auto simp: make_backend_selector_for_rule_def bind_res_Inr_iff)
  note chain = selector_chain [OF sel]
  have "tg_ref t \<in> tg_ref ` set (targets_of (rs_targets sel))" using assms(2) by (rule imageI)
  also have "\<dots> = set (if rule_refs (Some rl) = [] then [None] else map Some (rule_refs (Some rl)))"
    using arg_cong [OF conjunct1 [OF chain], of set] by simp
  finally show ?thesis using bspec [OF conjunct2 [OF chain] assms(2)] by (simp split: if_splits)
qed

end
