(* ===== verification/Options.thy ===== *)
theory Options
  imports Prelude
begin

text \<open>
  The command line, \<open>src/options.js\<close> (and its copy \<open>pjs/options.js\<close>). The type of an
  option is the type of its default: a flag, a number, a string, or an array that
  collects every value.
\<close>

subsection \<open>The parser\<close>

datatype opt_val = OBool bool | ONum rat | OStr string | OList "string list"

record opt_state =
  os_args :: "string list"
  os_opts :: "opt_val obj"
  os_last :: "string option"

definition long_name :: "string obj \<Rightarrow> string \<Rightarrow> string" where
  "long_name shorthands name = or_else (obj_get shorthands name) name"

definition add_option ::
    "opt_val obj \<Rightarrow> string obj \<Rightarrow> string \<Rightarrow> string \<Rightarrow> opt_val obj \<Rightarrow> opt_val obj" where
  "add_option defaults shorthands name value opts =
     (let k = long_name shorthands name
      in case obj_get defaults k of
           Some (ONum _) \<Rightarrow>
             obj_set k (case parse_float value of None \<Rightarrow> OStr value | Some x \<Rightarrow> ONum x) opts
         | Some (OStr _) \<Rightarrow> obj_set k (OStr value) opts
         | Some (OList _) \<Rightarrow>
             obj_set k (OList ((case obj_get opts k of Some (OList vs) \<Rightarrow> vs | _ \<Rightarrow> []) @ [value])) opts
         | _ \<Rightarrow> opts)"

definition process_option ::
    "opt_val obj \<Rightarrow> string obj \<Rightarrow> string \<Rightarrow> string option \<Rightarrow> opt_state \<Rightarrow> js_error + opt_state" where
  "process_option defaults shorthands name value st =
     (let k = long_name shorthands name
      in case obj_get defaults k of
           None \<Rightarrow> Inl (Thrown (''invalid option '' @ k))
         | Some (OBool _) \<Rightarrow> Inr (st\<lparr>os_opts := obj_set k (OBool True) (os_opts st)\<rparr>)
         | Some _ \<Rightarrow>
             (case value of
                Some v \<Rightarrow> if v \<noteq> [] then Inr (st\<lparr>os_opts := add_option defaults shorthands k v (os_opts st)\<rparr>)
                          else Inr (st\<lparr>os_last := Some name\<rparr>)
              | None \<Rightarrow> Inr (st\<lparr>os_last := Some name\<rparr>)))"

definition opt_step ::
    "opt_val obj \<Rightarrow> string obj \<Rightarrow> string \<Rightarrow> opt_state \<Rightarrow> js_error + opt_state" where
  "opt_step defaults shorthands term st =
     (if truthy (os_last st) then
        (if starts_with ''-'' term
         then Inl (Thrown (''Value missing for option '' @ the (os_last st)))
         else Inr (st\<lparr>os_opts := add_option defaults shorthands (the (os_last st)) term (os_opts st),
                      os_last := None\<rparr>))
      else if starts_with ''--'' term then
        (let kv = split_on CHR ''='' term
         in process_option defaults shorthands (kv ! 0) (if 1 < length kv then Some (kv ! 1) else None) st)
      else if starts_with ''-'' term then
        (if length term = 2 then process_option defaults shorthands term None st
         else process_option defaults shorthands (take 2 term) (Some (drop 2 term)) st)
      else Inr (st\<lparr>os_args := os_args st @ [term]\<rparr>))"

fun opt_loop ::
    "opt_val obj \<Rightarrow> string obj \<Rightarrow> string list \<Rightarrow> opt_state \<Rightarrow> js_error + opt_state" where
  "opt_loop defaults shorthands [] st = Inr st"
| "opt_loop defaults shorthands (t # ts) st =
     bind_res (opt_step defaults shorthands t st) (opt_loop defaults shorthands ts)"

text \<open>The result: the positional arguments, and the defaults overridden by the options.\<close>

definition options ::
    "opt_val obj \<Rightarrow> string obj \<Rightarrow> string list \<Rightarrow> js_error + string list \<times> opt_val obj" where
  "options defaults shorthands argv =
     bind_res (opt_loop defaults shorthands (tl argv) \<lparr>os_args = [], os_opts = [], os_last = None\<rparr>)
       (\<lambda>st. Inr (os_args st, foldl (\<lambda>o' (k, v). obj_set k v o') defaults (os_opts st)))"

text \<open>The first version has the same file again, \<open>pjs/options.js\<close>.\<close>

definition pjs_options ::
    "opt_val obj \<Rightarrow> string obj \<Rightarrow> string list \<Rightarrow> js_error + string list \<times> opt_val obj" where
  "pjs_options = options"

text \<open>The two programs' option tables: \<open>src/main.js\<close>.\<close>

definition main_defaults :: "opt_val obj" where
  "main_defaults = [(''--config'', OStr []), (''--watch'', OBool False),
     (''--debug'', OBool False), (''--dump'', OBool False)]"

definition main_shorthands :: "string obj" where
  "main_shorthands = [(''-c'', ''--config''), (''-w'', ''--watch''), (''-d'', ''--debug'')]"

subsection \<open>A command line and its meaning\<close>

text \<open>The ways to write an option: \<open>--k=v\<close>, \<open>-xv\<close>, a name and its value apart, a flag.\<close>

datatype occurrence =
  Long string string | Glued string string | Apart string string | Flag string | Positional string

fun render :: "occurrence \<Rightarrow> string list" where
  "render (Long k v) = [k @ ''='' @ v]"
| "render (Glued x v) = [x @ v]"
| "render (Apart x v) = [x, v]"
| "render (Flag x) = [x]"
| "render (Positional s) = [s]"

definition valued :: "opt_val obj \<Rightarrow> string obj \<Rightarrow> string \<Rightarrow> bool" where
  "valued defaults shorthands x \<longleftrightarrow>
     (case obj_get defaults (long_name shorthands x) of
        None \<Rightarrow> False | Some (OBool _) \<Rightarrow> False | Some _ \<Rightarrow> True)"

definition is_long :: "string \<Rightarrow> bool" where
  "is_long x \<longleftrightarrow> starts_with ''--'' x \<and> CHR ''='' \<notin> set x"

definition is_short :: "string \<Rightarrow> bool" where
  "is_short x \<longleftrightarrow> length x = 2 \<and> starts_with ''-'' x \<and> \<not> starts_with ''--'' x"

fun well_written :: "opt_val obj \<Rightarrow> string obj \<Rightarrow> occurrence \<Rightarrow> bool" where
  "well_written d sh (Long k v) \<longleftrightarrow>
     is_long k \<and> valued d sh k \<and> v \<noteq> [] \<and> CHR ''='' \<notin> set v"
| "well_written d sh (Glued x v) \<longleftrightarrow> is_short x \<and> valued d sh x \<and> v \<noteq> []"
| "well_written d sh (Apart x v) \<longleftrightarrow>
     (is_long x \<or> is_short x) \<and> valued d sh x \<and> \<not> starts_with ''-'' v"
| "well_written d sh (Flag x) \<longleftrightarrow>
     (is_long x \<or> is_short x) \<and> (\<exists>b. obj_get d (long_name sh x) = Some (OBool b))"
| "well_written d sh (Positional s) \<longleftrightarrow> \<not> starts_with ''-'' s"

fun meaning ::
    "opt_val obj \<Rightarrow> string obj \<Rightarrow> occurrence \<Rightarrow> string list \<times> opt_val obj \<Rightarrow>
     string list \<times> opt_val obj" where
  "meaning d sh (Long k v) (args, opts) = (args, add_option d sh k v opts)"
| "meaning d sh (Glued x v) (args, opts) = (args, add_option d sh x v opts)"
| "meaning d sh (Apart x v) (args, opts) = (args, add_option d sh x v opts)"
| "meaning d sh (Flag x) (args, opts) = (args, obj_set (long_name sh x) (OBool True) opts)"
| "meaning d sh (Positional s) (args, opts) = (args @ [s], opts)"

lemma split_on_no_sep: "c \<notin> set s \<Longrightarrow> split_on c s = [s]"
  by (induction s) auto

lemma split_on_append: "c \<notin> set k \<Longrightarrow> split_on c (k @ c # v) = k # split_on c v"
  by (induction k) auto

lemma starts_with_append: "starts_with p k \<Longrightarrow> starts_with p (k @ v)"
  by (auto simp: starts_with_iff)

text \<open>Shorthands are one level deep: a long name is nobody's shorthand.\<close>

definition shorthands_ok :: "opt_val obj \<Rightarrow> string obj \<Rightarrow> bool" where
  "shorthands_ok d sh \<longleftrightarrow> (\<forall>(k, v) \<in> set d. obj_get sh k = None)"

lemma long_name_idem:
  assumes "shorthands_ok d sh" "obj_get d (long_name sh x) \<noteq> None"
  shows "long_name sh (long_name sh x) = long_name sh x"
proof -
  obtain v where "(long_name sh x, v) \<in> set d"
    using assms(2) by (meson map_of_SomeD not_None_eq)
  then have "obj_get sh (long_name sh x) = None"
    using assms(1) unfolding shorthands_ok_def by auto
  then show ?thesis by (simp add: long_name_def [of sh "long_name sh x"])
qed

lemma add_option_long:
  assumes "shorthands_ok d sh" "obj_get d (long_name sh x) \<noteq> None"
  shows "add_option d sh (long_name sh x) v opts = add_option d sh x v opts"
  by (simp add: add_option_def long_name_idem [OF assms])

lemma process_valued:
  assumes ok: "shorthands_ok d sh" and v: "valued d sh x"
  shows "process_option d sh x (Some v) st =
     (if v = [] then Inr (st\<lparr>os_last := Some x\<rparr>)
      else Inr (st\<lparr>os_opts := add_option d sh x v (os_opts st)\<rparr>))"
    and "process_option d sh x None st = Inr (st\<lparr>os_last := Some x\<rparr>)"
proof -
  have ne: "obj_get d (long_name sh x) \<noteq> None"
    using v by (cases "obj_get d (long_name sh x)") (auto simp: valued_def)
  show "process_option d sh x (Some v) st =
     (if v = [] then Inr (st\<lparr>os_last := Some x\<rparr>)
      else Inr (st\<lparr>os_opts := add_option d sh x v (os_opts st)\<rparr>))"
    and "process_option d sh x None st = Inr (st\<lparr>os_last := Some x\<rparr>)"
    using v add_option_long [OF ok ne]
    by (auto simp: process_option_def valued_def Let_def split: option.splits opt_val.splits)
qed

lemma opt_loop_append:
  "opt_loop d sh (xs @ ys) st = bind_res (opt_loop d sh xs st) (opt_loop d sh ys)"
proof (induction xs arbitrary: st)
  case (Cons x xs)
  then show ?case by (cases "opt_step d sh x st") auto
qed simp

lemma step_name:
  assumes "is_long x \<or> is_short x" "os_last st = None"
  shows "opt_step d sh x st = process_option d sh x None st"
  using assms
  by (auto simp: opt_step_def is_long_def is_short_def split_on_no_sep)

lemma name_not_Nil: "is_long x \<or> is_short x \<Longrightarrow> x \<noteq> []"
  by (auto simp: is_long_def is_short_def starts_with_def)

lemma short_glued:
  assumes "is_short x" "v \<noteq> []"
  shows "\<not> starts_with ''--'' (x @ v)" "starts_with ''-'' (x @ v)" "length (x @ v) \<noteq> 2"
    "take 2 (x @ v) = x" "drop 2 (x @ v) = v"
  using assms by (auto simp: is_short_def starts_with_def)

lemma step_render:
  assumes ok: "shorthands_ok d sh" and w: "well_written d sh oc"
    and last: "os_last st = None"
  shows "opt_loop d sh (render oc) st =
     Inr (st\<lparr>os_args := fst (meaning d sh oc (os_args st, os_opts st)),
             os_opts := snd (meaning d sh oc (os_args st, os_opts st))\<rparr>)"
proof (cases oc)
  case (Long k v)
  then have k: "is_long k" "valued d sh k" "v \<noteq> []" "CHR ''='' \<notin> set v" using w by auto
  then have "opt_step d sh (k @ ''='' @ v) st = process_option d sh k (Some v) st"
    using last by (simp add: opt_step_def is_long_def starts_with_append split_on_append
        split_on_no_sep)
  then show ?thesis using Long k process_valued [OF ok k(2)] by simp
next
  case (Glued x v)
  then have x: "is_short x" "valued d sh x" "v \<noteq> []" using w by auto
  then have "opt_step d sh (x @ v) st = process_option d sh x (Some v) st"
    using last short_glued [OF x(1,3)] by (simp add: opt_step_def)
  then show ?thesis using Glued x process_valued [OF ok x(2)] by simp
next
  case (Apart x v)
  then have x: "is_long x \<or> is_short x" "valued d sh x" "\<not> starts_with ''-'' v" using w by auto
  have "opt_step d sh v (st\<lparr>os_last := Some x\<rparr>) =
      Inr (st\<lparr>os_last := None, os_opts := add_option d sh x v (os_opts st)\<rparr>)"
    using x name_not_Nil [OF x(1)] by (simp add: opt_step_def)
  then show ?thesis
    using Apart step_name [OF x(1) last] process_valued(2) [OF ok x(2)] last by (cases st) simp
next
  case (Flag x)
  then have x: "is_long x \<or> is_short x" and b: "\<exists>b. obj_get d (long_name sh x) = Some (OBool b)"
    using w by auto
  then show ?thesis
    using Flag step_name [OF x last] by (auto simp: process_option_def Let_def)
next
  case (Positional s)
  then have "\<not> starts_with ''-'' s" using w by simp
  moreover have "\<not> starts_with ''--'' s"
    using calculation by (auto simp: starts_with_iff)
  ultimately show ?thesis using Positional last by (simp add: opt_step_def)
qed

lemma loop_render:
  assumes ok: "shorthands_ok d sh" and w: "\<forall>oc \<in> set ocs. well_written d sh oc"
    and last: "os_last st = None"
  shows "opt_loop d sh (concat (map render ocs)) st =
     Inr (st\<lparr>os_args := fst (fold (meaning d sh) ocs (os_args st, os_opts st)),
             os_opts := snd (fold (meaning d sh) ocs (os_args st, os_opts st))\<rparr>)"
  using w last
proof (induction ocs arbitrary: st)
  case (Cons oc ocs)
  then have s: "opt_loop d sh (render oc) st =
     Inr (st\<lparr>os_args := fst (meaning d sh oc (os_args st, os_opts st)),
             os_opts := snd (meaning d sh oc (os_args st, os_opts st))\<rparr>)"
    using step_render [OF ok] by simp
  show ?case
    using Cons by (simp add: opt_loop_append s)
qed simp

text \<open>C9: Every well-written command line is read back as its meaning: long options with
  \<open>=\<close>, short options glued to their value, values in the next argument, flags and positional
  arguments, in any order, give the positional arguments in order and the defaults overridden
  by the options, the last one winning and arrays collecting.\<close>

theorem options_meaning:
  assumes "shorthands_ok d sh" "\<forall>oc \<in> set ocs. well_written d sh oc"
  shows "options d sh (prog # concat (map render ocs)) =
     (let (args, opts) = fold (meaning d sh) ocs ([], [])
      in Inr (args, foldl (\<lambda>o' (k, v). obj_set k v o') d opts))"
  unfolding options_def list.sel
  by (subst loop_render [OF assms]) (simp_all add: case_prod_beta)

lemma options_meaning_witness:
  "options main_defaults main_shorthands
     [''pipy'', ''-c'', ''/etc/fgw'', ''--watch'', ''x'', ''-d''] =
   Inr ([''x''], [(''--config'', OStr ''/etc/fgw''), (''--watch'', OBool True),
     (''--debug'', OBool True), (''--dump'', OBool False)])"
proof -
  let ?ocs = "[Apart ''-c'' ''/etc/fgw'', Flag ''--watch'', Positional ''x'', Flag ''-d'']"
  have "shorthands_ok main_defaults main_shorthands"
    by (simp add: shorthands_ok_def main_defaults_def main_shorthands_def)
  moreover have "\<forall>oc \<in> set ?ocs. well_written main_defaults main_shorthands oc"
    by (auto simp: is_long_def is_short_def starts_with_def valued_def long_name_def
        main_defaults_def main_shorthands_def)
  ultimately show ?thesis
    using options_meaning [of main_defaults main_shorthands ?ocs "''pipy''"]
    by (simp add: long_name_def add_option_def main_defaults_def main_shorthands_def)
qed

text \<open>A value with an equals sign is cut: of \<open>--k=a=b\<close> only \<open>a\<close> is kept, because
  \<open>split('=')\<close> gives three parts and the third is dropped. The same value in the next argument
  is kept whole.\<close>

theorem option_value_cut:
  assumes "shorthands_ok d sh" "is_long k" "obj_get d (long_name sh k) = Some (OStr dflt)"
    and "CHR ''='' \<notin> set a" "a \<noteq> []" "\<not> starts_with ''-'' a"
  shows "options d sh [prog, k @ ''='' @ a @ ''='' @ b] = options d sh [prog, k @ ''='' @ a] \<and>
         options d sh [prog, k, a @ ''='' @ b] =
           Inr ([], obj_set (long_name sh k) (OStr (a @ ''='' @ b)) d)"
proof
  have parts: "split_on CHR ''='' (k @ ''='' @ a @ ''='' @ b) ! 0 = k"
    "split_on CHR ''='' (k @ ''='' @ a @ ''='' @ b) ! 1 = a"
    "split_on CHR ''='' (k @ ''='' @ a) = [k, a]"
    "1 < length (split_on CHR ''='' (k @ ''='' @ a @ ''='' @ b))"
    using assms by (simp_all add: is_long_def split_on_append split_on_no_sep)
  show "options d sh [prog, k @ ''='' @ a @ ''='' @ b] = options d sh [prog, k @ ''='' @ a]"
    using assms(2) parts
    by (simp add: options_def opt_step_def is_long_def starts_with_append)
  have v: "valued d sh k" using assms(3) by (simp add: valued_def)
  have na: "\<not> starts_with ''-'' (a @ ''='' @ b)"
    using assms(5,6) by (cases a) (auto simp: starts_with_def)
  show "options d sh [prog, k, a @ ''='' @ b] =
           Inr ([], obj_set (long_name sh k) (OStr (a @ ''='' @ b)) d)"
    using loop_render [OF assms(1), of "[Apart k (a @ ''='' @ b)]"
        "\<lparr>os_args = [], os_opts = [], os_last = None\<rparr>"] assms(2,3) v na
    by (simp add: options_def add_option_def)
qed

lemma option_value_cut_witness:
  "options main_defaults main_shorthands [''pipy'', ''--config=/a=b''] =
   options main_defaults main_shorthands [''pipy'', ''--config=/a'']"
  using option_value_cut [of main_defaults main_shorthands "''--config''" "[]" "''/a''" "''pipy''" "''b''"]
  by (simp add: shorthands_ok_def is_long_def starts_with_def long_name_def
      main_defaults_def main_shorthands_def)

subsection \<open>Types of the options\<close>

text \<open>A value has the type of the default; only a number may be left as text, when it is not one.\<close>

fun option_typed :: "opt_val \<Rightarrow> opt_val \<Rightarrow> bool" where
  "option_typed (OBool _) (OBool _) = True"
| "option_typed (ONum _) (ONum _) = True"
| "option_typed (ONum _) (OStr t) = (parse_float t = None)"
| "option_typed (OStr _) (OStr _) = True"
| "option_typed (OList _) (OList _) = True"
| "option_typed _ _ = False"

definition options_typed :: "opt_val obj \<Rightarrow> opt_val obj \<Rightarrow> bool" where
  "options_typed defaults opts \<longleftrightarrow>
     list_all (\<lambda>(k, v). case obj_get defaults k of None \<Rightarrow> False | Some d \<Rightarrow> option_typed d v) opts"

lemma typed_set:
  "options_typed defaults opts \<Longrightarrow> obj_get defaults k = Some d \<Longrightarrow> option_typed d v \<Longrightarrow>
   options_typed defaults (obj_set k v opts)"
  unfolding options_typed_def by (induction opts) auto

lemma add_option_typed:
  assumes "options_typed defaults opts"
  shows "options_typed defaults (add_option defaults sh name value opts)"
proof (cases "obj_get defaults (long_name sh name)")
  case None
  then show ?thesis using assms by (simp add: add_option_def)
next
  case (Some d)
  then show ?thesis
    using assms by (cases d) (auto simp: add_option_def Let_def intro!: typed_set [OF assms Some] split: option.split)
qed

lemma opt_step_typed:
  assumes "options_typed defaults (os_opts st)" "opt_step defaults sh term st = Inr st'"
  shows "options_typed defaults (os_opts st')"
proof -
  have process: "options_typed defaults (os_opts s2)" if "process_option defaults sh name v st = Inr s2" for name v s2
  proof (cases "obj_get defaults (long_name sh name)")
    case (Some d)
    then show ?thesis using that assms(1) add_option_typed [OF assms(1)] typed_set [OF assms(1) Some]
      by (cases d; cases v) (auto simp: process_option_def Let_def split: if_splits)
  qed (use that in \<open>simp add: process_option_def\<close>)
  show ?thesis
    using assms add_option_typed [OF assms(1)] process
    by (auto simp: opt_step_def Let_def split: if_splits)
qed

lemma opt_loop_typed:
  "options_typed defaults (os_opts st) \<Longrightarrow> opt_loop defaults sh ts st = Inr st' \<Longrightarrow> options_typed defaults (os_opts st')"
proof (induction ts arbitrary: st)
  case (Cons t ts)
  then obtain st1 where "opt_step defaults sh t st = Inr st1" "opt_loop defaults sh ts st1 = Inr st'"
    by (auto simp: bind_res_Inr_iff)
  then show ?case using Cons.IH opt_step_typed [OF Cons.prems(1)] by blast
qed simp

lemma override_typed:
  assumes "options_typed defaults opts"
  shows "options_typed defaults base \<Longrightarrow> map fst base = map fst defaults \<Longrightarrow>
     options_typed defaults (foldl (\<lambda>ob (k, v). obj_set k v ob) base opts) \<and>
     map fst (foldl (\<lambda>ob (k, v). obj_set k v ob) base opts) = map fst defaults"
  using assms
proof (induction opts arbitrary: base)
  case (Cons e opts)
  obtain k v where e: "e = (k, v)" by (cases e)
  then obtain d where d: "obj_get defaults k = Some d" "option_typed d v" and rest: "options_typed defaults opts"
    using Cons.prems(3) by (auto simp: options_typed_def split: option.splits)
  have "k \<in> set (map fst base)"
    using d(1) Cons.prems(2) by (metis domI dom_map_of_conv_image_fst set_map)
  have "map fst (obj_set k v base) = map fst defaults"
    unfolding update_keys if_P [OF \<open>k \<in> set (map fst base)\<close>] by (rule Cons.prems(2))
  then show ?case using Cons.IH [OF typed_set [OF Cons.prems(1) d] _ rest] e by simp
qed simp



end
