(* ===== verification/Machine.thy ===== *)
theory Machine
  imports Prelude
begin

text \<open>
  Handlers that share a state and are called in any order: a step function of the events, run
  over a list of them. Every invariant of such a component follows from its step alone; where
  events have identities, the history decides which may come next.
\<close>

text \<open>\<open>inv es s\<close>: what holds of the state after the events \<open>es\<close>; \<open>ok\<close> are the histories that can occur.\<close>

locale history_machine =
  fixes step :: "'e \<Rightarrow> 's \<Rightarrow> 's" and ok :: "'e list \<Rightarrow> bool" and inv :: "'e list \<Rightarrow> 's \<Rightarrow> bool"
  assumes ok_prefix: "ok (es @ [e]) \<Longrightarrow> ok es"
    and inv_step: "ok (es @ [e]) \<Longrightarrow> inv es s \<Longrightarrow> inv (es @ [e]) (step e s)"
begin

lemma inv_run: "inv [] s \<Longrightarrow> ok es \<Longrightarrow> inv es (foldl (\<lambda>s e. step e s) s es)"
proof (induction es rule: rev_induct)
  case (snoc e es)
  have "inv es (foldl (\<lambda>s e. step e s) s es)" by (rule snoc.IH [OF snoc.prems(1) ok_prefix [OF snoc.prems(2)]])
  then show ?case using inv_step [OF snoc.prems(2)] by simp
qed simp

end

text \<open>An invariant of the state alone, kept by every event.\<close>

locale event_machine =
  fixes step :: "'e \<Rightarrow> 's \<Rightarrow> 's" and inv :: "'s \<Rightarrow> bool"
  assumes step_inv: "inv s \<Longrightarrow> inv (step e s)"

sublocale event_machine \<subseteq> history_machine step "\<lambda>es. True" "\<lambda>es. inv"
  by unfold_locales (simp_all add: step_inv)

context event_machine
begin

lemma always: "inv s \<Longrightarrow> inv (foldl (\<lambda>s e. step e s) s es)"
  by (rule inv_run) simp_all

end

text \<open>A quantity that no event changes.\<close>

locale conserving_machine =
  fixes step :: "'e \<Rightarrow> 's \<Rightarrow> 's" and amount :: "'s \<Rightarrow> 'a"
  assumes conserves: "amount (step e s) = amount s"

sublocale conserving_machine \<subseteq> event_machine step "\<lambda>s. amount s = n" for n
  by unfold_locales (simp add: conserves)

context conserving_machine
begin

lemma conserved: "amount (foldl (\<lambda>s e. step e s) s es) = amount s"
  by (rule always) simp

end

end
