(* ===== verification/Mesh_Store.thy ===== *)
theory Mesh_Store
  imports Resources Machine
begin

text \<open>
  \<open>initZTM\<close> of \<open>src/resources.js\<close>: the resource store over the files of a mesh. Every read
  of a file is asynchronous, so that the store sees the reads in the order in which they end,
  first those of the listed files, then those of the files that \<open>watch\<close> reports.
\<close>

subsection \<open>Reads and what they do\<close>

text \<open>A read that ended: its path, the content, and what the decoder makes of the content (nothing
  when it throws), which is a new object every time.\<close>

record mesh_read =
  mr_path :: string
  mr_raw :: string
  mr_decoded :: "resource option"

definition read_file_ztm :: "(string \<Rightarrow> string) \<Rightarrow> mesh_read \<Rightarrow> 'cb store \<Rightarrow> resource option \<times> 'cb store" where
  "read_file_ztm basename r s =
     (if is_json (mr_path r) then (mr_decoded r, s)
      else if is_yaml (mr_path r) then (mr_decoded r, s)
      else if is_secret (mr_path r) then
        (None, s\<lparr>s_secrets := obj_set (basename (mr_path r)) (mr_raw r) (s_secrets s)\<rparr>)
      else (None, s))"

datatype mesh_event = FirstRead mesh_read | LaterRead mesh_read

definition load_file_ztm :: "string \<Rightarrow> resource option \<Rightarrow> 'cb store \<Rightarrow> 'cb store" where
  "load_file_ztm f data s =
     (case data of
        None \<Rightarrow> s
      | Some d \<Rightarrow>
          if truthy (r_kind d) \<and> r_spec d \<noteq> None
          then append_resource d (s\<lparr>s_files := obj_set f d (s_files s)\<rparr>) else s)"

text \<open>Only a changed file is noticed; \<open>notifyCreate\<close> and the others are set after the first reads.\<close>

definition mesh_step :: "(string \<Rightarrow> string) \<Rightarrow> mesh_event \<Rightarrow> 'cb store \<times> notice list \<Rightarrow> 'cb store \<times> notice list" where
  "mesh_step basename ev st =
     (case ev of
        FirstRead r \<Rightarrow>
          (let (d, s) = read_file_ztm basename r (fst st) in (load_file_ztm (mr_path r) d s, snd st))
      | LaterRead r \<Rightarrow>
          (let (d, s) = read_file_ztm basename r (fst st); (s1, ns) = change_file (mr_path r) d s
           in (s1, snd st @ ns)))"

definition mesh_run :: "(string \<Rightarrow> string) \<Rightarrow> mesh_event list \<Rightarrow> 'cb store \<times> notice list" where
  "mesh_run basename evs = foldl (\<lambda>st ev. mesh_step basename ev st) (empty_store, []) evs"

subsection \<open>The files of the mesh\<close>

fun read_of :: "mesh_event \<Rightarrow> mesh_read" where
  "read_of (FirstRead r) = r"
| "read_of (LaterRead r) = r"

definition document :: "mesh_read \<Rightarrow> resource option" where
  "document r = (if is_json (mr_path r) \<or> is_yaml (mr_path r) then mr_decoded r else None)"

text \<open>What a read that ended makes of a file; a first read keeps only documents with kind and spec.\<close>

definition doc_after :: "string \<Rightarrow> mesh_event \<Rightarrow> resource option \<Rightarrow> resource option" where
  "doc_after f ev d =
     (if mr_path (read_of ev) = f then
        (case ev of
           LaterRead r \<Rightarrow> document r
         | FirstRead r \<Rightarrow>
             (case document r of Some x \<Rightarrow> if truthy (r_kind x) \<and> r_spec x \<noteq> None then Some x else d | None \<Rightarrow> d))
      else d)"

definition last_doc :: "mesh_event list \<Rightarrow> string \<Rightarrow> resource option" where
  "last_doc evs f = foldl (\<lambda>d ev. doc_after f ev d) None evs"

definition objects :: "mesh_event list \<Rightarrow> nat list" where
  "objects evs = concat (map (\<lambda>ev. case document (read_of ev) of None \<Rightarrow> [] | Some d \<Rightarrow> [r_obj d]) evs)"

text \<open>What can happen next: a decoder gives a new object, and a file is first read once.\<close>

definition next_ok :: "mesh_event list \<Rightarrow> mesh_event \<Rightarrow> bool" where
  "next_ok evs ev \<longleftrightarrow>
     (case document (read_of ev) of None \<Rightarrow> True | Some d \<Rightarrow> r_obj d \<notin> set (objects evs)) \<and>
     (case ev of FirstRead r \<Rightarrow> mr_path r \<notin> set (map (mr_path \<circ> read_of) evs) | LaterRead r \<Rightarrow> True)"

fun reads_ok :: "mesh_event list \<Rightarrow> mesh_event list \<Rightarrow> bool" where
  "reads_ok pre [] = True"
| "reads_ok pre (ev # evs) = (next_ok pre ev \<and> reads_ok (pre @ [ev]) evs)"

lemma reads_ok_snoc: "reads_ok pre (evs @ [ev]) \<longleftrightarrow> reads_ok pre evs \<and> next_ok (pre @ evs) ev"
  by (induction evs arbitrary: pre) auto

lemma last_doc_snoc: "last_doc (evs @ [ev]) f = doc_after f ev (last_doc evs f)"
  by (simp add: last_doc_def)

lemma objects_snoc:
  "set (objects (evs @ [ev])) = set (objects evs) \<union> (case document (read_of ev) of None \<Rightarrow> {} | Some d \<Rightarrow> {r_obj d})"
  by (simp add: objects_def split: option.split)

lemma last_doc_object: "last_doc evs f = Some d \<Longrightarrow> r_obj d \<in> set (objects evs)"
proof (induction evs rule: rev_induct)
  case (snoc ev evs)
  then show ?case
    by (cases ev) (auto simp: last_doc_snoc objects_snoc doc_after_def split: option.splits if_splits)
qed (simp add: last_doc_def)

lemma last_doc_unread: "f \<notin> set (map (mr_path \<circ> read_of) evs) \<Longrightarrow> last_doc evs f = None"
  by (induction evs rule: rev_induct) (auto simp: last_doc_snoc doc_after_def, simp add: last_doc_def)

subsection \<open>The store holds the files\<close>

definition mesh_inv :: "mesh_event list \<Rightarrow> 'cb store \<times> notice list \<Rightarrow> bool" where
  "mesh_inv evs st \<longleftrightarrow> store_ok (fst st) \<and> (\<forall>f. obj_get (s_files (fst st)) f = last_doc evs f)"

lemma read_file_ztm_doc:
  obtains sec where "read_file_ztm basename r s = (document r, s\<lparr>s_secrets := sec\<rparr>)"
proof (cases "is_json (mr_path r) \<or> is_yaml (mr_path r)")
  case True
  then show thesis by (intro that [of "s_secrets s"]) (auto simp: read_file_ztm_def document_def)
next
  case False
  then show thesis
    by (cases "is_secret (mr_path r)")
      (auto simp: read_file_ztm_def document_def intro: that [of "s_secrets s"] that)
qed

lemma store_ok_secrets: "store_ok (s\<lparr>s_secrets := sec\<rparr>) = store_ok s"
  by (simp only: store_ok_def files_distinct_def loaded_def list_secrets find_secrets files_secrets)

lemma mesh_step_inv:
  assumes "mesh_inv evs st" "next_ok evs ev"
  shows "mesh_inv (evs @ [ev]) (mesh_step basename ev st)"
proof -
  let ?r = "read_of ev"
  obtain sec where rd: "read_file_ztm basename ?r (fst st) = (document ?r, (fst st)\<lparr>s_secrets := sec\<rparr>)"
    by (rule read_file_ztm_doc)
  let ?s = "(fst st)\<lparr>s_secrets := sec\<rparr>"
  have ok: "store_ok ?s" using assms(1) by (simp add: mesh_inv_def store_ok_secrets)
  have files: "obj_get (s_files ?s) f = last_doc evs f" for f using assms(1) by (simp add: mesh_inv_def files_secrets)
  have fresh: "fresh_obj (document ?r) ?s"
    unfolding fresh_obj_def files
  proof (intro allI impI)
    fix c f q assume "document ?r = Some c" "last_doc evs f = Some q"
    then show "r_obj q \<noteq> r_obj c" using assms(2) last_doc_object [of evs f q] by (auto simp: next_ok_def)
  qed
  show ?thesis
  proof (cases ev)
    case (LaterRead r)
    then have "mesh_step basename ev st = (fst (change_file (mr_path r) (document r) ?s),
        snd st @ snd (change_file (mr_path r) (document r) ?s))"
      using rd by (simp add: mesh_step_def split: prod.split)
    then show ?thesis
      using change_file_store_ok [OF ok fresh, of "mr_path r"] files LaterRead
      by (simp add: mesh_inv_def last_doc_snoc doc_after_def)
  next
    case (FirstRead r)
    then have run: "fst (mesh_step basename ev st) = load_file_ztm (mr_path r) (document r) ?s"
      using rd by (simp add: mesh_step_def)
    have none: "obj_get (s_files ?s) (mr_path r) = None" "last_doc evs (mr_path r) = None"
      using files last_doc_unread [of "mr_path r" evs] assms(2) FirstRead by (simp_all add: next_ok_def)
    show ?thesis
    proof (cases "\<exists>d. document r = Some d \<and> truthy (r_kind d) \<and> r_spec d \<noteq> None")
      case False
      then have "load_file_ztm (mr_path r) (document r) ?s = ?s"
        and "last_doc (evs @ [ev]) f = last_doc evs f" for f
        by (auto simp: load_file_ztm_def last_doc_snoc doc_after_def FirstRead split: option.split)
      then show ?thesis using ok files by (simp add: mesh_inv_def run)
    next
      case True
      then obtain d where d: "document r = Some d" "truthy (r_kind d)" "r_spec d \<noteq> None" by (elim exE conjE)
      have "store_ok (append_resource d (?s\<lparr>s_files := obj_set (mr_path r) d (s_files ?s)\<rparr>))"
        using loaded_store_ok [OF ok _ none(1) d(2)] fresh d(1) FirstRead by simp
      then show ?thesis
        using d files by (simp add: mesh_inv_def run [unfolded FirstRead] load_file_ztm_def last_doc_snoc doc_after_def FirstRead)
    qed
  qed
qed

interpretation mesh_reads: history_machine "mesh_step basename" "reads_ok []" mesh_inv for basename
  by unfold_locales (simp_all add: reads_ok_snoc mesh_step_inv)

lemma mesh_run_inv: "reads_ok [] evs \<Longrightarrow> mesh_inv evs (mesh_run basename evs)"
  unfolding mesh_run_def
  by (rule mesh_reads.inv_run) (simp_all add: mesh_inv_def last_doc_def, simp add: empty_store_def)

lemma mesh_lists:
  assumes "mesh_inv evs st"
  shows "distinct (map r_obj (list_resources (fst st) k))"
    and "set (list_resources (fst st) k) = {d. k \<noteq> [] \<and> r_kind d = Some k \<and> (\<exists>f. last_doc evs f = Some d)}"
proof -
  have ok: "store_ok (fst st)" and files: "\<And>f. obj_get (s_files (fst st)) f = last_doc evs f"
    using assms by (simp_all add: mesh_inv_def)
  show "distinct (map r_obj (list_resources (fst st) k))" using ok by (simp add: store_ok_def)
  have "set (list_resources (fst st) k) = loaded (fst st) k" using ok by (simp add: store_ok_def)
  then show "set (list_resources (fst st) k) = {d. k \<noteq> [] \<and> r_kind d = Some k \<and> (\<exists>f. last_doc evs f = Some d)}"
    by (simp only: loaded_def files)
qed

text \<open>C7: In a mesh the store holds the files: in whatever order the reads end, the list of every kind
  has exactly the documents that the last reads of the files gave, where a first read gives only
  documents with a kind and a spec, each of them once.\<close>
theorem mesh_store_exact:
  assumes "reads_ok [] evs"
  shows "distinct (map r_obj (list_resources (fst (mesh_run basename evs)) k)) \<and>
     set (list_resources (fst (mesh_run basename evs)) k) =
       {d. k \<noteq> [] \<and> r_kind d = Some k \<and> (\<exists>f. last_doc evs f = Some d)}"
  using mesh_lists [OF mesh_run_inv [OF assms]] by (rule conjI)

definition ex_read :: "string \<Rightarrow> resource option \<Rightarrow> mesh_read" where
  "ex_read f d = \<lparr>mr_path = f, mr_raw = [], mr_decoded = d\<rparr>"

definition ex_reads :: "mesh_event list" where
  "ex_reads = [FirstRead (ex_read ''a.yaml'' (Some gw_a)), FirstRead (ex_read ''b.json'' (Some gw_b)),
     LaterRead (ex_read ''b.json'' (Some gw_a2)), LaterRead (ex_read ''a.yaml'' None)]"

lemma mesh_store_exact_witness:
  "set (list_resources (fst (mesh_run (\<lambda>f. f) ex_reads :: nat store \<times> notice list)) ''Gateway'') =
     {d. r_kind d = Some ''Gateway'' \<and> (\<exists>f. last_doc ex_reads f = Some d)} \<and>
   last_doc ex_reads ''b.json'' = Some gw_a2"
proof -
  have "reads_ok [] ex_reads" by code_simp
  note exact = mesh_store_exact [OF this, of "\<lambda>f. f" "''Gateway''"]
  have "last_doc ex_reads ''b.json'' = Some gw_a2" by code_simp
  then show ?thesis using conjunct2 [OF exact] by simp
qed

text \<open>Two reads of a file that end in the wrong order leave the older content in the store. The code
  allows it: \<open>watch\<close> asks for the next changes without waiting for the reads of the last ones.\<close>

lemma overtaken_read_wins:
  assumes "document old = Some d" "r_kind d = Some k" "k \<noteq> []" "mr_path old = mr_path new"
    and "reads_ok [] (evs @ [LaterRead new, LaterRead old])"
  shows "d \<in> set (list_resources (fst (mesh_run basename (evs @ [LaterRead new, LaterRead old]))) k)"
proof -
  have "last_doc ((evs @ [LaterRead new]) @ [LaterRead old]) (mr_path old) = Some d"
    unfolding last_doc_snoc using assms(1) by (simp add: doc_after_def)
  then have "\<exists>f. last_doc (evs @ [LaterRead new, LaterRead old]) f = Some d" by (intro exI [of _ "mr_path old"]) simp
  then show ?thesis unfolding mesh_lists(2) [OF mesh_run_inv [OF assms(5)]] using assms(2,3) by simp
qed

end
