(* ===== verification/Backend.thy ===== *)
theory Backend
  imports Utils
begin

text \<open>
  \<open>src/modules/backend.js\<close>: what is shared by every user of a backend: its targets, the load
  balancer's settings, the connection options and the counters of open connections. The cache
  makes one such object per name, and an updater refreshes its targets.
\<close>

subsection \<open>Targets\<close>

record endpoint_target =
  et_address :: string
  et_protocol :: "string option"
  et_weight :: "nat option"

definition find_backend :: "'cb store \<Rightarrow> string \<Rightarrow> resource option" where
  "find_backend s name = find_resource s ''Backend'' name"

text \<open>
  \<open>getTargets\<close>: a target without a port reads \<open>backendRef.port\<close>, but no variable \<open>backendRef\<close>
  is in scope.
\<close>

definition get_target :: "string option \<Rightarrow> backend_target \<Rightarrow> js_error + endpoint_target" where
  "get_target protocol t =
     (if or_else_nat (bt_port t) 0 = 0 then Inl (ReferenceError ''backendRef'')
      else Inr \<lparr>et_address = bt_address t @ '':'' @ nat_str (or_else_nat (bt_port t) 0),
                et_protocol = (if truthy (bt_appProtocol t) then bt_appProtocol t else protocol),
                et_weight = bt_weight t\<rparr>)"

definition get_targets :: "resource option \<Rightarrow> js_error + endpoint_target list" where
  "get_targets res =
     (case Option.bind res r_spec of
        None \<Rightarrow> Inr []
      | Some sp \<Rightarrow>
          (case sp_targets sp of
             None \<Rightarrow> Inr [] | Some ts \<Rightarrow> map_res (get_target (sp_appProtocol sp)) ts))"

subsection \<open>Settings\<close>

record conn_options =
  co_connect :: "num_js option"
  co_idle :: num_js
  co_read :: "num_js option"
  co_write :: "num_js option"

definition tcp_options :: "conn_timeouts option \<Rightarrow> conn_options" where
  "tcp_options ts =
     (case ts of
        None \<Rightarrow> \<lparr>co_connect = None, co_idle = Some 0, co_read = None, co_write = None\<rparr>
      | Some t \<Rightarrow> \<lparr>co_connect = ct_connect t,
                   co_idle = (case ct_idle t of None \<Rightarrow> Some 0 | Some v \<Rightarrow> v),
                   co_read = ct_read t, co_write = ct_write t\<rparr>)"

definition udp_options :: "conn_timeouts option \<Rightarrow> conn_options" where
  "udp_options ts =
     (case ts of
        None \<Rightarrow> \<lparr>co_connect = None, co_idle = Some 60, co_read = None, co_write = None\<rparr>
      | Some t \<Rightarrow> \<lparr>co_connect = None,
                   co_idle = (case ct_idle t of None \<Rightarrow> Some 60 | Some v \<Rightarrow> v),
                   co_read = ct_read t, co_write = ct_write t\<rparr>)"

record backend =
  be_name :: string
  be_algorithm :: string
  be_targets :: "endpoint_target list"
  be_tcp :: conn_options
  be_udp :: conn_options

definition make_backend :: "'cb store \<Rightarrow> string \<Rightarrow> js_error + backend" where
  "make_backend s name =
     (let res = find_backend s name in
      bind_res (find_policies_for s ''BackendLBPolicy'' res) (\<lambda>policies.
        let algorithm = first_policy (set_text sp_algorithm) policies;
            timeouts = first_policy sp_timeouts policies
        in bind_res (get_targets res) (\<lambda>targets.
             Inr \<lparr>be_name = name,
                  be_algorithm = (if algorithm = Some ''LeastLoad'' then ''least-load'' else ''round-robin''),
                  be_targets = targets, be_tcp = tcp_options timeouts, be_udp = udp_options timeouts\<rparr>)))"

text \<open>
  The updater of a backend: new targets for the balancer and the updater again, or, when the
  resource is gone, removal from the cache (\<open>None\<close>).
\<close>

definition refresh_backend ::
    "'cb \<Rightarrow> backend \<Rightarrow> 'cb store \<Rightarrow> js_error + backend option \<times> 'cb store" where
  "refresh_backend cb be s =
     (case find_backend s (be_name be) of
        None \<Rightarrow> Inr (None, s)
      | Some res \<Rightarrow>
          bind_res (get_targets (Some res)) (\<lambda>targets.
            Inr (Some (be\<lparr>be_targets := targets\<rparr>), add_updater ''Backend'' (be_name be) cb s)))"

subsection \<open>Routes into the mesh\<close>

datatype mesh_route = PeerTCP string | PeerUDP string | SelfTCP | SelfUDP | DenyRoute

text \<open>
  The endpoint of a backend: its id, or one of the endpoints of its name; \<open>pick\<close> is the random
  choice among a non-empty list.
\<close>

definition mesh_endpoint ::
    "(string list \<Rightarrow> string) \<Rightarrow> endpoint list \<Rightarrow> endpoint option \<Rightarrow> string option" where
  "mesh_endpoint pick known ep =
     (let id' = Option.bind ep ep_id; name = Option.bind ep ep_name in
      if truthy id' then id'
      else if truthy name then
        (let ids = map (\<lambda>e. or_else (ep_id e) []) (filter (\<lambda>e. ep_name e = name) known)
         in if ids = [] then None else Some (pick ids))
      else None)"

definition mesh_route_of :: "string option \<Rightarrow> string \<Rightarrow> string option \<Rightarrow> mesh_route" where
  "mesh_route_of self protocol ep =
     (case ep of
        None \<Rightarrow> DenyRoute
      | Some e \<Rightarrow>
          if e = [] then DenyRoute
          else if Some e = self then (if protocol = ''udp'' then SelfUDP else SelfTCP)
          else (if protocol = ''udp'' then PeerUDP e else PeerTCP e))"

subsection \<open>Counters\<close>

text \<open>
  The counters \<open>concurrency\<close> of a backend and of its target objects, which are numbered; the
  open connections are listed with their targets. New targets start at 0, the old
  objects live on in the connections that hold them.
\<close>

record counters =
  cn_total :: int
  cn_of :: "nat \<Rightarrow> int"
  cn_open :: "nat list"

definition conn_start :: "nat \<Rightarrow> counters \<Rightarrow> counters" where
  "conn_start t c = c\<lparr>cn_total := cn_total c + 1, cn_of := (cn_of c)(t := cn_of c t + 1),
     cn_open := t # cn_open c\<rparr>"

definition conn_end :: "nat \<Rightarrow> counters \<Rightarrow> counters" where
  "conn_end t c = c\<lparr>cn_of := (cn_of c)(t := cn_of c t - 1), cn_total := cn_total c - 1,
     cn_open := remove1 t (cn_open c)\<rparr>"

inductive conn_step :: "counters \<Rightarrow> counters \<Rightarrow> bool" where
  start: "conn_step c (conn_start t c)"
| finish: "t \<in> set (cn_open c) \<Longrightarrow> conn_step c (conn_end t c)"
| provision: "t \<notin> set (cn_open c) \<Longrightarrow> conn_step c (c\<lparr>cn_of := (cn_of c)(t := 0)\<rparr>)"

definition no_conns :: counters where
  "no_conns = \<lparr>cn_total = 0, cn_of = (\<lambda>t. 0), cn_open = []\<rparr>"

definition conn_reachable :: "counters \<Rightarrow> bool" where
  "conn_reachable c \<longleftrightarrow> conn_step\<^sup>*\<^sup>* no_conns c"

inductive_cases conn_stepE: "conn_step c c'"

lemma count_remove1: "t \<in> set xs \<Longrightarrow>
    int (count_list (remove1 t xs) u) = int (count_list xs u) - (if u = t then 1 else 0)"
  by (induction xs) auto

lemma conn_inv_step:
  assumes "cn_total c = int (length (cn_open c)) \<and> (\<forall>t. cn_of c t = int (count_list (cn_open c) t))"
    and "conn_step c c'"
  shows "cn_total c' = int (length (cn_open c')) \<and> (\<forall>t. cn_of c' t = int (count_list (cn_open c') t))"
  using assms(2)
proof cases
  case (start t)
  then show ?thesis using assms(1) by (simp add: conn_start_def)
next
  case (finish t)
  then have "0 < length (cn_open c)" "0 < count_list (cn_open c) t"
    by (auto simp: count_list_0_iff intro!: gr0I)
  then show ?thesis using assms(1) finish
    by (simp add: conn_end_def length_remove1 count_remove1 of_nat_diff Suc_le_eq)
next
  case (provision t)
  then have "count_list (cn_open c) t = 0" by (simp add: count_list_0_iff)
  then show ?thesis using assms(1) provision by simp
qed

text \<open>C18: The counters of open connections are exact at all times: in every state that starts,
  ends and re-provisioning of targets can reach, the backend's counter is the number of open
  connections, each target's counter is the number of its own, and none is negative.\<close>

theorem connection_counters_exact:
  assumes "conn_reachable c"
  shows "cn_total c = int (length (cn_open c)) \<and>
         (\<forall>t. cn_of c t = int (count_list (cn_open c) t) \<and> 0 \<le> cn_of c t)"
proof -
  have "conn_step\<^sup>*\<^sup>* no_conns c" using assms by (simp add: conn_reachable_def)
  then have "cn_total c = int (length (cn_open c)) \<and> (\<forall>t. cn_of c t = int (count_list (cn_open c) t))"
  proof (induction rule: rtranclp_induct)
    case base
    show ?case by (simp add: no_conns_def)
  next
    case (step c c')
    then show ?case using conn_inv_step by blast
  qed
  then show ?thesis by simp
qed

lemma connection_counters_exact_witness:
  "cn_total (conn_end 1 (conn_start 2 (conn_start 1 no_conns))) = 1"
proof -
  have "conn_step no_conns (conn_start 1 no_conns)" by (rule conn_step.start)
  moreover have "conn_step (conn_start 1 no_conns) (conn_start 2 (conn_start 1 no_conns))"
    by (rule conn_step.start)
  moreover have "conn_step (conn_start 2 (conn_start 1 no_conns))
      (conn_end 1 (conn_start 2 (conn_start 1 no_conns)))"
    by (rule conn_step.finish) (simp add: conn_start_def)
  ultimately have "conn_reachable (conn_end 1 (conn_start 2 (conn_start 1 no_conns)))"
    unfolding conn_reachable_def by (meson converse_rtranclp_into_rtranclp rtranclp.rtrancl_refl)
  from connection_counters_exact [OF this] show ?thesis
    by (simp add: conn_end_def conn_start_def no_conns_def)
qed

text \<open>A target without a port takes its whole backend down: \<open>getTargets\<close> reads the undefined
  variable \<open>backendRef\<close> and raises, however many targets with ports there are; with a port on
  every target there is one address per target, in order.\<close>

theorem targets_need_ports:
  assumes "Option.bind res r_spec = Some sp" "sp_targets sp = Some ts"
  shows "get_targets res =
     (if \<exists>t \<in> set ts. or_else_nat (bt_port t) 0 = 0 then Inl (ReferenceError ''backendRef'')
      else Inr (map (\<lambda>t. \<lparr>et_address = bt_address t @ '':'' @ nat_str (the (bt_port t)),
             et_protocol = (if truthy (bt_appProtocol t) then bt_appProtocol t else sp_appProtocol sp),
             et_weight = bt_weight t\<rparr>) ts))"
proof -
  have "map_res (get_target p) ts =
     (if \<exists>t \<in> set ts. or_else_nat (bt_port t) 0 = 0 then Inl (ReferenceError ''backendRef'')
      else Inr (map (\<lambda>t. \<lparr>et_address = bt_address t @ '':'' @ nat_str (the (bt_port t)),
             et_protocol = (if truthy (bt_appProtocol t) then bt_appProtocol t else p),
             et_weight = bt_weight t\<rparr>) ts))" for p
  proof (induction ts)
    case (Cons t ts)
    then show ?case
      by (cases "bt_port t") (auto simp: get_target_def)
  qed simp
  then show ?thesis using assms by (simp add: get_targets_def)
qed

lemma targets_need_ports_witness:
  "get_targets (Some \<lparr>r_obj = 1, r_kind = None, r_name = None, r_spec = Some (no_spec\<lparr>sp_targets :=
     Some [\<lparr>bt_address = ''a'', bt_port = None, bt_appProtocol = None, bt_weight = None\<rparr>]\<rparr>)\<rparr>) =
   Inl (ReferenceError ''backendRef'')"
  using targets_need_ports [of "Some \<lparr>r_obj = 1, r_kind = None, r_name = None, r_spec = Some (no_spec\<lparr>sp_targets :=
     Some [\<lparr>bt_address = ''a'', bt_port = None, bt_appProtocol = None, bt_weight = None\<rparr>]\<rparr>)\<rparr>"]
  by simp

end
