(* ===== verification/Gateway.thy ===== *)
theory Gateway
  imports Utils
begin

text \<open>
  \<open>src/gateway.js\<close>: opening a gateway's listeners, the dirty lists that the resource watcher
  fills, and the deferred update that empties them.

  What other components do is a parameter: the routers' and TLS terminators' factories and
  the filter chains (\<open>gw_env\<close>), the callbacks of the updaters (\<open>exec\<close>), the test of
  gateways (\<open>gatewayFilter\<close>, which may raise). \<open>pipy.listen\<close> is an event: \<open>Listen\<close> with
  a pipeline opens or replaces a port, \<open>Unlisten\<close> closes it.
\<close>

subsection \<open>State\<close>

type_synonym key = "string list"

type_synonym router_ref = "string option \<times> string option \<times> nat option \<times> string option"

datatype 'pl listen_cmd = Listen key "'pl list" | Unlisten key

record ('cb, 'pl) gw_state =
  gs_store :: "'cb store"
  gs_current :: "key list"
  gs_gateways :: "string list"
  gs_routers :: "router_ref list"
  gs_backends :: "string list"
  gs_policies :: "(string option \<times> string option \<times> string option) list"
  gs_resources :: "(string option \<times> notice) list"
  gs_armed :: bool
  gs_cmds :: "'pl listen_cmd list"

text \<open>The arguments that \<open>runUpdaters\<close> hands to the callbacks.\<close>

datatype upd_args = NoArgs | RouteArgs listener "resource list" | NoticeArgs notice

record ('cb, 'pl) gw_env =
  ge_router :: "string \<Rightarrow> string \<Rightarrow> listener \<Rightarrow> resource list \<Rightarrow> resource \<Rightarrow>
     'cb store \<Rightarrow> (js_error + 'pl) \<times> 'cb store"
  ge_terminate :: "listener \<Rightarrow> js_error + 'pl"
  ge_filters :: "string \<Rightarrow> filter_conf list \<Rightarrow> js_error + 'pl list"
  ge_exec :: "upd_args \<Rightarrow> 'cb \<Rightarrow> 'cb store \<Rightarrow> 'cb store"

subsection \<open>Keys, modules, routes\<close>

definition make_listener_key :: "listener \<Rightarrow> key" where
  "make_listener_key l =
     (let address = or_else (l_address l) ''0.0.0.0'';
          port = (if index_of CHR '':'' address \<noteq> None
                  then ''['' @ address @ '']:'' @ nat_str (l_port l)
                  else address @ '':'' @ nat_str (l_port l));
          protocol = (if l_protocol l = ''UDP'' then ''udp'' else ''tcp'')
      in [port, protocol])"

definition make_router_key :: "resource \<Rightarrow> key \<Rightarrow> string" where
  "make_router_key gw k =
     join_with '':'' k @ '':'' @ (case r_name gw of None \<Rightarrow> ''undefined'' | Some n \<Rightarrow> n)"

definition tls_mode :: "listener \<Rightarrow> string option" where
  "tls_mode l = Option.bind (l_tls l) tc_mode"

definition route_module :: "listener \<Rightarrow> js_error + string \<times> bool" where
  "route_module l =
     (let p = l_protocol l in
      if p = ''HTTP'' then Inr (''./modules/router-http.js'', False)
      else if p = ''HTTPS'' then Inr (''./modules/router-http.js'', True)
      else if p = ''TLS'' then
        (if tls_mode l = Some ''Terminate'' then Inr (''./modules/router-tcp.js'', True)
         else if tls_mode l = Some ''Passthrough'' then Inr (''./modules/router-tls.js'', False)
         else Inl (Thrown (''Listener: unknown TLS mode '' @
                (case tls_mode l of None \<Rightarrow> ''undefined'' | Some m \<Rightarrow> m))))
      else if p = ''TCP'' then Inr (''./modules/router-tcp.js'', False)
      else if p = ''UDP'' then Inr (''./modules/router-udp.js'', False)
      else if p = ''Dubbo'' then Inr (''./modules/router-dubbo.js'', False)
      else Inl (Thrown (''Listener: unknown protocol '' @ p)))"

definition route_kinds :: "listener \<Rightarrow> string list" where
  "route_kinds l =
     (let p = l_protocol l in
      if p = ''HTTP'' \<or> p = ''HTTPS'' then [''HTTPRoute'', ''GRPCRoute'']
      else if p = ''TLS'' then
        (if tls_mode l = Some ''Terminate'' then [''TCPRoute'']
         else if tls_mode l = Some ''Passthrough'' then [''TLSRoute''] else [])
      else if p = ''TCP'' then [''TCPRoute'']
      else if p = ''UDP'' then [''UDPRoute'']
      else if p = ''Dubbo'' then [''DubboRoute'']
      else [])"

definition attaches :: "resource \<Rightarrow> listener \<Rightarrow> parent_ref \<Rightarrow> bool" where
  "attaches gw l r =
     (if truthy (pr_kind r) \<and> pr_kind r \<noteq> Some ''Gateway'' then False
      else if pr_name r \<noteq> r_name gw then False
      else if pr_section r = l_name l \<and> truthy (l_name l) then True
      else if pr_port r = Some (l_port l) then True
      else False)"

definition parent_refs :: "resource \<Rightarrow> parent_ref list option" where
  "parent_refs r = Option.bind (r_spec r) sp_parentRefs"

definition find_route_resources ::
    "'cb store \<Rightarrow> resource \<Rightarrow> listener \<Rightarrow> resource list" where
  "find_route_resources s gw l =
     filter (\<lambda>r. case parent_refs r of None \<Rightarrow> False | Some refs \<Rightarrow> list_ex (attaches gw l) refs)
       (concat (map (list_resources s) (route_kinds l)))"

definition all_route_resources :: "'cb store \<Rightarrow> resource list" where
  "all_route_resources s =
     concat (map (list_resources s)
       [''HTTPRoute'', ''GRPCRoute'', ''TCPRoute'', ''TLSRoute'', ''UDPRoute'', ''DubboRoute''])"

subsection \<open>Listeners\<close>

text \<open>
  \<open>makeListener\<close>: the router first, then the TLS terminator in front of it, then the
  listener's filters in front of both.
\<close>

definition make_listener ::
    "('cb, 'pl) gw_env \<Rightarrow> resource \<Rightarrow> listener \<Rightarrow> ('cb, 'pl) gw_state \<Rightarrow>
     (js_error + key) \<times> ('cb, 'pl) gw_state" where
  "make_listener env gw l st =
     (let key = make_listener_key l; wireProto = key ! 1 in
      case route_module l of
        Inl e \<Rightarrow> (Inl e, st)
      | Inr (path, termTLS) \<Rightarrow>
          (case ge_router env path (make_router_key gw key) l
                  (find_route_resources (gs_store st) gw l) gw (gs_store st) of
             (Inl e, store) \<Rightarrow> (Inl e, st\<lparr>gs_store := store\<rparr>)
           | (Inr router, store) \<Rightarrow>
               (case bind_res (if termTLS then bind_res (ge_terminate env l) (\<lambda>t. Inr [t, router])
                               else Inr [router])
                       (\<lambda>pls. case l_filters l of
                          None \<Rightarrow> Inr pls
                        | Some fs \<Rightarrow> bind_res (ge_filters env wireProto fs) (\<lambda>gs. Inr (gs @ pls))) of
                  Inl e \<Rightarrow> (Inl e, st\<lparr>gs_store := store\<rparr>)
                | Inr pls \<Rightarrow>
                    (Inr key, st\<lparr>gs_store := store, gs_cmds := gs_cmds st @ [Listen key pls]\<rparr>))))"

definition add_key :: "key \<Rightarrow> key list \<Rightarrow> key list" where
  "add_key k ks = (if list_ex (\<lambda>k'. is_identical k' k) ks then ks else ks @ [k])"

definition start_listener ::
    "('cb, 'pl) gw_env \<Rightarrow> resource \<Rightarrow> listener \<Rightarrow> ('cb, 'pl) gw_state \<Rightarrow> ('cb, 'pl) gw_state" where
  "start_listener env gw l st =
     (case make_listener env gw l st of
        (Inl e, st') \<Rightarrow> st'
      | (Inr k, st') \<Rightarrow> st'\<lparr>gs_current := add_key k (gs_current st')\<rparr>)"

definition start_gateway ::
    "('cb, 'pl) gw_env \<Rightarrow> resource \<Rightarrow> ('cb, 'pl) gw_state \<Rightarrow>
     (js_error + unit) \<times> ('cb, 'pl) gw_state" where
  "start_gateway env gw st =
     (case r_spec gw of
        None \<Rightarrow> (Inl TypeError, st)
      | Some sp \<Rightarrow> (Inr (), foldl (\<lambda>st l. start_listener env gw l st) st (sp_listeners sp)))"

subsection \<open>The watcher\<close>

definition add_dirty_gateway :: "string \<Rightarrow> ('cb, 'pl) gw_state \<Rightarrow> ('cb, 'pl) gw_state" where
  "add_dirty_gateway name st =
     (if name \<in> set (gs_gateways st) then st
      else st\<lparr>gs_gateways := gs_gateways st @ [name],
              gs_routers := filter (\<lambda>(kind, nm, _). kind \<noteq> Some ''Gateway'' \<or> nm \<noteq> Some name)
                              (gs_routers st)\<rparr>)"

definition router_ref_of :: "parent_ref \<Rightarrow> router_ref" where
  "router_ref_of r = (pr_kind r, pr_name r, pr_port r, pr_section r)"

definition add_new :: "'a \<Rightarrow> 'a list \<Rightarrow> 'a list" where
  "add_new k ks = (if k \<in> set ks then ks else ks @ [k])"

definition add_dirty_routers ::
    "parent_ref list option \<Rightarrow> ('cb, 'pl) gw_state \<Rightarrow> ('cb, 'pl) gw_state" where
  "add_dirty_routers refs st =
     (case refs of
        None \<Rightarrow> st
      | Some rs \<Rightarrow> st\<lparr>gs_routers := foldl (\<lambda>ks r. add_new (router_ref_of r) ks) (gs_routers st) rs\<rparr>)"

definition add_dirty_backend :: "string \<Rightarrow> ('cb, 'pl) gw_state \<Rightarrow> ('cb, 'pl) gw_state" where
  "add_dirty_backend name st = st\<lparr>gs_backends := add_new name (gs_backends st)\<rparr>"

definition backend_names :: "resource \<Rightarrow> string option list" where
  "backend_names r =
     (case Option.bind (r_spec r) sp_rules of
        None \<Rightarrow> []
      | Some rules \<Rightarrow>
          concat (map (\<lambda>rl. case ru_backendRefs rl of None \<Rightarrow> [] | Some bs \<Rightarrow> map br_name bs) rules))"

definition add_dirty_routers_by_policy ::
    "target_ref list option \<Rightarrow> ('cb, 'pl) gw_state \<Rightarrow> js_error + ('cb, 'pl) gw_state" where
  "add_dirty_routers_by_policy refs st =
     (case refs of
        None \<Rightarrow> Inl TypeError
      | Some rs \<Rightarrow>
          (let dirty = map tr_name (filter (\<lambda>r. tr_kind r = Some ''Backend'') rs)
           in Inr (foldl (\<lambda>st r. if list_ex (\<lambda>bn. bn \<in> set dirty) (backend_names r)
                                 then add_dirty_routers (parent_refs r) st else st)
                     st (all_route_resources (gs_store st)))))"

definition add_dirty_policy :: "resource \<Rightarrow> ('cb, 'pl) gw_state \<Rightarrow> ('cb, 'pl) gw_state" where
  "add_dirty_policy p st =
     (case Option.bind (r_spec p) sp_targetRefs of
        None \<Rightarrow> st
      | Some refs \<Rightarrow>
          st\<lparr>gs_policies := foldl (\<lambda>ks r. add_new (r_kind p, tr_kind r, tr_name r) ks)
                              (gs_policies st) refs\<rparr>)"

definition add_named ::
    "(string \<Rightarrow> ('cb, 'pl) gw_state \<Rightarrow> ('cb, 'pl) gw_state) \<Rightarrow> string option \<Rightarrow>
     ('cb, 'pl) gw_state \<Rightarrow> ('cb, 'pl) gw_state" where
  "add_named add name st = (if truthy name then add (the name) st else st)"

text \<open>
  \<open>onResourceChange\<close>: a notice of two missing resources is never sent (see \<open>changeFile\<close>), and
  would raise. The two resources of a notice are different objects, so \<open>res !== oldResource\<close>
  tests that there is a new one.
\<close>

definition on_resource_change ::
    "notice \<Rightarrow> ('cb, 'pl) gw_state \<Rightarrow> js_error + ('cb, 'pl) gw_state" where
  "on_resource_change n st =
     (let (new, old) = n; res = (if new \<noteq> None then new else old) in
      case res of
        None \<Rightarrow> Inl TypeError
      | Some r \<Rightarrow>
          bind_res
            (let k = r_kind r;
                 newName = Option.bind new r_name;
                 oldName = Option.bind old r_name;
                 both = (old \<noteq> None \<and> new \<noteq> None)
             in if k = Some ''Gateway'' then
                  Inr (add_named add_dirty_gateway oldName (add_named add_dirty_gateway newName st))
                else if k \<in> Some ` {''HTTPRoute'', ''GRPCRoute'', ''TCPRoute'', ''TLSRoute'', ''UDPRoute''} then
                  (let st1 = add_dirty_routers (parent_refs r) st
                   in Inr (if both then add_dirty_routers (parent_refs (the old)) st1 else st1))
                else if k \<in> Some ` {''BackendLBPolicy'', ''BackendTLSPolicy''} then
                  bind_res (add_dirty_routers_by_policy (Option.bind (r_spec r) sp_targetRefs) st)
                    (\<lambda>st1. if both
                           then add_dirty_routers_by_policy (Option.bind (r_spec (the old)) sp_targetRefs) st1
                           else Inr st1)
                else if k = Some ''HealthCheckPolicy'' then
                  (let st1 = add_dirty_policy r st
                   in Inr (if both then add_dirty_policy (the old) st1 else st1))
                else if k = Some ''Backend'' then
                  Inr (add_named add_dirty_backend oldName (add_named add_dirty_backend newName st))
                else Inr (st\<lparr>gs_resources := gs_resources st @ [(k, new, old)]\<rparr>))
            (\<lambda>st'. Inr (st'\<lparr>gs_armed := True\<rparr>)))"


subsection \<open>The deferred update\<close>

text \<open>\<open>resources.runUpdaters\<close> on the gateway's state.\<close>

definition run_upd ::
    "('cb, 'pl) gw_env \<Rightarrow> string \<Rightarrow> string option \<Rightarrow> upd_args \<Rightarrow> ('cb, 'pl) gw_state \<Rightarrow>
     ('cb, 'pl) gw_state" where
  "run_upd env k key args st =
     st\<lparr>gs_store := snd (run_updaters (ge_exec env args) k key (gs_store st))\<rparr>"

definition update_backends :: "('cb, 'pl) gw_env \<Rightarrow> ('cb, 'pl) gw_state \<Rightarrow> ('cb, 'pl) gw_state" where
  "update_backends env st =
     foldl (\<lambda>st b. run_upd env ''Backend'' (Some b) NoArgs st) st (gs_backends st)"

definition refresh_listener :: "resource \<Rightarrow> nat option \<Rightarrow> string option \<Rightarrow> listener option" where
  "refresh_listener gw port section =
     (case r_spec gw of
        None \<Rightarrow> None
      | Some sp \<Rightarrow>
          find (\<lambda>l. (l_name l = section \<and> truthy section) \<or> Some (l_port l) = port) (sp_listeners sp))"

definition update_router ::
    "('cb, 'pl) gw_env \<Rightarrow> (resource option \<Rightarrow> js_error + bool) \<Rightarrow> resource list \<Rightarrow> router_ref \<Rightarrow>
     ('cb, 'pl) gw_state \<Rightarrow> js_error + ('cb, 'pl) gw_state" where
  "update_router env gatewayFilter gateways ref st =
     (let (kind, name, port, section) = ref in
      if kind \<noteq> Some ''Gateway'' then Inr st
      else
        (let gw = find (\<lambda>gw. r_name gw = name) gateways in
         bind_res (gatewayFilter gw) (\<lambda>ok.
           if \<not> ok then Inr st
           else (case gw of
                   None \<Rightarrow> Inr st
                 | Some g \<Rightarrow>
                     (case refresh_listener g port section of
                        None \<Rightarrow> Inr st
                      | Some l \<Rightarrow>
                          Inr (run_upd env ''Route'' (Some (make_router_key g (make_listener_key l)))
                                 (RouteArgs l (find_route_resources (gs_store st) g l)) st))))))"

fun update_routers ::
    "('cb, 'pl) gw_env \<Rightarrow> (resource option \<Rightarrow> js_error + bool) \<Rightarrow> resource list \<Rightarrow>
     router_ref list \<Rightarrow> ('cb, 'pl) gw_state \<Rightarrow> (js_error + unit) \<times> ('cb, 'pl) gw_state" where
  "update_routers env gatewayFilter gateways [] st = (Inr (), st)"
| "update_routers env gatewayFilter gateways (r # rs) st =
     (case update_router env gatewayFilter gateways r st of
        Inl e \<Rightarrow> (Inl e, st)
      | Inr st' \<Rightarrow> update_routers env gatewayFilter gateways rs st')"

definition update_policies :: "('cb, 'pl) gw_env \<Rightarrow> ('cb, 'pl) gw_state \<Rightarrow> ('cb, 'pl) gw_state" where
  "update_policies env st =
     foldl (\<lambda>st (kind, refKind, refName).
        case kind of None \<Rightarrow> st | Some k \<Rightarrow> run_upd env k refName NoArgs st) st (gs_policies st)"

text \<open>One listener of a gateway: reopened when its gateway is dirty; a raise is caught.\<close>

definition relisten ::
    "('cb, 'pl) gw_env \<Rightarrow> resource \<Rightarrow> bool \<Rightarrow> key list \<times> ('cb, 'pl) gw_state \<Rightarrow> listener \<Rightarrow>
     key list \<times> ('cb, 'pl) gw_state" where
  "relisten env gw isUpdated ks_st l =
     (let (ks, st) = ks_st in
      if isUpdated then
        (case make_listener env gw l st of
           (Inl e, st') \<Rightarrow> (ks, st')
         | (Inr k, st') \<Rightarrow> (add_key k ks, st'))
      else (add_key (make_listener_key l) ks, st))"

fun relisten_gateways ::
    "('cb, 'pl) gw_env \<Rightarrow> (resource option \<Rightarrow> js_error + bool) \<Rightarrow> resource list \<Rightarrow>
     key list \<times> ('cb, 'pl) gw_state \<Rightarrow> (js_error + key list) \<times> ('cb, 'pl) gw_state" where
  "relisten_gateways env gatewayFilter [] (ks, st) = (Inr ks, st)"
| "relisten_gateways env gatewayFilter (gw # gws) (ks, st) =
     (if \<not> truthy (r_name gw) then relisten_gateways env gatewayFilter gws (ks, st)
      else (case gatewayFilter (Some gw) of
              Inl e \<Rightarrow> (Inl e, st)
            | Inr False \<Rightarrow> relisten_gateways env gatewayFilter gws (ks, st)
            | Inr True \<Rightarrow>
                (case r_spec gw of
                   None \<Rightarrow> (Inl TypeError, st)
                 | Some sp \<Rightarrow>
                     relisten_gateways env gatewayFilter gws
                       (foldl (relisten env gw (the (r_name gw) \<in> set (gs_gateways st))) (ks, st)
                          (sp_listeners sp)))))"

definition close_stale :: "key list \<Rightarrow> ('cb, 'pl) gw_state \<Rightarrow> ('cb, 'pl) gw_state" where
  "close_stale updated st =
     st\<lparr>gs_cmds := gs_cmds st @
          map Unlisten (filter (\<lambda>k. \<not> list_ex (\<lambda>k'. is_identical k' k) updated) (gs_current st)),
        gs_current := updated\<rparr>"

definition update_gateways ::
    "('cb, 'pl) gw_env \<Rightarrow> (resource option \<Rightarrow> js_error + bool) \<Rightarrow> resource list \<Rightarrow>
     ('cb, 'pl) gw_state \<Rightarrow> (js_error + unit) \<times> ('cb, 'pl) gw_state" where
  "update_gateways env gatewayFilter gateways st =
     (if gs_gateways st = [] then (Inr (), st)
      else (case relisten_gateways env gatewayFilter gateways ([], st) of
              (Inl e, st') \<Rightarrow> (Inl e, st')
            | (Inr updated, st') \<Rightarrow> (Inr (), close_stale updated st')))"

definition update_resources :: "('cb, 'pl) gw_env \<Rightarrow> ('cb, 'pl) gw_state \<Rightarrow> ('cb, 'pl) gw_state" where
  "update_resources env st =
     foldl (\<lambda>st (kind, n).
        case kind of None \<Rightarrow> st | Some k \<Rightarrow> run_upd env k None (NoticeArgs n) st) st (gs_resources st)"

definition clear_dirty :: "('cb, 'pl) gw_state \<Rightarrow> ('cb, 'pl) gw_state" where
  "clear_dirty st =
     st\<lparr>gs_gateways := [], gs_routers := [], gs_backends := [], gs_policies := [], gs_resources := []\<rparr>"

text \<open>\<open>updateDirtyResources\<close>: a raise ends it before the lists are emptied.\<close>

definition update_dirty_resources ::
    "('cb, 'pl) gw_env \<Rightarrow> (resource option \<Rightarrow> js_error + bool) \<Rightarrow> ('cb, 'pl) gw_state \<Rightarrow>
     (js_error + unit) \<times> ('cb, 'pl) gw_state" where
  "update_dirty_resources env gatewayFilter st =
     (let gateways = list_resources (gs_store st) ''Gateway'';
          st1 = update_backends env st
      in case update_routers env gatewayFilter gateways (gs_routers st1) st1 of
           (Inl e, st2) \<Rightarrow> (Inl e, st2)
         | (Inr _, st2) \<Rightarrow>
             (case update_gateways env gatewayFilter gateways (update_policies env st2) of
                (Inl e, st3) \<Rightarrow> (Inl e, st3)
              | (Inr _, st3) \<Rightarrow> (Inr (), clear_dirty (update_resources env st3))))"

text \<open>
  The default filter of \<open>makeResourceWatcher\<close>, and the one that \<open>main.ztm.js\<close> passes: it reads
  \<open>gw.spec\<close>, so a missing gateway makes it raise.
\<close>

definition any_gateway :: "resource option \<Rightarrow> js_error + bool" where
  "any_gateway gw = Inr True"

definition is_local_gateway :: "endpoint \<Rightarrow> resource option \<Rightarrow> js_error + bool" where
  "is_local_gateway here gw =
     (case gw of
        None \<Rightarrow> Inl TypeError
      | Some g \<Rightarrow>
          (let ep = Option.bind (r_spec g) sp_endpoint;
               id' = Option.bind ep ep_id
           in if truthy id' then Inr (id' = ep_id here)
              else Inr (Option.bind ep ep_name = ep_name here)))"

subsection \<open>Frames\<close>

lemma run_upd_frame [simp]:
  "gs_current (run_upd env k key a st) = gs_current st"
  "gs_gateways (run_upd env k key a st) = gs_gateways st"
  "gs_routers (run_upd env k key a st) = gs_routers st"
  "gs_backends (run_upd env k key a st) = gs_backends st"
  "gs_policies (run_upd env k key a st) = gs_policies st"
  "gs_resources (run_upd env k key a st) = gs_resources st"
  "gs_cmds (run_upd env k key a st) = gs_cmds st"
  by (simp_all add: run_upd_def)

text \<open>Everything but the store and the timer.\<close>

definition frame :: "('cb, 'pl) gw_state \<Rightarrow>
    key list \<times> string list \<times> router_ref list \<times> string list \<times>
    (string option \<times> string option \<times> string option) list \<times> (string option \<times> notice) list \<times>
    'pl listen_cmd list" where
  "frame st = (gs_current st, gs_gateways st, gs_routers st, gs_backends st, gs_policies st,
     gs_resources st, gs_cmds st)"

lemma frame_run_upd [simp]: "frame (run_upd env k key a st) = frame st"
  by (simp add: frame_def)

lemma frame_foldl:
  "(\<And>st x. frame (f st x) = frame st) \<Longrightarrow> frame (foldl f st xs) = frame st"
  by (induction xs arbitrary: st) auto

lemma frame_updates [simp]:
  "frame (update_backends env st) = frame st"
  "frame (update_policies env st) = frame st"
  "frame (update_resources env st) = frame st"
  unfolding update_backends_def update_policies_def update_resources_def
  by (intro frame_foldl; auto split: option.splits)+

lemma frame_update_router:
  "update_router env flt gws r st = Inr st' \<Longrightarrow> frame st' = frame st"
  by (auto simp: update_router_def bind_res_Inr_iff Let_def split: prod.splits if_splits option.splits)

lemma frame_update_routers [simp]: "frame (snd (update_routers env flt gws rs st)) = frame st"
proof (induction rs arbitrary: st)
  case (Cons r rs)
  show ?case
    by (cases "update_router env flt gws r st") (auto simp: Cons.IH dest: frame_update_router)
qed simp

subsection \<open>Open ports\<close>

definition opened :: "'pl listen_cmd list \<Rightarrow> key set" where
  "opened cmds = foldl (\<lambda>S c. case c of Listen k _ \<Rightarrow> insert k S | Unlisten k \<Rightarrow> S - {k}) {} cmds"

lemma opened_snoc [simp]:
  "opened (cs @ [Listen k pls]) = insert k (opened cs)"
  "opened (cs @ [Unlisten k]) = opened cs - {k}"
  by (simp_all add: opened_def)

lemma opened_unlistens: "opened (cs @ map Unlisten ks) = opened cs - set ks"
proof (induction ks rule: rev_induct)
  case (snoc k ks)
  then show ?case using opened_snoc(2) [of "cs @ map Unlisten ks" k] by auto
qed simp

lemma set_add_key [simp]: "set (add_key k ks) = insert k (set ks)"
  by (auto simp: add_key_def list_ex_iff)

lemma distinct_add_key [simp]: "distinct ks \<Longrightarrow> distinct (add_key k ks)"
  by (auto simp: add_key_def list_ex_iff)

lemma make_listener_ok:
  "make_listener env gw l st = (Inr k, st') \<Longrightarrow>
   k = make_listener_key l \<and> (\<exists>pls. gs_cmds st' = gs_cmds st @ [Listen k pls]) \<and>
   gs_current st' = gs_current st \<and> gs_gateways st' = gs_gateways st"
  by (auto simp: make_listener_def Let_def split: sum.splits prod.splits)

lemma make_listener_err:
  "make_listener env gw l st = (Inl e, st') \<Longrightarrow>
   gs_cmds st' = gs_cmds st \<and> gs_current st' = gs_current st \<and> gs_gateways st' = gs_gateways st"
  by (auto simp: make_listener_def Let_def split: sum.splits prod.splits)

definition ports_ok :: "('cb, 'pl) gw_state \<Rightarrow> bool" where
  "ports_ok st \<longleftrightarrow> opened (gs_cmds st) \<subseteq> set (gs_current st) \<and> distinct (gs_current st)"

lemma start_listener_ports: "ports_ok st \<Longrightarrow> ports_ok (start_listener env gw l st)"
proof -
  assume ok: "ports_ok st"
  obtain r st' where m: "make_listener env gw l st = (r, st')" by force
  show ?thesis
  proof (cases r)
    case (Inl e)
    then show ?thesis
      using ok m make_listener_err [of env gw l st e st'] by (simp add: start_listener_def ports_ok_def)
  next
    case (Inr k)
    then show ?thesis
      using ok m make_listener_ok [of env gw l st k st']
      by (auto simp: start_listener_def ports_ok_def)
  qed
qed

lemma start_gateway_ports:
  "ports_ok st \<Longrightarrow> ports_ok (snd (start_gateway env gw st))"
proof -
  assume ok: "ports_ok st"
  have "ports_ok (foldl (\<lambda>st l. start_listener env gw l st) st ls)" for ls
    using ok by (induction ls arbitrary: st) (simp_all add: start_listener_ports)
  then show ?thesis using ok by (simp add: start_gateway_def split: option.splits)
qed


text \<open>The keys that the listeners of a gateway ask for.\<close>

definition gateway_keys :: "resource \<Rightarrow> key set" where
  "gateway_keys gw =
     (case r_spec gw of None \<Rightarrow> {} | Some sp \<Rightarrow> make_listener_key ` set (sp_listeners sp))"

text \<open>What one round of listeners may change: ports are only opened, and each one is recorded.\<close>

definition grows ::
    "key list \<times> ('cb, 'pl) gw_state \<Rightarrow> key list \<times> ('cb, 'pl) gw_state \<Rightarrow> key set \<Rightarrow> bool" where
  "grows a b K \<longleftrightarrow>
     set (fst a) \<subseteq> set (fst b) \<and> set (fst b) \<subseteq> set (fst a) \<union> K \<and>
     (distinct (fst a) \<longrightarrow> distinct (fst b)) \<and>
     opened (gs_cmds (snd a)) \<subseteq> opened (gs_cmds (snd b)) \<and>
     opened (gs_cmds (snd b)) \<subseteq> opened (gs_cmds (snd a)) \<union> set (fst b) \<and>
     gs_current (snd b) = gs_current (snd a) \<and> gs_gateways (snd b) = gs_gateways (snd a)"

lemma grows_refl: "grows a a {}"
  by (auto simp: grows_def)

lemma grows_trans: "grows a b K \<Longrightarrow> grows b c L \<Longrightarrow> grows a c (K \<union> L)"
  unfolding grows_def by (elim conjE, intro conjI) (blast | simp)+

lemma grows_mono: "grows a b K \<Longrightarrow> K \<subseteq> L \<Longrightarrow> grows a b L"
  unfolding grows_def by blast

lemma relisten_grows: "grows a (relisten env gw upd a l) {make_listener_key l}"
proof -
  obtain ks st where a: "a = (ks, st)" by force
  obtain r st' where m: "make_listener env gw l st = (r, st')" by force
  show ?thesis
  proof (cases "upd")
    case False
    then show ?thesis by (auto simp: a relisten_def grows_def)
  next
    case True
    show ?thesis
    proof (cases r)
      case (Inl e)
      then show ?thesis using True m make_listener_err [of env gw l st e st']
        by (auto simp: a relisten_def grows_def)
    next
      case (Inr k)
      then show ?thesis using True m make_listener_ok [of env gw l st k st']
        by (auto simp: a relisten_def grows_def)
    qed
  qed
qed

lemma relisten_all_grows:
  "grows a (foldl (relisten env gw upd) a ls) (make_listener_key ` set ls)"
proof (induction ls arbitrary: a)
  case Nil
  show ?case using grows_refl by simp
next
  case (Cons l ls)
  have "grows a (relisten env gw upd a l) {make_listener_key l}" by (rule relisten_grows)
  from grows_trans [OF this Cons.IH] show ?case by (auto elim: grows_mono)
qed

lemma relisten_clean:
  "\<not> upd \<Longrightarrow> make_listener_key ` set ls \<subseteq> set (fst (foldl (relisten env gw upd) a ls))"
proof (induction ls arbitrary: a)
  case (Cons l ls)
  have "make_listener_key l \<in> set (fst (relisten env gw upd a l))"
    using Cons.prems by (simp add: relisten_def case_prod_beta)
  moreover have "set (fst (relisten env gw upd a l)) \<subseteq>
      set (fst (foldl (relisten env gw upd) (relisten env gw upd a l) ls))"
    using relisten_all_grows unfolding grows_def by blast
  ultimately show ?case using Cons by auto
qed simp

definition all_keys :: "(resource option \<Rightarrow> js_error + bool) \<Rightarrow> resource list \<Rightarrow> key set" where
  "all_keys flt gws =
     (\<Union>gw \<in> {gw \<in> set gws. truthy (r_name gw) \<and> flt (Some gw) = Inr True}. gateway_keys gw)"

lemma relisten_gateways_grows:
  "relisten_gateways env flt gws (ks, st) = (Inr ks', st') \<Longrightarrow>
   grows (ks, st) (ks', st') (all_keys flt gws)"
proof (induction gws arbitrary: ks st)
  case Nil
  then show ?case by (auto simp: grows_def)
next
  case (Cons gw gws)
  have sub: "all_keys flt gws \<subseteq> all_keys flt (gw # gws)" by (auto simp: all_keys_def)
  show ?case
  proof (cases "truthy (r_name gw) \<and> flt (Some gw) = Inr True")
    case False
    then have "relisten_gateways env flt gws (ks, st) = (Inr ks', st')"
      using Cons.prems by (auto split: sum.splits bool.splits if_splits)
    then show ?thesis using Cons.IH sub grows_mono by blast
  next
    case True
    then obtain sp where sp: "r_spec gw = Some sp"
      using Cons.prems by (auto split: option.splits)
    let ?b = "foldl (relisten env gw (the (r_name gw) \<in> set (gs_gateways st))) (ks, st) (sp_listeners sp)"
    obtain kb sb where b: "?b = (kb, sb)" by force
    have "relisten_gateways env flt gws (kb, sb) = (Inr ks', st')"
      using Cons.prems True sp b by simp
    then have "grows (kb, sb) (ks', st') (all_keys flt gws)" by (rule Cons.IH)
    moreover have "grows (ks, st) (kb, sb) (gateway_keys gw)"
      using relisten_all_grows [of "(ks, st)" env gw _ "sp_listeners sp"] b sp
      by (metis gateway_keys_def option.simps(5))
    ultimately have "grows (ks, st) (ks', st') (gateway_keys gw \<union> all_keys flt gws)"
      by (blast intro: grows_trans)
    then show ?thesis
      by (rule grows_mono) (use True in \<open>auto simp: all_keys_def\<close>)
  qed
qed

lemma relisten_gateways_clean:
  "relisten_gateways env flt gws (ks, st) = (Inr ks', st') \<Longrightarrow> gw \<in> set gws \<Longrightarrow>
   truthy (r_name gw) \<Longrightarrow> flt (Some gw) = Inr True \<Longrightarrow> the (r_name gw) \<notin> set (gs_gateways st) \<Longrightarrow>
   gateway_keys gw \<subseteq> set ks'"
proof (induction gws arbitrary: ks st)
  case (Cons g gws)
  show ?case
  proof (cases "truthy (r_name g) \<and> flt (Some g) = Inr True")
    case False
    then have "gw \<noteq> g" and "relisten_gateways env flt gws (ks, st) = (Inr ks', st')"
      using Cons.prems by (auto split: sum.splits bool.splits if_splits)
    then show ?thesis using Cons.IH Cons.prems by auto
  next
    case True
    then obtain sp where sp: "r_spec g = Some sp"
      using Cons.prems(1) by (auto split: option.splits)
    let ?b = "foldl (relisten env g (the (r_name g) \<in> set (gs_gateways st))) (ks, st) (sp_listeners sp)"
    obtain kb sb where b: "?b = (kb, sb)" by force
    have rest: "relisten_gateways env flt gws (kb, sb) = (Inr ks', st')"
      using Cons.prems(1) True sp b by simp
    have "grows (ks, st) (kb, sb) (make_listener_key ` set (sp_listeners sp))"
      using relisten_all_grows [of "(ks, st)" env g _ "sp_listeners sp"] b by metis
    then have g: "gs_gateways sb = gs_gateways st" by (simp add: grows_def)
    show ?thesis
    proof (cases "gw = g")
      case True
      have "make_listener_key ` set (sp_listeners sp) \<subseteq> set kb"
        using relisten_clean [of "the (r_name g) \<in> set (gs_gateways st)" "sp_listeners sp" env g "(ks, st)"]
          b Cons.prems(5) True by simp
      moreover have "set kb \<subseteq> set ks'"
        using relisten_gateways_grows [OF rest] by (simp add: grows_def)
      ultimately show ?thesis using sp True by (simp add: gateway_keys_def)
    next
      case False
      then show ?thesis using Cons.IH [OF rest] Cons.prems g by simp
    qed
  qed
qed simp

lemma update_gateways_ports:
  assumes ok: "ports_ok st" and upd: "update_gateways env flt gws st = (Inr (), st')"
    and dirty: "gs_gateways st \<noteq> []"
  shows "opened (gs_cmds st') \<subseteq> set (gs_current st') \<and> distinct (gs_current st') \<and>
         set (gs_current st') \<subseteq> all_keys flt gws \<and>
         (\<forall>gw \<in> set gws. truthy (r_name gw) \<longrightarrow> flt (Some gw) = Inr True \<longrightarrow>
            the (r_name gw) \<notin> set (gs_gateways st) \<longrightarrow>
            gateway_keys gw \<inter> opened (gs_cmds st) \<subseteq> opened (gs_cmds st'))"
proof -
  obtain ks st1 where r: "relisten_gateways env flt gws ([], st) = (Inr ks, st1)"
    and st': "st' = close_stale ks st1"
    using upd dirty by (auto simp: update_gateways_def split: prod.splits sum.splits)
  note g = relisten_gateways_grows [OF r, unfolded grows_def fst_conv snd_conv]
  have op: "opened (gs_cmds st') = opened (gs_cmds st1) - (set (gs_current st) - set ks)"
    using g by (auto simp: st' close_stale_def opened_unlistens list_ex_iff)
  have cur: "gs_current st' = ks" by (simp add: st' close_stale_def)
  have "gateway_keys gw \<inter> opened (gs_cmds st) \<subseteq> opened (gs_cmds st')"
    if "gw \<in> set gws" "truthy (r_name gw)" "flt (Some gw) = Inr True"
      "the (r_name gw) \<notin> set (gs_gateways st)" for gw
    using relisten_gateways_clean [OF r that] g unfolding op by blast
  then show ?thesis using g ok unfolding cur op ports_ok_def by (intro conjI) auto
qed

lemma frame_parts:
  "frame st = frame st' \<Longrightarrow> gs_current st = gs_current st' \<and> gs_gateways st = gs_gateways st' \<and>
     gs_routers st = gs_routers st' \<and> gs_policies st = gs_policies st' \<and>
     gs_resources st = gs_resources st' \<and> gs_cmds st = gs_cmds st' \<and> gs_backends st = gs_backends st'"
  by (simp add: frame_def)

text \<open>C2: Reconciliation of the listeners. After an update with dirty gateways every open port is
  listed as a current listener, the list has no duplicates, and each of its keys is asked for by
  a named gateway that passes the filter (so ports of deleted gateways and listeners are
  closed); and no open port of a gateway that is not dirty is closed.\<close>

theorem listeners_reconciled:
  assumes "ports_ok st" "gs_gateways st \<noteq> []"
    and "update_dirty_resources env flt st = (Inr (), st')"
    and "gws = list_resources (gs_store st) ''Gateway''"
  shows "opened (gs_cmds st') \<subseteq> set (gs_current st') \<and> distinct (gs_current st') \<and>
         set (gs_current st') \<subseteq> all_keys flt gws \<and>
         (\<forall>gw \<in> set gws. truthy (r_name gw) \<longrightarrow> flt (Some gw) = Inr True \<longrightarrow>
            the (r_name gw) \<notin> set (gs_gateways st) \<longrightarrow>
            gateway_keys gw \<inter> opened (gs_cmds st) \<subseteq> opened (gs_cmds st'))"
proof -
  let ?st1 = "update_backends env st"
  obtain st2 where s2: "update_routers env flt gws (gs_routers ?st1) ?st1 = (Inr (), st2)"
    using assms(3,4) by (auto simp: update_dirty_resources_def Let_def split: prod.splits sum.splits)
  then obtain st3 where s3: "update_gateways env flt gws (update_policies env st2) = (Inr (), st3)"
    and st': "st' = clear_dirty (update_resources env st3)"
    using assms(3,4) by (auto simp: update_dirty_resources_def Let_def split: prod.splits sum.splits)
  have "frame (update_policies env st2) = frame st"
    using frame_update_routers [of env flt gws "gs_routers ?st1" ?st1] s2 by simp
  note f = frame_parts [OF this]
  have f3: "gs_current st' = gs_current st3 \<and> gs_cmds st' = gs_cmds st3"
    using frame_parts [of "update_resources env st3" st3] by (simp add: st' clear_dirty_def)
  show ?thesis
    using update_gateways_ports [OF _ s3] assms(1,2) f f3 by (simp add: ports_ok_def)
qed


text \<open>An example: a gateway \<open>gw\<close> that asks for port 80, while port 81 is open.\<close>

definition ex_env :: "(nat, string) gw_env" where
  "ex_env = \<lparr>ge_router = \<lambda>path k l rs gw s. (Inr path, s), ge_terminate = \<lambda>l. Inr ''tls'',
     ge_filters = \<lambda>p fs. Inr [], ge_exec = \<lambda>a f s. s\<rparr>"

definition ex_listener :: listener where
  "ex_listener = no_listener\<lparr>l_port := 80, l_protocol := ''HTTP''\<rparr>"

definition ex_gateway :: resource where
  "ex_gateway = \<lparr>r_obj = 1, r_kind = Some ''Gateway'', r_name = Some ''gw'',
     r_spec = Some (no_spec\<lparr>sp_listeners := [ex_listener]\<rparr>)\<rparr>"

definition ex_state :: "(nat, string) gw_state" where
  "ex_state = \<lparr>gs_store = append_resource ex_gateway empty_store,
     gs_current = [[''0.0.0.0:81'', ''tcp'']], gs_gateways = [''gw''], gs_routers = [],
     gs_backends = [], gs_policies = [], gs_resources = [], gs_armed = True,
     gs_cmds = [Listen [''0.0.0.0:81'', ''tcp''] []]\<rparr>"

lemma ex_gateways: "list_resources (gs_store ex_state) ''Gateway'' = [ex_gateway]"
  by (simp add: ex_state_def ex_gateway_def)
    (simp add: list_resources_def kind_map_of_def no_kind_map_def empty_store_def)

lemma ex_make_listener:
  "make_listener ex_env ex_gateway ex_listener st =
     (Inr [''0.0.0.0:80'', ''tcp''],
      st\<lparr>gs_cmds := gs_cmds st @ [Listen [''0.0.0.0:80'', ''tcp''] [''./modules/router-http.js'']]\<rparr>)"
  by (simp add: make_listener_def make_listener_key_def route_module_def ex_env_def
      ex_listener_def no_listener_def nat_str.simps digit_char_def Let_def)

lemma ex_update:
  "update_dirty_resources ex_env any_gateway ex_state =
     (Inr (), clear_dirty (ex_state\<lparr>gs_current := [[''0.0.0.0:80'', ''tcp'']],
        gs_cmds := gs_cmds ex_state @ [Listen [''0.0.0.0:80'', ''tcp''] [''./modules/router-http.js''],
          Unlisten [''0.0.0.0:81'', ''tcp'']]\<rparr>))"
proof -
  have d: "gs_gateways ex_state = [''gw'']" "gs_routers ex_state = []" "gs_backends ex_state = []"
    "gs_policies ex_state = []" "gs_resources ex_state = []"
    "gs_current ex_state = [[''0.0.0.0:81'', ''tcp'']]"
    by (simp_all add: ex_state_def)
  have g: "r_name ex_gateway = Some ''gw''"
    "r_spec ex_gateway = Some (no_spec\<lparr>sp_listeners := [ex_listener]\<rparr>)"
    by (simp_all add: ex_gateway_def)
  show ?thesis
    unfolding update_dirty_resources_def ex_gateways
    by (simp add: d g update_backends_def update_policies_def update_resources_def
        update_gateways_def any_gateway_def relisten_def ex_make_listener add_key_def
        close_stale_def clear_dirty_def)
qed

lemma listeners_reconciled_witness:
  "opened (gs_cmds (snd (update_dirty_resources ex_env any_gateway ex_state)))
     \<subseteq> {[''0.0.0.0:80'', ''tcp'']}"
proof -
  have "ports_ok ex_state"
    by (simp add: ports_ok_def ex_state_def opened_def)
  moreover have "gs_gateways ex_state \<noteq> []" by (simp add: ex_state_def)
  ultimately show ?thesis
    using listeners_reconciled [OF _ _ ex_update refl] by (simp add: ex_update clear_dirty_def)
qed


subsection \<open>Dirty lists\<close>

definition dirty_ok :: "('cb, 'pl) gw_state \<Rightarrow> bool" where
  "dirty_ok st \<longleftrightarrow> distinct (gs_gateways st) \<and> distinct (gs_routers st) \<and>
     distinct (gs_backends st) \<and> distinct (gs_policies st)"

lemma distinct_add_new [simp]: "distinct ks \<Longrightarrow> distinct (add_new k ks)"
  by (simp add: add_new_def)

lemma set_add_new [simp]: "set (add_new k ks) = insert k (set ks)"
  by (auto simp: add_new_def)

lemma distinct_fold_new: "distinct ks \<Longrightarrow> distinct (foldl (\<lambda>ks r. add_new (f r) ks) ks rs)"
  by (induction rs arbitrary: ks) auto

lemma set_fold_new: "set (foldl (\<lambda>ks r. add_new (f r) ks) ks rs) = set ks \<union> f ` set rs"
  by (induction rs arbitrary: ks) auto


lemma dirty_ok_gateway: "dirty_ok st \<Longrightarrow> dirty_ok (add_named add_dirty_gateway n st)"
  by (auto simp: dirty_ok_def add_named_def add_dirty_gateway_def)

lemma dirty_ok_backend: "dirty_ok st \<Longrightarrow> dirty_ok (add_named add_dirty_backend n st)"
  by (auto simp: dirty_ok_def add_named_def add_dirty_backend_def)

lemma dirty_ok_routers: "dirty_ok st \<Longrightarrow> dirty_ok (add_dirty_routers refs st)"
  by (auto simp: dirty_ok_def add_dirty_routers_def distinct_fold_new split: option.splits)

lemma dirty_ok_policy: "dirty_ok st \<Longrightarrow> dirty_ok (add_dirty_policy p st)"
  by (auto simp: dirty_ok_def add_dirty_policy_def distinct_fold_new split: option.splits)

lemma dirty_ok_by_policy:
  assumes "dirty_ok st" "add_dirty_routers_by_policy refs st = Inr st'"
  shows "dirty_ok st'"
proof -
  have "dirty_ok (foldl (\<lambda>st r. if P r then add_dirty_routers (parent_refs r) st else st) st rs)"
    for P rs
    using assms(1) by (induction rs arbitrary: st) (auto simp: dirty_ok_routers)
  then show ?thesis
    using assms(2) by (auto simp: add_dirty_routers_by_policy_def Let_def split: option.splits)
qed

lemmas dirty_ok_intros = dirty_ok_gateway dirty_ok_backend dirty_ok_routers dirty_ok_policy

lemma dirty_ok_change:
  assumes ok: "dirty_ok st" and c: "on_resource_change n st = Inr st'"
  shows "dirty_ok st'"
proof -
  obtain new old where n: "n = (new, old)" by force
  have armed: "dirty_ok (s\<lparr>gs_armed := b\<rparr>) = dirty_ok s"
    and res: "dirty_ok (s\<lparr>gs_resources := x\<rparr>) = dirty_ok s" for s :: "('a, 'b) gw_state" and b x
    by (simp_all add: dirty_ok_def)
  show ?thesis
    using c ok
    by (auto simp: on_resource_change_def n Let_def bind_res_Inr_iff armed res dirty_ok_intros
        split: option.splits if_splits dest: dirty_ok_by_policy [rotated]
        intro: dirty_ok_by_policy [OF dirty_ok_by_policy])
qed

text \<open>Nothing is updated twice, and nothing is lost: whatever sequence of changes is
  noticed between two updates, the lists of dirty gateways, routers, backends and policies have
  no duplicates, and an update that ends normally empties all of them.\<close>

theorem dirty_lists_distinct:
  assumes "dirty_ok st"
    and "foldl (\<lambda>r n. bind_res r (on_resource_change n)) (Inr st) ns = Inr st1"
    and "update_dirty_resources env flt st1 = (Inr (), st2)"
  shows "dirty_ok st1 \<and> gs_gateways st2 = [] \<and> gs_routers st2 = [] \<and> gs_backends st2 = [] \<and>
         gs_policies st2 = [] \<and> gs_resources st2 = []"
proof
  have "foldl (\<lambda>r n. bind_res r (on_resource_change n)) q ns = Inr s1 \<Longrightarrow>
      \<forall>s. q = Inr s \<longrightarrow> dirty_ok s \<Longrightarrow> dirty_ok s1" for q :: "js_error + ('a, 'b) gw_state" and s1
  proof (induction ns arbitrary: q)
    case (Cons n ns)
    have "\<forall>s. bind_res q (on_resource_change n) = Inr s \<longrightarrow> dirty_ok s"
      using Cons.prems(2) by (auto simp: bind_res_Inr_iff dirty_ok_change)
    then show ?case using Cons.IH Cons.prems(1) by simp
  qed simp
  then show "dirty_ok st1" using assms by blast
  show "gs_gateways st2 = [] \<and> gs_routers st2 = [] \<and> gs_backends st2 = [] \<and>
         gs_policies st2 = [] \<and> gs_resources st2 = []"
    using assms(3)
    by (auto simp: update_dirty_resources_def clear_dirty_def Let_def split: prod.splits sum.splits)
qed

lemma dirty_lists_distinct_witness:
  "dirty_ok (ex_state\<lparr>gs_armed := True, gs_backends := [''b'']\<rparr>)"
proof -
  let ?b = "gw_b\<lparr>r_kind := Some ''Backend''\<rparr>"
  let ?st = "ex_state\<lparr>gs_backends := [''b'']\<rparr>"
  have c: "foldl (\<lambda>r n. bind_res r (on_resource_change n)) (Inr ?st) [(Some ?b, Some ?b)] =
      Inr (ex_state\<lparr>gs_armed := True, gs_backends := [''b'']\<rparr>)"
    by (simp add: on_resource_change_def gw_b_def add_named_def add_dirty_backend_def add_new_def
        ex_state_def)
  have "dirty_ok ?st" by (simp add: dirty_ok_def ex_state_def)
  moreover have "\<exists>st2. update_dirty_resources ex_env any_gateway
      (ex_state\<lparr>gs_armed := True, gs_backends := [''b'']\<rparr>) = (Inr (), st2)"
  proof -
    have e: "update_backends ex_env (ex_state\<lparr>gs_armed := True, gs_backends := [''b'']\<rparr>) =
        ex_state\<lparr>gs_armed := True, gs_backends := [''b'']\<rparr>"
      by (simp add: update_backends_def run_upd_def ex_state_def ex_gateway_def run_updaters_def
          append_resource_def empty_store_def Let_def)
    have g: "list_resources (gs_store (ex_state\<lparr>gs_armed := True, gs_backends := [''b'']\<rparr>)) ''Gateway''
        = [ex_gateway]" using ex_gateways by simp
    have d: "gs_gateways ex_state = [''gw'']" "gs_routers ex_state = []"
      "gs_policies ex_state = []" "gs_resources ex_state = []"
      by (simp_all add: ex_state_def)
    have x: "r_name ex_gateway = Some ''gw''"
      "r_spec ex_gateway = Some (no_spec\<lparr>sp_listeners := [ex_listener]\<rparr>)"
      by (simp_all add: ex_gateway_def)
    show ?thesis
      unfolding update_dirty_resources_def g e
      by (simp add: d x update_policies_def update_gateways_def any_gateway_def relisten_def
          ex_make_listener)
  qed
  ultimately show ?thesis using dirty_lists_distinct [OF _ c] by blast
qed

subsection \<open>Routes\<close>

lemma update_routers_skip:
  "(\<forall>(kind, _) \<in> set rs. kind \<noteq> Some ''Gateway'') \<Longrightarrow>
   update_routers env flt gws rs st = (Inr (), st)"
  by (induction rs) (auto simp: update_router_def)

definition all_clean :: "('cb, 'pl) gw_state \<Rightarrow> bool" where
  "all_clean st \<longleftrightarrow> gs_gateways st = [] \<and> gs_routers st = [] \<and> gs_backends st = [] \<and>
     gs_policies st = [] \<and> gs_resources st = []"

text \<open>A route whose parent references leave out \<open>kind\<close> is served but never hot-updated:
  the listener takes it exactly as if the kind were \<open>Gateway\<close>, yet after a change of the route
  the update skips its references, runs no updater and leaves the whole state as it was.\<close>

theorem kindless_parent_ref_not_updated:
  assumes "all_clean st" "r_kind r = Some ''HTTPRoute''" "parent_refs r = Some refs"
    and "\<forall>p \<in> set refs. pr_kind p = None"
  shows "list_ex (attaches gw l) refs =
           list_ex (attaches gw l) (map (\<lambda>p. p\<lparr>pr_kind := Some ''Gateway''\<rparr>) refs) \<and>
         (\<exists>st1. on_resource_change (Some r, None) st = Inr st1 \<and>
            update_dirty_resources env flt st1 = (Inr (), st\<lparr>gs_armed := True\<rparr>))"
proof
  show "list_ex (attaches gw l) refs =
      list_ex (attaches gw l) (map (\<lambda>p. p\<lparr>pr_kind := Some ''Gateway''\<rparr>) refs)"
    using assms(4) by (auto simp: list_ex_iff attaches_def split: if_splits)
  let ?ks = "foldl (\<lambda>ks r. add_new (router_ref_of r) ks) [] refs"
  let ?st1 = "st\<lparr>gs_routers := ?ks, gs_armed := True\<rparr>"
  have c: "on_resource_change (Some r, None) st = Inr ?st1"
    using assms(1,2,3) by (simp add: on_resource_change_def add_dirty_routers_def all_clean_def)
  have "\<forall>(kind, _) \<in> set ?ks. kind \<noteq> Some ''Gateway''"
    using assms(4) by (auto simp: set_fold_new router_ref_of_def)
  note skip = update_routers_skip [OF this]
  have "update_dirty_resources env flt ?st1 = (Inr (), st\<lparr>gs_armed := True\<rparr>)"
    using assms(1)
    by (simp add: update_dirty_resources_def update_backends_def update_policies_def
        update_gateways_def update_resources_def clear_dirty_def all_clean_def Let_def skip)
  with c show "\<exists>st1. on_resource_change (Some r, None) st = Inr st1 \<and>
      update_dirty_resources env flt st1 = (Inr (), st\<lparr>gs_armed := True\<rparr>)" by blast
qed

definition ex_ref_kindless :: parent_ref where
  "ex_ref_kindless = \<lparr>pr_kind = None, pr_name = Some ''gw'', pr_port = Some 80, pr_section = None\<rparr>"

definition ex_route :: "string \<Rightarrow> parent_ref list \<Rightarrow> resource" where
  "ex_route k refs = \<lparr>r_obj = 5, r_kind = Some k, r_name = Some ''r'',
     r_spec = Some (no_spec\<lparr>sp_parentRefs := Some refs\<rparr>)\<rparr>"

definition ex_clean :: "(nat, string) gw_state" where
  "ex_clean = ex_state\<lparr>gs_gateways := []\<rparr>"

lemma ex_clean_ok: "all_clean ex_clean"
  by (simp add: all_clean_def ex_clean_def ex_state_def)

lemma kindless_parent_ref_not_updated_witness:
  "attaches ex_gateway ex_listener ex_ref_kindless \<and>
   (\<exists>st1. on_resource_change (Some (ex_route ''HTTPRoute'' [ex_ref_kindless]), None) ex_clean = Inr st1 \<and>
      update_dirty_resources ex_env any_gateway st1 = (Inr (), ex_clean\<lparr>gs_armed := True\<rparr>))"
  using kindless_parent_ref_not_updated [OF ex_clean_ok,
      of "ex_route ''HTTPRoute'' [ex_ref_kindless]" "[ex_ref_kindless]" ex_gateway ex_listener
      ex_env any_gateway]
  by (simp add: ex_route_def parent_refs_def ex_ref_kindless_def attaches_def ex_gateway_def
      ex_listener_def no_listener_def)


lemma attaches_first:
  assumes "attaches gw l p" "l \<in> set (sp_listeners sp)" "r_spec gw = Some sp"
  shows "\<exists>l'. refresh_listener gw (pr_port p) (pr_section p) = Some l' \<and> attaches gw l' p"
proof -
  let ?P = "\<lambda>l. (l_name l = pr_section p \<and> truthy (pr_section p)) \<or> Some (l_port l) = pr_port p"
  have "?P l" using assms(1) by (auto simp: attaches_def split: if_splits)
  then have "find ?P (sp_listeners sp) \<noteq> None"
    using assms(2) unfolding find_None by blast
  then obtain l' where f: "find ?P (sp_listeners sp) = Some l'" by auto
  then have "?P l'" using find_Some_in [OF f] by simp
  then have "attaches gw l' p" using assms(1) by (auto simp: attaches_def split: if_splits)
  with f show ?thesis by (simp add: refresh_listener_def assms(3))
qed


definition ex_ref :: parent_ref where
  "ex_ref = ex_ref_kindless\<lparr>pr_kind := Some ''Gateway''\<rparr>"


text \<open>Only the first of the listeners that a reference attaches is refreshed: of two
  listeners on the same port with different addresses both take the route, but a change of it
  runs the first one's updater only, under a different router key.\<close>

theorem second_listener_stale:
  assumes "find (\<lambda>g. r_name g = pr_name p) gws = Some gw" "r_spec gw = Some sp"
    and "sp_listeners sp = l1 # l2 # ls" "l_port l1 = l_port l2" "pr_port p = Some (l_port l1)"
    and "make_listener_key l1 ! 0 \<noteq> make_listener_key l2 ! 0" "l_protocol l1 = l_protocol l2"
    and "pr_kind p = Some ''Gateway''" "pr_name p = r_name gw" "flt (Some gw) = Inr True"
  shows "attaches gw l1 p \<and> attaches gw l2 p \<and>
         update_router env flt gws (router_ref_of p) st =
           Inr (run_upd env ''Route'' (Some (make_router_key gw (make_listener_key l1)))
                  (RouteArgs l1 (find_route_resources (gs_store st) gw l1)) st) \<and>
         make_router_key gw (make_listener_key l1) \<noteq> make_router_key gw (make_listener_key l2)"
proof (intro conjI)
  show "attaches gw l1 p" "attaches gw l2 p"
    using assms(4,5,8,9) by (simp_all add: attaches_def)
  have "refresh_listener gw (pr_port p) (pr_section p) = Some l1"
    using assms(2,3,5) by (simp add: refresh_listener_def)
  then show "update_router env flt gws (router_ref_of p) st =
      Inr (run_upd env ''Route'' (Some (make_router_key gw (make_listener_key l1)))
             (RouteArgs l1 (find_route_resources (gs_store st) gw l1)) st)"
    using assms by (simp add: update_router_def router_ref_of_def)
  have "\<exists>a b c. make_listener_key l1 = [a, c] \<and> make_listener_key l2 = [b, c]"
    using assms(7) by (auto simp: make_listener_key_def Let_def)
  then show "make_router_key gw (make_listener_key l1) \<noteq> make_router_key gw (make_listener_key l2)"
    using assms(6) by (auto simp: make_router_key_def)
qed

definition ex_listener2 :: listener where
  "ex_listener2 = ex_listener\<lparr>l_address := Some ''10.0.0.1''\<rparr>"

definition ex_gateway2 :: resource where
  "ex_gateway2 = ex_gateway\<lparr>r_spec := Some (no_spec\<lparr>sp_listeners := [ex_listener, ex_listener2]\<rparr>)\<rparr>"

lemma second_listener_stale_witness:
  "attaches ex_gateway2 ex_listener ex_ref \<and> attaches ex_gateway2 ex_listener2 ex_ref \<and>
   update_router ex_env any_gateway [ex_gateway2] (router_ref_of ex_ref) ex_clean =
     Inr (run_upd ex_env ''Route'' (Some (make_router_key ex_gateway2 (make_listener_key ex_listener)))
            (RouteArgs ex_listener (find_route_resources (gs_store ex_clean) ex_gateway2 ex_listener))
            ex_clean)"
proof -
  have "find (\<lambda>g. r_name g = pr_name ex_ref) [ex_gateway2] = Some ex_gateway2"
    "r_spec ex_gateway2 = Some (no_spec\<lparr>sp_listeners := [ex_listener, ex_listener2]\<rparr>)"
    "sp_listeners (no_spec\<lparr>sp_listeners := [ex_listener, ex_listener2]\<rparr>) = ex_listener # ex_listener2 # []"
    "l_port ex_listener = l_port ex_listener2" "pr_port ex_ref = Some (l_port ex_listener)"
    "make_listener_key ex_listener ! 0 \<noteq> make_listener_key ex_listener2 ! 0"
    "l_protocol ex_listener = l_protocol ex_listener2" "pr_kind ex_ref = Some ''Gateway''"
    "pr_name ex_ref = r_name ex_gateway2" "any_gateway (Some ex_gateway2) = Inr True"
    by (simp_all add: ex_ref_def ex_ref_kindless_def ex_gateway_def ex_gateway2_def any_gateway_def
        ex_listener_def ex_listener2_def no_listener_def make_listener_key_def Let_def)
  from second_listener_stale [where flt = any_gateway and gws = "[ex_gateway2]", OF this] show ?thesis by blast
qed

text \<open>C11: One reference to a missing gateway blocks every later update of the mesh version: the
  filter of \<open>main.ztm.js\<close> raises on a missing gateway, the update ends before gateways, policies
  and other resources are looked at, and no dirty list is emptied, so the next update raises
  again.\<close>

theorem missing_gateway_blocks_updates:
  assumes "(Some ''Gateway'', name, port, section) \<in> set (gs_routers st)"
    and "\<forall>gw \<in> set (list_resources (gs_store st) ''Gateway''). r_name gw \<noteq> name"
  shows "fst (update_dirty_resources env (is_local_gateway here) st) = Inl TypeError \<and>
         frame (snd (update_dirty_resources env (is_local_gateway here) st)) = frame st"
proof -
  let ?gws = "list_resources (gs_store st) ''Gateway''"
  let ?st1 = "update_backends env st"
  have none: "find (\<lambda>gw. r_name gw = name) ?gws = None"
    using assms(2) by (simp add: find_None)
  have step: "update_router env (is_local_gateway here) ?gws r s = Inl e \<Longrightarrow> e = TypeError"
    for r s and e and env :: "('a, 'b) gw_env"
    by (auto simp: update_router_def is_local_gateway_def Let_def
        split: prod.splits if_splits option.splits)
  have "(Some ''Gateway'', name, port, section) \<in> set rs \<Longrightarrow>
      fst (update_routers env (is_local_gateway here) ?gws rs s) = Inl TypeError" for rs s
  proof (induction rs arbitrary: s)
    case (Cons r rs)
    show ?case
    proof (cases "update_router env (is_local_gateway here) ?gws r s")
      case (Inl e)
      then show ?thesis using step [OF Inl] by simp
    next
      case (Inr s')
      then have "r \<noteq> (Some ''Gateway'', name, port, section)"
        by (auto simp: update_router_def none is_local_gateway_def)
      then show ?thesis using Cons Inr by auto
    qed
  qed simp
  moreover have "gs_routers ?st1 = gs_routers st"
    using frame_parts [OF frame_updates(1)] by blast
  ultimately have e: "fst (update_routers env (is_local_gateway here) ?gws (gs_routers ?st1) ?st1) =
      Inl TypeError" using assms(1) by simp
  obtain st2 where r: "update_routers env (is_local_gateway here) ?gws (gs_routers ?st1) ?st1 =
      (Inl TypeError, st2)"
    using e by (metis prod.collapse)
  have "frame st2 = frame st"
    using frame_update_routers [of env "is_local_gateway here" ?gws "gs_routers ?st1" ?st1] r by simp
  then show ?thesis using r by (simp add: update_dirty_resources_def Let_def)
qed

lemma missing_gateway_blocks_updates_witness:
  "fst (update_dirty_resources ex_env (is_local_gateway \<lparr>ep_id = None, ep_name = None\<rparr>)
     (ex_state\<lparr>gs_routers := [(Some ''Gateway'', Some ''gone'', None, None)]\<rparr>)) = Inl TypeError"
  using missing_gateway_blocks_updates
    [of "Some ''gone''" None None "ex_state\<lparr>gs_routers := [(Some ''Gateway'', Some ''gone'', None, None)]\<rparr>"
      ex_env "\<lparr>ep_id = None, ep_name = None\<rparr>"] ex_gateways
  by (simp add: ex_gateway_def)

text \<open>A change of a Dubbo route never reaches its router: the watcher has no case for
  \<open>DubboRoute\<close> and files it with the resources whose own updaters are run, of which there are
  none, so the update changes nothing.\<close>

theorem dubbo_route_not_updated:
  assumes "all_clean st" "r_kind r = Some ''DubboRoute''"
    and "obj_get (s_updaters (gs_store st)) ''DubboRoute'' = None"
  shows "\<exists>st1. on_resource_change (Some r, old) st = Inr st1 \<and>
           update_dirty_resources env flt st1 = (Inr (), st\<lparr>gs_armed := True\<rparr>)"
proof -
  let ?st1 = "st\<lparr>gs_resources := [(Some ''DubboRoute'', Some r, old)], gs_armed := True\<rparr>"
  have "on_resource_change (Some r, old) st = Inr ?st1"
    using assms(1,2) by (simp add: on_resource_change_def all_clean_def Let_def)
  moreover have "update_dirty_resources env flt ?st1 = (Inr (), st\<lparr>gs_armed := True\<rparr>)"
    using assms(1,3)
    by (simp add: update_dirty_resources_def update_backends_def update_policies_def
        update_gateways_def update_resources_def clear_dirty_def all_clean_def Let_def
        run_upd_def run_updaters_def)
  ultimately show ?thesis by blast
qed

lemma dubbo_route_not_updated_witness:
  "\<exists>st1. on_resource_change (Some (ex_route ''DubboRoute'' [ex_ref]), None) ex_clean = Inr st1 \<and>
     update_dirty_resources ex_env any_gateway st1 = (Inr (), ex_clean\<lparr>gs_armed := True\<rparr>)"
proof -
  have "obj_get (s_updaters (gs_store ex_clean)) ''DubboRoute'' = None"
    by (simp add: ex_clean_def ex_state_def append_resource_def ex_gateway_def empty_store_def Let_def)
  then show ?thesis
    using dubbo_route_not_updated [OF ex_clean_ok, of "ex_route ''DubboRoute'' [ex_ref]" None]
    by (simp add: ex_route_def)
qed

end
