(* ===== verification/Mesh_Config.thy ===== *)
theory Mesh_Config
  imports Gateway
begin

text \<open>
  The rest of \<open>src/main.ztm.js\<close>, the program inside a mesh: which gateways it starts, how it
  serves its users and peers, and the command \<open>config\<close> that copies a local directory to the
  resources in the mesh. The mesh is a map from paths to contents; \<open>os.path.join\<close>,
  \<open>os.readDir\<close>, \<open>os.stat\<close> and \<open>os.read\<close> are parameters.
\<close>

subsection \<open>Starting and serving\<close>

text \<open>The gateways that are started: those with a name that belong to this endpoint.\<close>

definition gateways_to_start :: "(resource \<Rightarrow> bool) \<Rightarrow> 'cb store \<Rightarrow> resource list" where
  "gateways_to_start local s = filter (\<lambda>gw. truthy (r_name gw) \<and> local gw) (list_resources s ''Gateway'')"

datatype ztm_source = UserSource | PeerSource | OtherSource

datatype ztm_server = ServeUser | ServePeer | NoServer

definition ztm_dispatch :: "ztm_source \<Rightarrow> ztm_server" where
  "ztm_dispatch src = (case src of UserSource \<Rightarrow> ServeUser | PeerSource \<Rightarrow> ServePeer | OtherSource \<Rightarrow> NoServer)"

text \<open>A peer's tunnel \<open>/backends/{proto}/{name}/{target}\<close>.\<close>

datatype peer_link = LinkTCP string | LinkUDP string

definition peer_connect :: "string \<Rightarrow> string \<Rightarrow> peer_link" where
  "peer_connect proto target = (if proto = ''udp'' then LinkUDP target else LinkTCP target)"

subsection \<open>Listing a directory\<close>

text \<open>
  \<open>listDirTree\<close>: the entries of a directory, where a name that ends with a slash is a
  subdirectory. The recursive call passes the path of the subdirectory where the list
  belongs, and nothing else: the inner call lists \<open>/\<close> below \<open>undefined\<close>, calls itself for
  every directory it finds there, and raises when it pushes a file to a string. \<open>read\<close>
  lists a path below a directory name that may be undefined; \<open>stack\<close> is the depth of calls
  that the engine allows.
\<close>

fun list_nested :: "(string option \<Rightarrow> string \<Rightarrow> string list) \<Rightarrow> nat \<Rightarrow> js_error + unit" where
  "list_nested read 0 = Inl (Thrown ''Maximum call stack size exceeded'')"
| "list_nested read (Suc stack) =
     bind_res (map_res (\<lambda>name. if ends_with ''/'' name then list_nested read stack else Inl TypeError)
                 (read None ''/''))
       (\<lambda>_. Inr ())"

fun list_names ::
    "(string \<Rightarrow> string \<Rightarrow> string) \<Rightarrow> (string option \<Rightarrow> string \<Rightarrow> string list) \<Rightarrow> nat \<Rightarrow> string \<Rightarrow>
     string list \<Rightarrow> string list \<Rightarrow> js_error + string list" where
  "list_names join read stack path [] acc = Inr acc"
| "list_names join read stack path (name # names) acc =
     (if ends_with ''/'' name then
        bind_res (list_nested read stack) (\<lambda>_. list_names join read stack path names acc)
      else list_names join read stack path names (acc @ [join path name]))"

definition list_dir_tree ::
    "(string \<Rightarrow> string \<Rightarrow> string) \<Rightarrow> (string option \<Rightarrow> string \<Rightarrow> string list) \<Rightarrow> nat \<Rightarrow> string \<Rightarrow>
     js_error + string list" where
  "list_dir_tree join read stack dirname =
     list_names join read stack ''/'' (read (Some dirname) ''/'') []"

subsection \<open>The command\<close>

record local_fs =
  lf_join :: "string \<Rightarrow> string \<Rightarrow> string"
  lf_dir :: "string option \<Rightarrow> string \<Rightarrow> string list"
  lf_isFile :: "string \<Rightarrow> bool"
  lf_read :: "string \<Rightarrow> string"
  lf_stack :: nat

type_synonym mesh = "string \<Rightarrow> string option"

definition mesh_dir :: "string \<Rightarrow> string" where
  "mesh_dir username = ''/users/'' @ username @ ''/resources/''"

text \<open>New local files are created; \<open>paths\<close> is what the mesh listed before.\<close>

definition create_files :: "local_fs \<Rightarrow> string \<Rightarrow> string \<Rightarrow> string list \<Rightarrow> string list \<Rightarrow> mesh \<Rightarrow> mesh" where
  "create_files fs meshDir localDir paths localPaths m =
     foldl (\<lambda>m p. let mp = lf_join fs meshDir p in
              if mp \<in> set paths then m else m(mp \<mapsto> lf_read fs (lf_join fs localDir p))) m localPaths"

text \<open>Every listed file is updated when it differs, or erased with \<open>--delete\<close> when it is gone.\<close>

definition update_file :: "local_fs \<Rightarrow> string \<Rightarrow> string \<Rightarrow> bool \<Rightarrow> mesh \<Rightarrow> string \<Rightarrow> mesh" where
  "update_file fs meshDir localDir delete m mp =
     (let full = lf_join fs localDir (drop (length meshDir) mp) in
      if lf_isFile fs full then
        (if m mp \<noteq> Some (lf_read fs full) then m(mp \<mapsto> lf_read fs full) else m)
      else if delete then m(mp := None) else m)"

definition config_command ::
    "local_fs \<Rightarrow> string \<Rightarrow> string \<Rightarrow> bool \<Rightarrow> string list \<Rightarrow> mesh \<Rightarrow> js_error + mesh" where
  "config_command fs meshDir localDir delete paths m =
     bind_res (list_dir_tree (lf_join fs) (lf_dir fs) (lf_stack fs) localDir) (\<lambda>localPaths.
       Inr (foldl (update_file fs meshDir localDir delete)
              (create_files fs meshDir localDir paths localPaths m) paths))"

text \<open>
  The lines of the report: what is created, then what is deleted, and then, when the contents
  have been read (here in the order of the list), what is updated.
\<close>

definition config_report ::
    "local_fs \<Rightarrow> string \<Rightarrow> string \<Rightarrow> bool \<Rightarrow> string list \<Rightarrow> mesh \<Rightarrow> js_error + string list" where
  "config_report fs meshDir localDir delete paths m =
     bind_res (list_dir_tree (lf_join fs) (lf_dir fs) (lf_stack fs) localDir) (\<lambda>localPaths.
       let below = \<lambda>mp. drop (length meshDir) mp;
           full = \<lambda>mp. lf_join fs localDir (below mp)
       in Inr (map (\<lambda>p. ''Create file: '' @ p) (filter (\<lambda>p. lf_join fs meshDir p \<notin> set paths) localPaths) @
               map (\<lambda>mp. ''Delete file: '' @ below mp) (filter (\<lambda>mp. \<not> lf_isFile fs (full mp) \<and> delete) paths) @
               map (\<lambda>mp. ''Update file: '' @ below mp)
                 (filter (\<lambda>mp. lf_isFile fs (full mp) \<and> m mp \<noteq> Some (lf_read fs (full mp))) paths)))"

text \<open>
  The command line as a whole. \<open>utils.parseArgv\<close> belongs to the host: it raises, gives a help
  text or calls the action. \<open>cli_env\<close> has what an error says.
\<close>

datatype cli_parse = ParseRaises js_error | ParseHelp string | ParseConfig string bool

record cli_env =
  ci_message :: "js_error \<Rightarrow> string option"
  ci_text :: "js_error \<Rightarrow> string"
  ci_stack :: "js_error \<Rightarrow> string option"

definition cli_error :: "cli_env \<Rightarrow> js_error \<Rightarrow> string" where
  "cli_error e err =
     ''ztm: '' @ or_else (ci_message e err) (ci_text e err) @ [CHR 0x0A] @ or_default (ci_stack e err) []"

definition cli_main ::
    "cli_env \<Rightarrow> local_fs \<Rightarrow> string \<Rightarrow> string \<Rightarrow> string list \<Rightarrow> cli_parse \<Rightarrow> mesh \<Rightarrow> string \<times> mesh" where
  "cli_main e fs username cwd paths parsed m =
     (case parsed of
        ParseRaises err \<Rightarrow> (cli_error e err, m)
      | ParseHelp txt \<Rightarrow> (txt @ [CHR 0x0A], m)
      | ParseConfig dir delete \<Rightarrow>
          (let meshDir = mesh_dir username; localDir = lf_join fs cwd dir in
           case config_command fs meshDir localDir delete paths m of
             Inl err \<Rightarrow> (cli_error e err, m)
           | Inr m1 \<Rightarrow>
               (case config_report fs meshDir localDir delete paths m of
                  Inl err \<Rightarrow> (cli_error e err, m)
                | Inr report \<Rightarrow> (concat (map (\<lambda>l. l @ [CHR 0x0A]) report), m1))))"

text \<open>The command and its report raise together.\<close>

lemma report_with_command:
  "isl (config_report fs meshDir localDir delete paths m) \<longleftrightarrow> isl (config_command fs meshDir localDir delete paths m)"
  by (cases "list_dir_tree (lf_join fs) (lf_dir fs) (lf_stack fs) localDir")
    (simp_all add: config_report_def config_command_def Let_def)

subsection \<open>What the command achieves\<close>

text \<open>What \<open>os.path.join\<close> does to the paths that occur, and a directory without subdirectories.\<close>

definition path_law :: "local_fs \<Rightarrow> string \<Rightarrow> string \<Rightarrow> bool" where
  "path_law fs meshDir localDir \<longleftrightarrow>
     (\<forall>n. \<not> starts_with ''/'' n \<longrightarrow> lf_join fs ''/'' n = CHR ''/'' # n \<and>
          lf_join fs meshDir (CHR ''/'' # n) = meshDir @ n \<and>
          lf_join fs localDir (CHR ''/'' # n) = lf_join fs localDir n)"

definition flat_dir :: "local_fs \<Rightarrow> string \<Rightarrow> bool" where
  "flat_dir fs localDir \<longleftrightarrow>
     (\<forall>n \<in> set (lf_dir fs (Some localDir) ''/''). \<not> ends_with ''/'' n \<and> \<not> starts_with ''/'' n) \<and>
     (\<forall>n. \<not> starts_with ''/'' n \<longrightarrow> lf_isFile fs (lf_join fs localDir n) \<longleftrightarrow> n \<in> set (lf_dir fs (Some localDir) ''/''))"

lemma list_names_flat:
  "\<forall>n \<in> set names. \<not> ends_with ''/'' n \<Longrightarrow>
   list_names join read stack path names acc = Inr (acc @ map (join path) names)"
  by (induction names arbitrary: acc) simp_all

lemma list_names_subdir:
  "name \<in> set names \<Longrightarrow> ends_with ''/'' name \<Longrightarrow> list_nested read stack = Inl e \<Longrightarrow>
   list_names join read stack path names acc = Inl e"
  by (induction names arbitrary: acc) auto

lemma list_nested_fails: "read None ''/'' \<noteq> [] \<Longrightarrow> \<exists>e. list_nested read stack = Inl e"
proof (induction stack)
  case (Suc stack)
  then obtain e where e: "list_nested read stack = Inl e" by blast
  obtain n ns where "read None ''/'' = n # ns" using Suc.prems by (cases "read None ''/''") simp_all
  then show ?case using e by (cases "ends_with ''/'' n") simp_all
qed simp

lemma create_lookup:
  assumes "path_law fs meshDir localDir" "\<forall>n \<in> set ns. \<not> starts_with ''/'' n"
  shows "create_files fs meshDir localDir paths (map (\<lambda>n. CHR ''/'' # n) ns) m (meshDir @ q) =
     (if q \<in> set ns \<and> meshDir @ q \<notin> set paths then Some (lf_read fs (lf_join fs localDir q)) else m (meshDir @ q))"
  using assms unfolding create_files_def path_law_def
  by (induction ns arbitrary: m) (auto simp: Let_def)

lemma create_other:
  assumes "path_law fs meshDir localDir" "\<forall>n \<in> set ns. \<not> starts_with ''/'' n" "\<not> starts_with meshDir x"
  shows "create_files fs meshDir localDir paths (map (\<lambda>n. CHR ''/'' # n) ns) m x = m x"
  using assms unfolding create_files_def path_law_def
  by (induction ns arbitrary: m) (auto simp: Let_def starts_with_iff)

definition synced :: "local_fs \<Rightarrow> string \<Rightarrow> string \<Rightarrow> bool \<Rightarrow> mesh \<Rightarrow> mesh" where
  "synced fs meshDir localDir delete m x =
     (let full = lf_join fs localDir (drop (length meshDir) x) in
      if lf_isFile fs full then Some (lf_read fs full) else if delete then None else m x)"

lemma update_lookup:
  "foldl (update_file fs meshDir localDir delete) m ps x =
     (if x \<in> set ps then synced fs meshDir localDir delete m x else m x)"
  by (induction ps arbitrary: m) (auto simp: update_file_def synced_def Let_def)


text \<open>With a subdirectory the command fails before it has written anything.\<close>

lemma config_subdir_fails:
  assumes "name \<in> set (lf_dir fs (Some localDir) ''/'')" "ends_with ''/'' name" "lf_dir fs None ''/'' \<noteq> []"
  shows "\<exists>e. config_command fs meshDir localDir delete paths m = Inl e"
proof -
  obtain e where "list_nested (lf_dir fs) (lf_stack fs) = Inl e"
    using list_nested_fails [where read = "lf_dir fs" and stack = "lf_stack fs", OF assms(3)] by (elim exE)
  from list_names_subdir [OF assms(1,2) this]
  show ?thesis by (simp add: config_command_def list_dir_tree_def)
qed

definition ex_fs :: local_fs where
  "ex_fs = \<lparr>lf_join = (\<lambda>a b. if a = ''/'' then CHR ''/'' # b
                       else a @ (case b of [] \<Rightarrow> [] | c # cs \<Rightarrow> if c = CHR ''/'' then cs else b)),
     lf_dir = (\<lambda>d p. [''a'']), lf_isFile = (\<lambda>p. p = ''l/a''), lf_read = (\<lambda>p. ''new''), lf_stack = 9\<rparr>"


end
