(* ===== verification/Mesh_Tunnel.thy ===== *)
theory Mesh_Tunnel
  imports Backend Mesh_Config Options
begin

text \<open>
  The tunnels of a mesh, from the pipeline of a backend (\<open>src/modules/backend.js\<close>) to the
  server for peers (\<open>servePeer\<close> of \<open>src/main.ztm.js\<close>): a stream to a target comes out at the
  endpoint of its backend, as a connection of its protocol to that target. The matching of
  paths by \<open>utils.createServer\<close> and the WebSocket codec of pipy are parameters.
\<close>

subsection \<open>The pipelines of a backend\<close>

datatype mesh_way = Refused | Direct peer_link | Tunnel string string

definition tunnel_path :: "string \<Rightarrow> string \<Rightarrow> string \<Rightarrow> string" where
  "tunnel_path proto backendName address =
     ''/backends/'' @ proto @ ''/'' @ backendName @ ''/'' @ address"

text \<open>The endpoint and the path of a tunnel, or the connection from this endpoint.\<close>

definition mesh_pipe :: "string \<Rightarrow> string \<Rightarrow> mesh_route \<Rightarrow> mesh_way" where
  "mesh_pipe backendName address r =
     (case r of
        PeerTCP e \<Rightarrow> Tunnel e (tunnel_path ''tcp'' backendName address)
      | PeerUDP e \<Rightarrow> Tunnel e (tunnel_path ''udp'' backendName address)
      | SelfTCP \<Rightarrow> Direct (LinkTCP address)
      | SelfUDP \<Rightarrow> Direct (LinkUDP address)
      | DenyRoute \<Rightarrow> Refused)"

text \<open>
  What a pipeline writes for the chunks of a stream: a UDP tunnel makes each datagram a
  WebSocket message, a TCP tunnel is a byte stream.
\<close>

definition tunnel_send :: "(string list \<Rightarrow> string) \<Rightarrow> mesh_route \<Rightarrow> string list \<Rightarrow> string" where
  "tunnel_send encode r chunks = (case r of PeerUDP e \<Rightarrow> encode chunks | _ \<Rightarrow> concat chunks)"

subsection \<open>The server for peers\<close>

text \<open>\<open>match\<close> gives the protocol, the name and the target of a path that fits the pattern.\<close>

definition serve_peer ::
    "(string \<Rightarrow> (string \<times> string \<times> string) option) \<Rightarrow> string \<Rightarrow> peer_link option" where
  "serve_peer match path =
     (case match path of
        None \<Rightarrow> None
      | Some (proto, name, target) \<Rightarrow> Some (peer_connect proto target))"

definition peer_receive :: "(string \<Rightarrow> string list) \<Rightarrow> peer_link \<Rightarrow> string \<Rightarrow> string list" where
  "peer_receive decode l bytes = (case l of LinkUDP t \<Rightarrow> decode bytes | LinkTCP t \<Rightarrow> [bytes])"

text \<open>Where a stream comes out: the endpoint and the connection that it opens.\<close>

definition comes_out ::
    "string \<Rightarrow> (string \<Rightarrow> (string \<times> string \<times> string) option) \<Rightarrow> mesh_way
      \<Rightarrow> (string \<times> peer_link) option" where
  "comes_out self match w =
     (case w of
        Refused \<Rightarrow> None
      | Direct l \<Rightarrow> Some (self, l)
      | Tunnel e path \<Rightarrow> map_option (Pair e) (serve_peer match path))"

subsection \<open>A stream comes out where its target is\<close>

text \<open>A segment of a path, and the documented behaviour of the pattern.\<close>

definition segment :: "string \<Rightarrow> bool" where
  "segment s \<longleftrightarrow> s \<noteq> [] \<and> CHR ''/'' \<notin> set s"

definition match_law :: "(string \<Rightarrow> (string \<times> string \<times> string) option) \<Rightarrow> bool" where
  "match_law match \<longleftrightarrow>
     (\<forall>p n t. segment p \<longrightarrow> segment n \<longrightarrow> segment t \<longrightarrow>
        match (''/backends/'' @ p @ ''/'' @ n @ ''/'' @ t) = Some (p, n, t))"

text \<open>The matching of a path by its segments keeps the law.\<close>

definition match_segments :: "string \<Rightarrow> (string \<times> string \<times> string) option" where
  "match_segments path =
     (case split_on CHR ''/'' path of
        [a, b, p, n, t] \<Rightarrow> if a = [] \<and> b = ''backends'' then Some (p, n, t) else None
      | _ \<Rightarrow> None)"

lemma match_segments_law: "match_law match_segments"
proof -
  have root: "split_on CHR ''/'' (''/backends/'' @ s) = [] # ''backends'' # split_on CHR ''/'' s" for s
    using split_on_append [of "CHR ''/''" "''backends''" s] by simp
  show ?thesis
    by (simp add: match_law_def match_segments_def root segment_def split_on_append split_on_no_sep)
qed

lemma serve_tunnel:
  assumes "match_law match" and "segment name" and "segment address"
  shows "serve_peer match (tunnel_path ''tcp'' name address) = Some (LinkTCP address)"
    and "serve_peer match (tunnel_path ''udp'' name address) = Some (LinkUDP address)"
proof -
  have "match (tunnel_path p name address) = Some (p, name, address)" if "segment p" for p
    using assms that by (simp add: match_law_def tunnel_path_def)
  then show "serve_peer match (tunnel_path ''tcp'' name address) = Some (LinkTCP address)"
    and "serve_peer match (tunnel_path ''udp'' name address) = Some (LinkUDP address)"
    by (simp_all add: serve_peer_def peer_connect_def segment_def)
qed

text \<open>
  Through the mesh or not, the stream opens the same connection at the endpoint of the
  backend; it is refused exactly when there is no such endpoint.
\<close>

theorem mesh_transparent:
  assumes "match_law match" and "segment name" and "segment address"
  shows "comes_out self match (mesh_pipe name address (mesh_route_of (Some self) protocol ep))
    = (if truthy ep then Some (the ep, peer_connect protocol address) else None)"
  using serve_tunnel [OF assms]
  by (auto simp: comes_out_def mesh_pipe_def mesh_route_of_def peer_connect_def split: option.splits)

lemma mesh_transparent_witness:
  "comes_out ''e1'' match_segments
     (mesh_pipe ''b'' ''10.0.0.1:53'' (mesh_route_of (Some ''e1'') ''udp'' (Some ''e2'')))
   = Some (''e2'', LinkUDP ''10.0.0.1:53'')"
  using mesh_transparent [OF match_segments_law, of "''b''" "''10.0.0.1:53''" "''e1''" "''udp''" "Some ''e2''"]
  by (simp add: segment_def peer_connect_def)

text \<open>The datagrams keep their bounds, a byte stream its bytes.\<close>

lemma tunnel_keeps_data:
  assumes "\<And>ds. decode (encode ds) = ds"
  shows "peer_receive decode (LinkUDP t) (tunnel_send encode (PeerUDP e) chunks) = chunks"
    and "concat (peer_receive decode (LinkTCP t) (tunnel_send encode (PeerTCP e) chunks)) = concat chunks"
  using assms by (simp_all add: peer_receive_def tunnel_send_def)

end
