(* ===== verification/Router_L4.thy ===== *)
theory Router_L4
  imports Backend_Selector Host_Match
begin

text \<open>
  The routers below HTTP: \<open>src/modules/router-tcp.js\<close> and \<open>router-udp.js\<close>, which serve the
  first rule of the first route, and \<open>router-tls.js\<close>, which chooses a route by the server
  name of the TLS hello.
\<close>

subsection \<open>Pipelines\<close>

text \<open>Filters in front of a balancer; without a backend resource the stream is shut down.\<close>

record ('f, 'b) l4_pipeline =
  lp_filters :: "'f list"
  lp_forward :: "'b option"

type_synonym 'b l4_balancer = "string \<Rightarrow> backend_ref option \<Rightarrow> resource \<Rightarrow> js_error + 'b"

definition make_l4_pipeline :: "'b l4_balancer \<Rightarrow> ('f, ('f, 'b) l4_pipeline) balancer_maker" where
  "make_l4_pipeline make_balancer ref res filters protocol =
     (case res of
        None \<Rightarrow> Inr \<lparr>lp_filters = filters, lp_forward = None\<rparr>
      | Some r \<Rightarrow> bind_res (make_balancer protocol ref r)
                    (\<lambda>b. Inr \<lparr>lp_filters = filters, lp_forward = Some b\<rparr>))"

text \<open>\<open>routeResources[0]?.spec?.rules?.[0]\<close>\<close>

definition first_rule :: "resource list \<Rightarrow> rule option" where
  "first_rule routes =
     (case routes of
        [] \<Rightarrow> None
      | r # rs \<Rightarrow>
          (case Option.bind (r_spec r) sp_rules of
             None \<Rightarrow> None | Some [] \<Rightarrow> None | Some (rl # rls) \<Rightarrow> Some rl))"

subsection \<open>TCP and UDP\<close>

definition make_tcp_router ::
    "'f scripts \<Rightarrow> ('f \<Rightarrow> string option) \<Rightarrow> (string \<Rightarrow> string \<Rightarrow> resource option) \<Rightarrow>
     'b l4_balancer \<Rightarrow> listener option \<Rightarrow> resource list \<Rightarrow> js_error + ('f, 'b) l4_pipeline selector" where
  "make_tcp_router scripts out named make_balancer l routes =
     make_backend_selector scripts out named ''tcp'' l (first_rule routes) (make_l4_pipeline make_balancer)"

definition make_udp_router ::
    "'f scripts \<Rightarrow> ('f \<Rightarrow> string option) \<Rightarrow> (string \<Rightarrow> string \<Rightarrow> resource option) \<Rightarrow>
     'b l4_balancer \<Rightarrow> listener option \<Rightarrow> resource list \<Rightarrow> js_error + ('f, 'b) l4_pipeline selector" where
  "make_udp_router scripts out named make_balancer l routes =
     make_backend_selector scripts out named ''udp'' l (first_rule routes) (make_l4_pipeline make_balancer)"

text \<open>
  The router's \<open>update\<close>: a new router, then the updater is registered again; a raise leaves
  both as they were (the entry of the updater is gone by then).
\<close>

definition update_router_with ::
    "('a \<Rightarrow> js_error + 'r) \<Rightarrow> string \<Rightarrow> 'cb \<Rightarrow> 'a \<Rightarrow> 'cb store \<Rightarrow>
     (js_error + 'r) \<times> 'cb store" where
  "update_router_with mk routerKey cb routes s =
     (case mk routes of
        Inl e \<Rightarrow> (Inl e, s)
      | Inr r \<Rightarrow> (Inr r, set_updater ''Route'' routerKey (Some cb) s))"

text \<open>Where a stream goes; \<open>None\<close> is the shutdown pipeline.\<close>

definition l4_answer :: "('f, 'b) l4_pipeline target option \<Rightarrow> ('f, 'b) l4_pipeline option" where
  "l4_answer sel = map_option tg_pipeline sel"

subsection \<open>TLS\<close>

type_synonym 'sel name_table = "'sel obj \<times> (string \<times> 'sel) list"

text \<open>Every host name of every route gets its own selector.\<close>

fun add_tls_names ::
    "(rule option \<Rightarrow> js_error + 'sel) \<Rightarrow> resource \<Rightarrow> string list \<Rightarrow> 'sel name_table \<Rightarrow>
     js_error + 'sel name_table" where
  "add_tls_names mk r [] tabs = Inr tabs"
| "add_tls_names mk r (x # xs) tabs =
     bind_res (mk (first_rule [r])) (\<lambda>sel.
       let n = to_lower (trim x)
       in add_tls_names mk r xs
            (if starts_with ''*'' n then (fst tabs, snd tabs @ [(tl n, sel)])
             else (obj_set n sel (fst tabs), snd tabs)))"

fun tls_names ::
    "(rule option \<Rightarrow> js_error + 'sel) \<Rightarrow> resource list \<Rightarrow> 'sel name_table \<Rightarrow> js_error + 'sel name_table" where
  "tls_names mk [] tabs = Inr tabs"
| "tls_names mk (r # rs) tabs =
     (case r_spec r of
        None \<Rightarrow> Inl TypeError
      | Some sp \<Rightarrow>
          bind_res (add_tls_names mk r (case sp_hostnames sp of None \<Rightarrow> [''*''] | Some hs \<Rightarrow> hs) tabs)
            (tls_names mk rs))"

definition make_tls_router ::
    "(rule option \<Rightarrow> js_error + 'sel) \<Rightarrow> resource list \<Rightarrow> js_error + 'sel name_table" where
  "make_tls_router mk routes =
     bind_res (tls_names mk routes ([], [])) (\<lambda>(fulls, posts). Inr (fulls, sort_postfixes posts))"

text \<open>\<open>hello.serverNames[0] || ''\<close>, in lower case.\<close>

definition sni_of :: "string list \<Rightarrow> string" where
  "sni_of names = (case names of [] \<Rightarrow> [] | n # ns \<Rightarrow> n)"

definition route_hello :: "'sel name_table \<Rightarrow> string list \<Rightarrow> 'sel option" where
  "route_hello tabs names = host_lookup (fst tabs) (snd tabs) (to_lower (sni_of names))"

text \<open>The gate in front of a TLS listener: nothing is decided before the protocol is known.\<close>

datatype gate = Wait | Pass | Deny

definition tls_gate :: "string option \<Rightarrow> gate" where
  "tls_gate proto = (case proto of None \<Rightarrow> Wait | Some p \<Rightarrow> if p = ''TLS'' then Pass else Deny)"

text \<open>After the gate: the selection stays undefined until the hello has come.\<close>

datatype 'p tls_route = NotYet | ShutDown | Serve 'p

definition tls_dispatch :: "'sel name_table \<Rightarrow> ('sel \<Rightarrow> 'p option) \<Rightarrow> string list option \<Rightarrow> 'p tls_route" where
  "tls_dispatch tabs pick hello =
     (case hello of
        None \<Rightarrow> NotYet
      | Some names \<Rightarrow>
          (case Option.bind (route_hello tabs names) pick of None \<Rightarrow> ShutDown | Some p \<Rightarrow> Serve p))"

subsection \<open>Lemmas\<close>

lemma make_tls_router_lookup:
  assumes "make_tls_router mk routes = Inr tabs"
  shows "\<exists>fulls posts. tabs = (fulls, sort_postfixes posts)"
  using assms by (auto simp: make_tls_router_def bind_res_Inr_iff)



end
