(* ===== verification/Router_Dubbo.thy ===== *)
theory Router_Dubbo
  imports Router_Http
begin

text \<open>
  \<open>src/modules/router-dubbo.js\<close>: the router of Dubbo calls. A decoded call is the list of its
  fields: the protocol version, the service, its version, the method, the signature and the
  arguments. Selections are kept in \<open>algo.Cache\<close> for an hour, given by \<open>get\<close> and \<open>put\<close>.
\<close>

subsection \<open>Priority\<close>

datatype rank = RankNum nat | RankStr string

definition text_of :: "string option \<Rightarrow> string" where
  "text_of s = or_else s []"

definition get_dubbo_priority :: "route_match \<Rightarrow> rank list" where
  "get_dubbo_priority m =
     (if rm_type m = Some ''Exact'' then
        [RankNum 3, RankStr (text_of (rm_service m)), RankStr (text_of (rm_version m)),
         RankStr (text_of (rm_dmethod m)), RankStr (text_of (rm_signature m))]
      else if rm_type m = Some ''RegularExpression'' then
        [RankNum 1, RankNum (length (text_of (rm_service m))), RankNum (length (text_of (rm_version m))),
         RankNum (length (text_of (rm_dmethod m))), RankNum (length (text_of (rm_signature m)))]
      else [RankNum 0, RankNum 0, RankNum 0, RankNum 0, RankNum 0])"

text \<open>
  The operator \<open>>\<close> on ranks. A string is never compared with a number, because the first ranks
  tell the types of the others (\<open>ranks_compare\<close>); the last two equations are not reached.
\<close>

fun rank_gt :: "rank \<Rightarrow> rank \<Rightarrow> bool" where
  "rank_gt (RankNum a) (RankNum b) = (b < a)"
| "rank_gt (RankStr a) (RankStr b) = str_less b a"
| "rank_gt (RankStr a) (RankNum b) = True"
| "rank_gt (RankNum a) (RankStr b) = False"

text \<open>\<open>ra.findIndex((r, i) => r !== rb[i])\<close>, and the two ranks at that index.\<close>

fun rank_diff :: "rank list \<Rightarrow> rank list \<Rightarrow> (rank \<times> rank) option" where
  "rank_diff (x # xs) (y # ys) = (if x \<noteq> y then Some (x, y) else rank_diff xs ys)"
| "rank_diff _ _ = None"

definition by_ranks :: "rank list \<Rightarrow> rank list \<Rightarrow> int" where
  "by_ranks ra rb =
     (case rank_diff ra rb of None \<Rightarrow> 0 | Some (x, y) \<Rightarrow> if rank_gt x y then -1 else 1)"

definition by_dubbo :: "'sel entry \<Rightarrow> 'sel entry \<Rightarrow> int" where
  "by_dubbo a b = by_ranks (get_dubbo_priority (en_match a)) (get_dubbo_priority (en_match b))"

subsection \<open>Matching\<close>

text \<open>A row keeps the match that its test was made from.
  A matcher gets a field of the call, which may be missing; \<open>RegExp.test\<close> writes it out.\<close>

definition make_string_matcher ::
    "http_env \<Rightarrow> string option \<Rightarrow> string option \<Rightarrow> js_error + (string option \<Rightarrow> bool) option" where
  "make_string_matcher env type str =
     (if \<not> truthy str then Inr None
      else if type = Some ''Exact'' then Inr (Some (\<lambda>s. s = str))
      else if type = Some ''RegularExpression'' then
        bind_res (compile env (the str)) (\<lambda>f.
          Inr (Some (\<lambda>s. f (case s of None \<Rightarrow> ''undefined'' | Some x \<Rightarrow> x))))
      else Inr None)"

definition field :: "string list \<Rightarrow> nat \<Rightarrow> string option" where
  "field body i = (if i < length body then Some (body ! i) else None)"

record 'sel dubbo_row =
  dr_match :: route_match
  dr_test :: "string list \<Rightarrow> bool"
  dr_sel :: 'sel
  dr_res :: resource
  dr_rule :: rule

definition make_dubbo_row :: "http_env \<Rightarrow> 'sel entry \<Rightarrow> js_error + 'sel dubbo_row" where
  "make_dubbo_row env e =
     (let m = en_match e in
      bind_res (make_string_matcher env (rm_type m) (rm_service m)) (\<lambda>matchService.
        bind_res (make_string_matcher env (rm_type m) (rm_version m)) (\<lambda>matchVersion.
          bind_res (make_string_matcher env (rm_type m) (rm_dmethod m)) (\<lambda>matchMethod.
            bind_res (make_string_matcher env (rm_type m) (rm_signature m)) (\<lambda>matchSignature.
              Inr \<lparr>dr_match = m,
                   dr_test = (\<lambda>body. passes matchService (field body 1) \<and>
                              passes matchVersion (field body 2) \<and>
                              passes matchMethod (field body 3) \<and>
                              passes matchSignature (field body 4)),
                   dr_sel = en_sel e, dr_res = en_res e, dr_rule = en_rule e\<rparr>)))))"

definition make_dubbo_rows ::
    "http_env \<Rightarrow> (rule \<Rightarrow> js_error + 'sel) \<Rightarrow> resource list \<Rightarrow> js_error + 'sel dubbo_row list" where
  "make_dubbo_rows env mk routes =
     bind_res (route_rules (\<lambda>rl http2. mk rl) False routes) (\<lambda>rules.
       map_res (make_dubbo_row env) (js_sort by_dubbo (concat (map rule_entries rules))))"

text \<open>The pipeline of a target, and the selector of a rule.\<close>

definition make_dubbo_pipeline ::
    "(string \<Rightarrow> backend_ref option \<Rightarrow> resource \<Rightarrow> js_error + 'b) \<Rightarrow>
     ('f, ('f, 'b) rule_pipeline) balancer_maker" where
  "make_dubbo_pipeline make_balancer ref res filters protocol =
     (if res = None \<and> filters = [] then Inr (Respond 500)
      else
        bind_res (case res of
                    None \<Rightarrow> Inr []
                  | Some r \<Rightarrow> bind_res (make_balancer protocol ref r) (\<lambda>b. Inr [Forward b]))
          (\<lambda>fwd. Inr (Chain (map FilterStage filters @ fwd) None)))"

definition make_dubbo_selector ::
    "'f scripts \<Rightarrow> ('f \<Rightarrow> string option) \<Rightarrow> (string \<Rightarrow> string \<Rightarrow> resource option) \<Rightarrow> listener \<Rightarrow>
     (string \<Rightarrow> backend_ref option \<Rightarrow> resource \<Rightarrow> js_error + 'b) \<Rightarrow> rule \<Rightarrow>
     js_error + ('f, 'b) rule_pipeline selector" where
  "make_dubbo_selector scripts out named l make_balancer rl =
     make_backend_selector scripts out named ''dubbo'' (Some l) (Some rl) (make_dubbo_pipeline make_balancer)"

subsection \<open>Routing a call\<close>

record dubbo_vars =
  dv_route :: "resource option"
  dv_rule :: "rule option"

definition dubbo_fields :: "string list \<Rightarrow> string list" where
  "dubbo_fields body = take 4 (drop 1 body)"

definition dubbo_key :: "string list \<Rightarrow> string" where
  "dubbo_key body = join_with '' '' (dubbo_fields body)"

text \<open>The selector over all rows; \<open>pick\<close> makes a selection from the selector of a rule.\<close>

definition dubbo_select ::
    "('sel \<Rightarrow> 'lb \<Rightarrow> 'a option \<times> 'lb) \<Rightarrow> 'sel dubbo_row list \<Rightarrow> string list \<Rightarrow> 'lb \<times> dubbo_vars \<Rightarrow>
     'a option \<times> 'lb \<times> dubbo_vars" where
  "dubbo_select pick rows body st =
     (case find (\<lambda>r. dr_test r body) rows of
        None \<Rightarrow> (None, st)
      | Some r \<Rightarrow>
          (let (a, lb) = pick (dr_sel r) (fst st)
           in (a, lb, \<lparr>dv_route = Some (dr_res r), dv_rule = Some (dr_rule r)\<rparr>)))"

text \<open>A selection that is found again is used as it is; \<open>undefined\<close> is stored but not found.\<close>

definition dubbo_route ::
    "('c \<Rightarrow> string \<Rightarrow> 'a option) \<Rightarrow> (string \<Rightarrow> 'a option \<Rightarrow> 'c \<Rightarrow> 'c) \<Rightarrow>
     ('sel \<Rightarrow> 'lb \<Rightarrow> 'a option \<times> 'lb) \<Rightarrow> 'sel dubbo_row list \<Rightarrow> string list \<Rightarrow>
     'c \<times> 'lb \<times> dubbo_vars \<Rightarrow> 'a option \<times> 'c \<times> 'lb \<times> dubbo_vars" where
  "dubbo_route get put pick rows body st =
     (case get (fst st) (dubbo_key body) of
        Some v \<Rightarrow> (Some v, st)
      | None \<Rightarrow>
          (let (a, st') = dubbo_select pick rows body (snd st)
           in (a, put (dubbo_key body) a (fst st), st')))"

text \<open>What \<open>handleRequest\<close> writes into the context, and where it sends the call.\<close>

record dubbo_ctx =
  dc_route :: "resource option"
  dc_rule :: "rule option"
  dc_backend :: "resource option"

definition handle_call ::
    "('f, 'b) rule_pipeline target option \<Rightarrow> dubbo_vars \<Rightarrow> dubbo_ctx \<times> ('f, 'b) rule_pipeline" where
  "handle_call sel vars =
     ((case sel of
         None \<Rightarrow> \<lparr>dc_route = None, dc_rule = None, dc_backend = None\<rparr>
       | Some t \<Rightarrow> \<lparr>dc_route = dv_route vars, dc_rule = dv_rule vars, dc_backend = tg_resource t\<rparr>),
      answer sel)"

definition dubbo_run ::
    "('c \<Rightarrow> string \<Rightarrow> 'a option) \<Rightarrow> (string \<Rightarrow> 'a option \<Rightarrow> 'c \<Rightarrow> 'c) \<Rightarrow>
     ('sel \<Rightarrow> 'lb \<Rightarrow> 'a option \<times> 'lb) \<Rightarrow> 'sel dubbo_row list \<Rightarrow> string list list \<Rightarrow>
     'c \<times> 'lb \<times> dubbo_vars \<Rightarrow> 'c \<times> 'lb \<times> dubbo_vars" where
  "dubbo_run get put pick rows bodies st =
     foldl (\<lambda>st body. snd (dubbo_route get put pick rows body st)) st bodies"

subsection \<open>The order of the matches\<close>

lemma ranks_compare:
  assumes "rank_diff (get_dubbo_priority a) (get_dubbo_priority b) = Some (x, y)"
  shows "(\<exists>m n. x = RankNum m \<and> y = RankNum n) \<or> (\<exists>s t. x = RankStr s \<and> y = RankStr t)"
  using assms by (auto simp: get_dubbo_priority_def split: if_splits)

subsection \<open>The cache of selections\<close>

text \<open>What a cache that may forget promises: nothing is found that was not stored.\<close>

definition cache_sound_law :: "('c \<Rightarrow> string \<Rightarrow> 'a option) \<Rightarrow> (string \<Rightarrow> 'a option \<Rightarrow> 'c \<Rightarrow> 'c) \<Rightarrow> bool" where
  "cache_sound_law get put \<longleftrightarrow>
     (\<forall>c k v k' w. get (put k v c) k' = Some w \<longrightarrow> (k' = k \<and> v = Some w) \<or> get c k' = Some w)"

text \<open>A well-formed call has at least five fields, and no space in those the key is made of.\<close>

definition call_ok :: "string list \<Rightarrow> bool" where
  "call_ok body \<longleftrightarrow> 5 \<le> length body \<and> (\<forall>f \<in> set (dubbo_fields body). CHR '' '' \<notin> set f)"

lemma split_join:
  assumes "xs \<noteq> []" "\<forall>x \<in> set xs. c \<notin> set x"
  shows "split_on c (join_with [c] xs) = xs"
proof -
  have one: "split_on c s = [s]" if "c \<notin> set s" for s using that by (induction s) auto
  have two: "split_on c (s @ c # t) = s # split_on c t" if "c \<notin> set s" for s t
    using that by (induction s) auto
  show ?thesis
    using assms by (induction "[c]" xs rule: join_with.induct) (auto simp: one two)
qed

lemma call_fields: "call_ok body \<Longrightarrow> split_on CHR '' '' (dubbo_key body) = dubbo_fields body"
  unfolding dubbo_key_def
  by (rule split_join) (auto simp: call_ok_def dubbo_fields_def)

lemma field_eq:
  assumes "call_ok a" "call_ok b" "dubbo_fields a = dubbo_fields b" "i < 4"
  shows "field a (Suc i) = field b (Suc i)"
proof -
  have len: "5 \<le> length a" "5 \<le> length b" using assms(1,2) by (simp_all add: call_ok_def)
  have "dubbo_fields a ! i = dubbo_fields b ! i" using assms(3) by simp
  then have "a ! Suc i = b ! Suc i" using assms(4) len by (simp add: dubbo_fields_def)
  then show ?thesis using assms(4) len by (simp add: field_def)
qed

text \<open>Rows look at the four fields only.\<close>

lemma row_test_fields:
  assumes "make_dubbo_rows env mk routes = Inr rows" "r \<in> set rows"
    and "call_ok a" "call_ok b" "dubbo_fields a = dubbo_fields b"
  shows "dr_test r a = dr_test r b"
proof -
  obtain es where "list_all2 (\<lambda>e r. make_dubbo_row env e = Inr r) es rows"
    using assms(1) by (auto simp: make_dubbo_rows_def bind_res_Inr_iff map_res_Inr_iff)
  from list_all2_in2 [OF this assms(2)] obtain e where "make_dubbo_row env e = Inr r" by blast
  moreover have "field a 1 = field b 1" "field a 2 = field b 2" "field a 3 = field b 3" "field a 4 = field b 4"
    using field_eq [OF assms(3-5), of 0] field_eq [OF assms(3-5), of 1] field_eq [OF assms(3-5), of 2]
      field_eq [OF assms(3-5), of 3] by (simp_all add: numeral_eq_Suc)
  ultimately show ?thesis
    by (auto simp: make_dubbo_row_def bind_res_Inr_iff Let_def)
qed

lemma select_fields:
  assumes "make_dubbo_rows env mk routes = Inr rows"
    and "call_ok a" "call_ok b" "dubbo_fields a = dubbo_fields b"
  shows "dubbo_select pick rows a st = dubbo_select pick rows b st"
proof -
  have "find (\<lambda>r. dr_test r a) rows = find (\<lambda>r. dr_test r b) rows"
    using row_test_fields [OF assms(1) _ assms(2-4)] by (intro find_cong) simp_all
  then show ?thesis by (simp add: dubbo_select_def)
qed

text \<open>Everything the cache holds was selected for a call with that key.\<close>

definition cached_ok ::
    "('c \<Rightarrow> string \<Rightarrow> 'a option) \<Rightarrow> ('sel \<Rightarrow> 'lb \<Rightarrow> 'a option \<times> 'lb) \<Rightarrow> 'sel dubbo_row list \<Rightarrow> 'c \<Rightarrow> bool" where
  "cached_ok get pick rows c \<longleftrightarrow>
     (\<forall>k v. get c k = Some v \<longrightarrow>
        (\<exists>body st. call_ok body \<and> dubbo_key body = k \<and> fst (dubbo_select pick rows body st) = Some v))"

lemma cached_ok_route:
  assumes "cache_sound_law get put" "cached_ok get pick rows (fst st)" "call_ok body"
  shows "cached_ok get pick rows (fst (snd (dubbo_route get put pick rows body st)))"
proof (cases "get (fst st) (dubbo_key body)")
  case (Some v)
  then show ?thesis using assms(2) by (simp add: dubbo_route_def)
next
  case None
  obtain a st' where a: "dubbo_select pick rows body (snd st) = (a, st')"
    by (cases "dubbo_select pick rows body (snd st)")
  have "cached_ok get pick rows (put (dubbo_key body) a (fst st))"
    unfolding cached_ok_def
  proof (intro allI impI)
    fix k v assume "get (put (dubbo_key body) a (fst st)) k = Some v"
    then consider "k = dubbo_key body" "a = Some v" | "get (fst st) k = Some v"
      using assms(1) unfolding cache_sound_law_def by blast
    then show "\<exists>body st. call_ok body \<and> dubbo_key body = k \<and> fst (dubbo_select pick rows body st) = Some v"
    proof cases
      case 1
      then show ?thesis using a assms(3) by (intro exI [of _ body] exI [of _ "snd st"]) simp
    next
      case 2
      then show ?thesis using assms(2) unfolding cached_ok_def by (elim allE impE)
    qed
  qed
  then show ?thesis using None a by (simp add: dubbo_route_def)
qed

lemma cached_ok_run:
  assumes "cache_sound_law get put"
  shows "cached_ok get pick rows (fst st) \<Longrightarrow> \<forall>b \<in> set bodies. call_ok b \<Longrightarrow>
    cached_ok get pick rows (fst (dubbo_run get put pick rows bodies st))"
  unfolding dubbo_run_def
proof (induction bodies arbitrary: st)
  case (Cons b bs)
  have "cached_ok get pick rows (fst (snd (dubbo_route get put pick rows b st)))"
    using Cons.prems(2) by (intro cached_ok_route [OF assms Cons.prems(1)]) simp
  from Cons.IH [OF this] Cons.prems(2) show ?case by simp
qed simp

text \<open>C23: The cache of Dubbo selections is transparent up to load balancing: starting from an
  empty cache that may forget entries at any time, after any run of well-formed calls the
  answer to a call is one that the router without a cache gives to the same call in some state
  of the load balancers; in particular calls of different services, versions, methods or
  signatures never share an entry.\<close>

theorem dubbo_cache_sound:
  assumes "cache_sound_law get put" "make_dubbo_rows env mk routes = Inr rows"
    and "\<forall>k. get (fst st) k = None" "\<forall>b \<in> set bodies. call_ok b" "call_ok body"
  shows "\<exists>st'. fst (dubbo_route get put pick rows body (dubbo_run get put pick rows bodies st)) =
               fst (dubbo_select pick rows body st')"
proof -
  let ?st = "dubbo_run get put pick rows bodies st"
  have ok: "cached_ok get pick rows (fst ?st)"
    using assms(3,4) by (intro cached_ok_run [OF assms(1)]) (simp_all add: cached_ok_def)
  show ?thesis
  proof (cases "get (fst ?st) (dubbo_key body)")
    case None
    then show ?thesis by (intro exI [of _ "snd ?st"]) (simp add: dubbo_route_def split: prod.split)
  next
    case (Some v)
    obtain b st' where b: "call_ok b" "dubbo_key b = dubbo_key body" "fst (dubbo_select pick rows b st') = Some v"
      using ok Some unfolding cached_ok_def by (elim allE impE exE conjE)
    have "dubbo_fields b = dubbo_fields body"
      using call_fields [OF b(1)] call_fields [OF assms(5)] b(2) by simp
    from select_fields [OF assms(2) b(1) assms(5) this, of pick st'] b(3)
    have "fst (dubbo_select pick rows body st') = Some v" by (rule subst)
    then show ?thesis using Some by (intro exI [of _ st']) (simp add: dubbo_route_def)
  qed
qed

definition ex_call :: "string list" where
  "ex_call = [''2.0.2'', ''svc'', ''1'', ''get'', ''s'']"

definition ex_dubbo_match :: route_match where
  "ex_dubbo_match = no_match\<lparr>rm_type := Some ''Exact'', rm_service := Some ''svc''\<rparr>"

definition ex_dubbo_route :: resource where
  "ex_dubbo_route = \<lparr>r_obj = 1, r_kind = Some ''DubboRoute'', r_name = Some ''r'',
     r_spec = Some (no_spec\<lparr>sp_rules := Some [no_rule\<lparr>ru_matches := Some [ex_dubbo_match]\<rparr>]\<rparr>)\<rparr>"

definition ex_dubbo_rows :: "nat dubbo_row list" where
  "ex_dubbo_rows = [\<lparr>dr_match = ex_dubbo_match, dr_test = (\<lambda>body. field body 1 = Some ''svc''), dr_sel = 0,
     dr_res = ex_dubbo_route, dr_rule = no_rule\<lparr>ru_matches := Some [ex_dubbo_match]\<rparr>\<rparr>]"

lemma ex_dubbo_rows_made:
  "make_dubbo_rows env (\<lambda>rl. Inr 0) [ex_dubbo_route] = Inr ex_dubbo_rows"
  by (simp add: make_dubbo_rows_def route_rules_def ex_dubbo_route_def no_spec_def no_rule_def
      rule_entries_def make_dubbo_row_def make_string_matcher_def ex_dubbo_match_def no_match_def
      passes_def ex_dubbo_rows_def Let_def)

lemma cache_sound_map: "cache_sound_law (\<lambda>c. c) (\<lambda>k v c. c(k := v))"
  by (simp add: cache_sound_law_def)

lemma dubbo_cache_sound_witness:
  "\<exists>st'. fst (dubbo_route (\<lambda>c. c) (\<lambda>k v c. c(k := v)) (\<lambda>s n. (Some n, Suc n)) ex_dubbo_rows ex_call
      (dubbo_run (\<lambda>c. c) (\<lambda>k v c. c(k := v)) (\<lambda>s n. (Some n, Suc n)) ex_dubbo_rows [ex_call, ex_call]
        (Map.empty, 0, \<lparr>dv_route = None, dv_rule = None\<rparr>))) =
    fst (dubbo_select (\<lambda>s n. (Some n, Suc n)) ex_dubbo_rows ex_call st')"
  by (rule dubbo_cache_sound [OF cache_sound_map ex_dubbo_rows_made])
    (simp_all add: call_ok_def ex_call_def dubbo_fields_def)

text \<open>Once selected, a target serves every equal call while the entry lasts: the load balancer is
  not asked again, and the context keeps its former route and rule.\<close>

lemma dubbo_pins_target:
  assumes "get c (dubbo_key body) = Some v"
  shows "dubbo_route get put pick rows body (c, lb, vars) = (Some v, c, lb, vars)"
  using assms by (simp add: dubbo_route_def)

end
