(* ===== verification/Hot_Update.thy ===== *)
theory Hot_Update
  imports Router_L4 Router_Http Router_Dubbo Machine
begin

text \<open>
  How a router is replaced while its listener runs (\<open>watch\<close> and \<open>update\<close> in \<open>src/modules/router-*.js\<close>
  over the updaters of \<open>src/resources.js\<close>): a pipeline keeps a variable \<open>router\<close>, and a one-shot
  updater under the key of the router that assigns it and registers itself again. What is made
  of the routes is a parameter here; the five makers are in the theories of the routers.
\<close>

subsection \<open>The update of each kind of router\<close>

definition tcp_update where
  "tcp_update scripts out named make_balancer l =
     update_router_with (make_tcp_router scripts out named make_balancer l)"

definition udp_update where
  "udp_update scripts out named make_balancer l =
     update_router_with (make_udp_router scripts out named make_balancer l)"

definition tls_update ::
    "(rule option \<Rightarrow> js_error + 'sel) \<Rightarrow> string \<Rightarrow> 'cb \<Rightarrow> resource list \<Rightarrow> 'cb store \<Rightarrow>
     (js_error + 'sel name_table) \<times> 'cb store" where
  "tls_update mk = update_router_with (make_tls_router mk)"

text \<open>A new Dubbo router starts with an empty cache.\<close>

definition dubbo_update ::
    "(resource list \<Rightarrow> js_error + 'sel) \<Rightarrow> 'c \<Rightarrow> string \<Rightarrow> 'cb \<Rightarrow> resource list \<Rightarrow> 'cb store \<Rightarrow>
     (js_error + 'sel \<times> 'c) \<times> 'cb store" where
  "dubbo_update mk fresh =
     update_router_with (\<lambda>routes. bind_res (mk routes) (\<lambda>sel. Inr (sel, fresh)))"

text \<open>An HTTP router is watched only as long as its finalizer has not run.\<close>

definition watched_update ::
    "('a \<Rightarrow> js_error + 'r) \<Rightarrow> bool \<Rightarrow> string \<Rightarrow> 'cb \<Rightarrow> 'a \<Rightarrow> 'cb store \<Rightarrow> (js_error + 'r) \<times> 'cb store" where
  "watched_update mk watching key cb args s =
     (if watching then update_router_with mk key cb args s else (mk args, s))"

definition http_update ::
    "http_env \<Rightarrow> (rule \<Rightarrow> bool \<Rightarrow> js_error + 'sel) \<Rightarrow> bool \<Rightarrow> string \<Rightarrow> 'cb \<Rightarrow> resource list \<Rightarrow> 'cb store \<Rightarrow>
     (js_error + 'sel router) \<times> 'cb store" where
  "http_update env mk = watched_update (make_router env mk)"

subsection \<open>Cells\<close>

text \<open>The variables of a router's closure; \<open>watching\<close> is false when \<open>watch\<close> was set to null.\<close>

record 'r cell =
  cl_key :: string
  cl_router :: "'r option"
  cl_watching :: bool

type_synonym 'r cells = "(nat \<times> 'r cell) list"

text \<open>Closures are numbers: \<open>update\<close> of the cell \<open>i\<close> is registered as \<open>i\<close>.\<close>

definition cell_update ::
    "('a \<Rightarrow> js_error + 'r) \<Rightarrow> 'a \<Rightarrow> nat \<Rightarrow> 'r cells \<times> nat store \<Rightarrow> js_error option \<times> 'r cells \<times> nat store" where
  "cell_update mk args i st =
     (case map_of (fst st) i of
        None \<Rightarrow> (None, st)
      | Some c \<Rightarrow>
          (case watched_update mk (cl_watching c) (cl_key c) i args (snd st) of
             (Inl e, s) \<Rightarrow> (Some e, fst st, s)
           | (Inr r, s) \<Rightarrow> (None, AList.update i (c\<lparr>cl_router := Some r\<rparr>) (fst st), s)))"

fun update_all ::
    "('a \<Rightarrow> js_error + 'r) \<Rightarrow> 'a \<Rightarrow> nat list \<Rightarrow> 'r cells \<times> nat store \<Rightarrow> js_error option \<times> 'r cells \<times> nat store" where
  "update_all mk args [] st = (None, st)"
| "update_all mk args (i # is) st =
     (case cell_update mk args i st of
        (Some e, st1) \<Rightarrow> (Some e, st1)
      | (None, st1) \<Rightarrow> update_all mk args is st1)"

text \<open>\<open>runUpdaters('Route', key, listener, routes)\<close>, with the cells that the updaters change.\<close>

definition refresh ::
    "('a \<Rightarrow> js_error + 'r) \<Rightarrow> string \<Rightarrow> 'a \<Rightarrow> 'r cells \<times> nat store \<Rightarrow> js_error option \<times> 'r cells \<times> nat store" where
  "refresh mk key args st =
     (let lm = listmap_of (snd st) ''Route'' in
      case obj_get lm key of
        None \<Rightarrow> (None, st)
      | Some l \<Rightarrow>
          update_all mk args l
            (fst st, (snd st)\<lparr>s_updaters := obj_set ''Route'' (obj_del key lm) (s_updaters (snd st))\<rparr>))"

datatype 'a cell_event = NewRouter nat string 'a | RefreshRouter string 'a | FinalizeRouter nat

definition cell_step :: "('a \<Rightarrow> js_error + 'r) \<Rightarrow> 'a cell_event \<Rightarrow> 'r cells \<times> nat store \<Rightarrow> 'r cells \<times> nat store" where
  "cell_step mk ev st =
     (case ev of
        NewRouter i key args \<Rightarrow>
          snd (cell_update mk args i ((i, \<lparr>cl_key = key, cl_router = None, cl_watching = True\<rparr>) # fst st, snd st))
      | RefreshRouter key args \<Rightarrow> snd (refresh mk key args st)
      | FinalizeRouter i \<Rightarrow>
          (case map_of (fst st) i of
             None \<Rightarrow> st
           | Some c \<Rightarrow> (AList.update i (c\<lparr>cl_router := None, cl_watching := False\<rparr>) (fst st), snd st)))"

definition cell_run :: "('a \<Rightarrow> js_error + 'r) \<Rightarrow> 'a cell_event list \<Rightarrow> 'r cells \<times> nat store \<Rightarrow> 'r cells \<times> nat store" where
  "cell_run mk evs st = foldl (\<lambda>st ev. cell_step mk ev st) st evs"

lemma cell_update_eq:
  "cell_update mk args i st =
     (case map_of (fst st) i of
        None \<Rightarrow> (None, st)
      | Some c \<Rightarrow>
          (case mk args of
             Inl e \<Rightarrow> (Some e, st)
           | Inr r \<Rightarrow>
               (None, AList.update i (c\<lparr>cl_router := Some r\<rparr>) (fst st),
                if cl_watching c then set_updater ''Route'' (cl_key c) (Some i) (snd st) else snd st)))"
  by (simp add: cell_update_def watched_update_def update_router_with_def split: option.split sum.split)

subsection \<open>Whose updater is registered\<close>

definition route_updaters :: "nat store \<Rightarrow> string \<Rightarrow> nat list" where
  "route_updaters s key = updaters_of s ''Route'' key"

text \<open>Under a key there is at most one updater, that of a cell of this key.\<close>

definition cells_ok :: "'r cells \<times> nat store \<Rightarrow> bool" where
  "cells_ok st \<longleftrightarrow>
     (\<forall>key. route_updaters (snd st) key = [] \<or>
        (\<exists>i c. route_updaters (snd st) key = [i] \<and> map_of (fst st) i = Some c \<and> cl_key c = key))"

lemma route_updaters_set:
  "route_updaters (set_updater ''Route'' key (Some i) s) key' = (if key' = key then [i] else route_updaters s key')"
  by (simp add: route_updaters_def)

lemma route_updaters_deleted:
  "route_updaters (s\<lparr>s_updaters := obj_set ''Route'' (obj_del key (listmap_of s ''Route'')) (s_updaters s)\<rparr>) key' =
     (if key' = key then [] else route_updaters s key')"
  by (simp add: route_updaters_def updaters_of_def listmap_of_def map_of_delete)

text \<open>What a refresh does, by what is registered under its key.\<close>

lemma refresh_cases:
  assumes "cells_ok st"
  obtains "route_updaters (snd st) key = []" "fst (snd (refresh mk key args st)) = fst st"
    "\<forall>key'. route_updaters (snd (snd (refresh mk key args st))) key' = route_updaters (snd st) key'"
  | i c where "route_updaters (snd st) key = [i]" "map_of (fst st) i = Some c" "cl_key c = key" "\<not> isl (mk args)"
    "fst (snd (refresh mk key args st)) = AList.update i (c\<lparr>cl_router := Some (projr (mk args))\<rparr>) (fst st)"
    "\<forall>key'. route_updaters (snd (snd (refresh mk key args st))) key' =
        (if key' = key then if cl_watching c then [i] else [] else route_updaters (snd st) key')"
  | i c where "route_updaters (snd st) key = [i]" "map_of (fst st) i = Some c" "cl_key c = key" "isl (mk args)"
    "fst (snd (refresh mk key args st)) = fst st"
    "\<forall>key'. route_updaters (snd (snd (refresh mk key args st))) key' =
        (if key' = key then [] else route_updaters (snd st) key')"
proof (cases "obj_get (listmap_of (snd st) ''Route'') key")
  case None
  then show thesis by (intro that(1)) (simp_all add: route_updaters_def updaters_of_def refresh_def Let_def)
next
  case (Some l)
  have l: "route_updaters (snd st) key = l" using Some by (simp add: route_updaters_def updaters_of_def)
  let ?s = "(snd st)\<lparr>s_updaters := obj_set ''Route'' (obj_del key (listmap_of (snd st) ''Route'')) (s_updaters (snd st))\<rparr>"
  have run: "refresh mk key args st = update_all mk args l (fst st, ?s)" using Some by (simp add: refresh_def Let_def)
  consider "l = []" | i c where "l = [i]" "map_of (fst st) i = Some c" "cl_key c = key"
    using assms l unfolding cells_ok_def by blast
  then show thesis
  proof cases
    case 1
    then show thesis using l by (intro that(1)) (simp_all add: run route_updaters_deleted)
  next
    case 2
    show thesis
    proof (cases "mk args")
      case (Inl e)
      then have "refresh mk key args st = (Some e, fst st, ?s)" using 2 by (simp add: run cell_update_eq)
      then show thesis using 2 l Inl by (intro that(3) [of i c]) (simp_all add: route_updaters_deleted)
    next
      case (Inr r)
      then have "refresh mk key args st = (None, AList.update i (c\<lparr>cl_router := Some r\<rparr>) (fst st),
          if cl_watching c then set_updater ''Route'' key (Some i) ?s else ?s)"
        using 2 by (simp add: run cell_update_eq)
      then show thesis
        using 2 l Inr by (intro that(2) [of i c]) (simp_all add: route_updaters_deleted route_updaters_set)
    qed
  qed
qed

lemma key_in: "map_of xs i = Some c \<Longrightarrow> i \<in> fst ` set xs"
  by (force dest: map_of_SomeD)

lemma cells_okI:
  assumes "cells_ok st" "\<And>i c. map_of (fst st) i = Some c \<Longrightarrow> \<exists>c'. map_of cs i = Some c' \<and> cl_key c' = cl_key c"
    and "\<And>k. route_updaters s k = route_updaters (snd st) k \<or> route_updaters s k = [] \<or>
           (\<exists>i c. route_updaters s k = [i] \<and> map_of cs i = Some c \<and> cl_key c = k)"
  shows "cells_ok (cs, s)"
  unfolding cells_ok_def fst_conv snd_conv
proof
  fix k
  have old: "route_updaters (snd st) k = [] \<or>
      (\<exists>i c. route_updaters (snd st) k = [i] \<and> map_of (fst st) i = Some c \<and> cl_key c = k)"
    using assms(1) unfolding cells_ok_def by (rule spec)
  from assms(3) [of k] show "route_updaters s k = [] \<or> (\<exists>i c. route_updaters s k = [i] \<and> map_of cs i = Some c \<and> cl_key c = k)"
  proof (elim disjE)
    assume "route_updaters s k = route_updaters (snd st) k"
    then show ?thesis using old assms(2) by (elim disjE exE conjE) (simp, metis)
  qed simp_all
qed

subsection \<open>Updates reach the requests\<close>

fun new_id :: "'a cell_event \<Rightarrow> nat list" where
  "new_id (NewRouter i key a) = [i]"
| "new_id (RefreshRouter key a) = []"
| "new_id (FinalizeRouter i) = []"

definition new_ids :: "'a cell_event list \<Rightarrow> nat list" where
  "new_ids evs = concat (map new_id evs)"

fun refresh_of :: "string \<Rightarrow> 'a cell_event \<Rightarrow> 'a list" where
  "refresh_of key (RefreshRouter k a) = (if k = key then [a] else [])"
| "refresh_of key ev = []"

definition refreshes :: "string \<Rightarrow> 'a cell_event list \<Rightarrow> 'a list" where
  "refreshes key evs = concat (map (refresh_of key) evs)"

text \<open>The event neither makes another router under the key nor finalizes this one.\<close>

fun leaves :: "string \<Rightarrow> nat \<Rightarrow> 'a cell_event \<Rightarrow> bool" where
  "leaves key i (NewRouter j k a) = (k \<noteq> key)"
| "leaves key i (RefreshRouter k a) = True"
| "leaves key i (FinalizeRouter j) = (j \<noteq> i)"

lemma cell_step_ok:
  assumes "cells_ok st" "set (new_id ev) \<inter> fst ` set (fst st) = {}"
  shows "cells_ok (cell_step mk ev st) \<and> fst ` set (fst (cell_step mk ev st)) \<subseteq> fst ` set (fst st) \<union> set (new_id ev)"
proof (cases ev)
  case (NewRouter i key a)
  let ?c = "\<lparr>cl_key = key, cl_router = None, cl_watching = True\<rparr>"
  have none: "map_of (fst st) i = None" using assms(2) NewRouter by (simp add: map_of_eq_None_iff)
  show ?thesis
  proof (cases "mk a")
    case (Inl e)
    then have run: "cell_step mk ev st = ((i, ?c) # fst st, snd st)" by (simp add: NewRouter cell_step_def cell_update_eq)
    show ?thesis unfolding run using none by (auto simp: NewRouter intro!: cells_okI [OF assms(1)])
  next
    case (Inr r)
    then have run: "cell_step mk ev st =
        ((i, ?c\<lparr>cl_router := Some r\<rparr>) # fst st, set_updater ''Route'' key (Some i) (snd st))"
      by (simp add: NewRouter cell_step_def cell_update_eq)
    show ?thesis
      unfolding run using none by (auto simp: NewRouter route_updaters_set intro!: cells_okI [OF assms(1)])
  qed
next
  case (RefreshRouter key a)
  let ?st = "snd (refresh mk key a st)"
  have run: "cell_step mk ev st = (fst ?st, snd ?st)" by (simp add: RefreshRouter cell_step_def)
  from assms(1) show ?thesis
  proof (cases rule: refresh_cases [of st key mk a])
    case 1
    then show ?thesis unfolding run by (auto intro!: cells_okI [OF assms(1)])
  next
    case (2 i c)
    then show ?thesis
      unfolding run by (auto simp: update_conv' dom_update dest: key_in intro!: cells_okI [OF assms(1)])
  next
    case (3 i c)
    then show ?thesis unfolding run by (auto intro!: cells_okI [OF assms(1)])
  qed
next
  case (FinalizeRouter i)
  show ?thesis
  proof (cases "map_of (fst st) i")
    case None
    then show ?thesis using assms(1) by (simp add: FinalizeRouter cell_step_def)
  next
    case (Some c)
    then have run: "cell_step mk ev st = (AList.update i (c\<lparr>cl_router := None, cl_watching := False\<rparr>) (fst st), snd st)"
      by (simp add: FinalizeRouter cell_step_def)
    show ?thesis
      unfolding run using Some
      by (auto simp: update_conv' dom_update dest: key_in intro!: cells_okI [OF assms(1)])
  qed
qed

lemma set_new_ids: "set (new_ids (es @ [e])) = set (new_ids es) \<union> set (new_id e)"
  by (simp add: new_ids_def)

interpretation cell_runs: history_machine "cell_step mk" "\<lambda>evs. distinct (new_ids evs)"
    "\<lambda>evs (st :: 'r cells \<times> nat store). cells_ok st \<and> fst ` set (fst st) \<subseteq> set (new_ids evs)"
  for mk :: "'a \<Rightarrow> js_error + 'r"
proof
  fix es and e :: "'a cell_event" and st :: "'r cells \<times> nat store"
  assume ids: "distinct (new_ids (es @ [e]))" and ok: "cells_ok st \<and> fst ` set (fst st) \<subseteq> set (new_ids es)"
  then have "set (new_id e) \<inter> fst ` set (fst st) = {}" by (auto simp: new_ids_def)
  then show "cells_ok (cell_step mk e st) \<and> fst ` set (fst (cell_step mk e st)) \<subseteq> set (new_ids (es @ [e]))"
    using cell_step_ok [of st e mk] ok set_new_ids [of es e] by blast
qed (simp add: new_ids_def)

lemma cell_run_ok:
  "distinct (new_ids evs) \<Longrightarrow>
   cells_ok (cell_run mk evs ([], empty_store)) \<and> fst ` set (fst (cell_run mk evs ([], empty_store))) \<subseteq> set (new_ids evs)"
  unfolding cell_run_def by (rule cell_runs.inv_run) (simp_all add: cells_ok_def route_updaters_def)

text \<open>The router of a cell that was given \<open>args\<close> one after the other: that of the last ones before
  the first that raise; the updater is registered as long as none raise.\<close>

definition serves :: "('a \<Rightarrow> js_error + 'r) \<Rightarrow> string \<Rightarrow> nat \<Rightarrow> 'a list \<Rightarrow> 'r cells \<times> nat store \<Rightarrow> bool" where
  "serves mk key i args st \<longleftrightarrow>
     map_of (fst st) i =
       Some \<lparr>cl_key = key, cl_router = Some (projr (mk (last (takeWhile (\<lambda>a. \<not> isl (mk a)) args)))), cl_watching = True\<rparr> \<and>
     route_updaters (snd st) key = (if list_all (\<lambda>a. \<not> isl (mk a)) args then [i] else [])"

lemma takeWhile_all: "list_all P xs \<Longrightarrow> takeWhile P xs = xs"
  by (induction xs) auto

lemma takeWhile_snoc:
  "takeWhile P (xs @ [x]) = (if list_all P xs then xs @ (if P x then [x] else []) else takeWhile P xs)"
  by (induction xs) auto

lemma serves_step:
  assumes "serves mk key i args st" "cells_ok st" "leaves key i ev" "set (new_id ev) \<inter> fst ` set (fst st) = {}"
  shows "serves mk key i (args @ refresh_of key ev) (cell_step mk ev st)"
proof (cases ev)
  case (NewRouter j k a)
  have "i \<in> fst ` set (fst st)" using assms(1) by (auto simp: serves_def dest: key_in)
  then have "j \<noteq> i" "k \<noteq> key" using assms(3,4) NewRouter by auto
  then show ?thesis
    using assms(1)
    by (auto simp: serves_def NewRouter cell_step_def cell_update_eq route_updaters_set split: sum.split)
next
  case (RefreshRouter k a)
  show ?thesis
  proof (cases "k = key")
    case False
    from assms(2) show ?thesis
    proof (cases rule: refresh_cases [of st k mk a])
      case 1
      then show ?thesis using assms(1) False by (simp add: serves_def RefreshRouter cell_step_def)
    next
      case (2 j c)
      then have "j \<noteq> i" using assms(1) False by (auto simp: serves_def)
      then show ?thesis using assms(1) False 2(5,6) by (simp add: serves_def RefreshRouter cell_step_def update_conv')
    next
      case (3 j c)
      then show ?thesis using assms(1) False by (simp add: serves_def RefreshRouter cell_step_def)
    qed
  next
    case True
    from assms(2) show ?thesis
    proof (cases rule: refresh_cases [of st k mk a])
      case 1
      then show ?thesis using assms(1) True by (simp add: serves_def RefreshRouter cell_step_def takeWhile_snoc split: if_splits)
    next
      case (2 j c)
      then have j: "j = i" and all: "list_all (\<lambda>a. \<not> isl (mk a)) args"
        using assms(1) True by (auto simp: serves_def split: if_splits)
      have c: "cl_key c = key" "cl_watching c" using assms(1) 2(2) j by (auto simp: serves_def)
      then have "c\<lparr>cl_router := x\<rparr> = \<lparr>cl_key = key, cl_router = x, cl_watching = True\<rparr>" for x by (cases c) simp
      then show ?thesis
        using True 2(4,5,6) j all c(2) by (simp add: serves_def RefreshRouter cell_step_def takeWhile_snoc update_conv')
    next
      case (3 j c)
      then show ?thesis
        using assms(1) True by (simp add: serves_def RefreshRouter cell_step_def takeWhile_snoc takeWhile_all split: if_splits)
    qed
  qed
next
  case (FinalizeRouter j)
  then have "j \<noteq> i" using assms(3) by simp
  then show ?thesis
    using assms(1) by (simp add: serves_def FinalizeRouter cell_step_def update_conv' split: option.split)
qed

lemma serves_run:
  assumes "distinct (new_ids (pre @ NewRouter i key a # post))" "\<not> isl (mk a)" "list_all (leaves key i) post"
  shows "serves mk key i (a # refreshes key post) (cell_run mk (pre @ NewRouter i key a # post) ([], empty_store))"
proof -
  let ?run = "\<lambda>evs. cell_run mk evs ([], empty_store)"
  have run_snoc: "?run (evs @ [ev]) = cell_step mk ev (?run evs)" for evs ev by (simp add: cell_run_def)
  have fresh: "set (new_id ev) \<inter> fst ` set (fst (?run evs)) = {}" if "distinct (new_ids (evs @ [ev]))" for evs ev
    using cell_run_ok [of evs mk] that by (auto simp: new_ids_def)
  have prefix: "distinct (new_ids evs)" if "distinct (new_ids (evs @ evs'))" for evs evs' :: "'a cell_event list"
    using that by (simp add: new_ids_def)
  show ?thesis
    using assms(1,3)
  proof (induction post rule: rev_induct)
    case Nil
    obtain r where r: "mk a = Inr r" using assms(2) by (cases "mk a") auto
    show ?case
      by (simp add: run_snoc serves_def cell_step_def cell_update_eq r refreshes_def route_updaters_set)
  next
    case (snoc ev post)
    let ?evs = "pre @ NewRouter i key a # post"
    have ids: "distinct (new_ids (?evs @ [ev]))" using snoc.prems(1) by simp
    have "serves mk key i ((a # refreshes key post) @ refresh_of key ev) (cell_step mk ev (?run ?evs))"
      using snoc.IH [OF prefix [OF ids]] snoc.prems(2) cell_run_ok [OF prefix [OF ids], of mk] fresh [OF ids]
      by (intro serves_step) simp_all
    then show ?case using run_snoc [of ?evs ev] by (simp add: refreshes_def)
  qed
qed


text \<open>An update that raises is the last one that the router ever sees.\<close>

lemma update_lost_after_raise:
  assumes "distinct (new_ids (pre @ NewRouter i key a # post1 @ RefreshRouter key bad # post2))" "\<not> isl (mk a)"
    and "list_all (leaves key i) post1" "list_all (leaves key i) post2" "isl (mk bad)"
  shows "map_of (fst (cell_run mk (pre @ NewRouter i key a # post1 @ RefreshRouter key bad # post2) ([], empty_store))) i =
     map_of (fst (cell_run mk (pre @ NewRouter i key a # post1) ([], empty_store))) i"
proof -
  have "distinct (new_ids (pre @ NewRouter i key a # post1))" using assms(1) by (simp add: new_ids_def Int_Un_distrib)
  note one = serves_run [where pre = pre and i = i and key = key and a = a and mk = mk and post = post1, OF this assms(2,3)]
  have "list_all (leaves key i) (post1 @ RefreshRouter key bad # post2)" using assms(3,4) by simp
  note all = serves_run [where pre = pre and i = i and key = key and a = a and mk = mk and post = "post1 @ RefreshRouter key bad # post2", OF assms(1,2) this]
  have "takeWhile P (xs @ bad # ys) = takeWhile P xs" if "\<not> P bad" for P xs ys
    using that by (induction xs) auto
  then have "takeWhile (\<lambda>x. \<not> isl (mk x)) (a # refreshes key (post1 @ RefreshRouter key bad # post2)) =
      takeWhile (\<lambda>x. \<not> isl (mk x)) (a # refreshes key post1)"
    using assms(5) by (simp add: refreshes_def)
  then show ?thesis using one all by (simp only: serves_def)
qed

text \<open>The maker of the example raises on an empty list of routes.\<close>

definition length_maker :: "resource list \<Rightarrow> js_error + nat" where
  "length_maker routes = (if routes = [] then Inl TypeError else Inr (length routes))"

definition ex_updates :: "resource list cell_event list" where
  "ex_updates = [RefreshRouter ''k'' [gw_a, gw_b], NewRouter 2 ''other'' [gw_b], RefreshRouter ''k'' [],
     RefreshRouter ''k'' [gw_b], FinalizeRouter 2]"


end
