(* ===== verification/Tls_Ends.thy ===== *)
theory Tls_Ends
  imports Router_L4
begin

text \<open>
  Both ends of TLS: \<open>src/modules/terminate-tls.js\<close>, which picks the server's certificate by
  the name in the hello, and \<open>src/modules/backend-tls.js\<close>, the client's settings towards a
  backend. Certificates and keys are values of \<open>crypto\<close>: \<open>parse_cert\<close> and \<open>parse_key\<close>
  give them from a secret (which may be missing) or raise.
\<close>

record cert =
  ct_common_name :: string
  ct_alt_names :: "string list"

subsection \<open>Terminating TLS\<close>

type_synonym 'k cert_pair = "cert \<times> 'k"

record 'k tls_server =
  ts_fulls :: "'k cert_pair obj"
  ts_posts :: "(string \<times> 'k cert_pair) list"
  ts_trusted :: "cert list option"
  ts_pqc :: "string option"

text \<open>The names of one certificate, in the order of the code: no sorting of the wildcards.\<close>

definition add_cert_name ::
    "'k cert_pair \<Rightarrow> string \<Rightarrow> 'k cert_pair obj \<times> (string \<times> 'k cert_pair) list \<Rightarrow>
     'k cert_pair obj \<times> (string \<times> 'k cert_pair) list" where
  "add_cert_name c n tabs =
     (if starts_with ''*'' n then (fst tabs, snd tabs @ [(to_lower (tl n), c)])
      else (obj_set (to_lower n) c (fst tabs), snd tabs))"

definition cert_names :: "cert \<Rightarrow> string list" where
  "cert_names c = ct_common_name c # ct_alt_names c"

fun add_certs ::
    "(string option \<Rightarrow> js_error + cert) \<Rightarrow> (string option \<Rightarrow> js_error + 'k) \<Rightarrow> string obj \<Rightarrow>
     (string \<times> string) list \<Rightarrow> 'k cert_pair obj \<times> (string \<times> 'k cert_pair) list \<Rightarrow>
     js_error + 'k cert_pair obj \<times> (string \<times> 'k cert_pair) list" where
  "add_certs parse_cert parse_key secrets [] tabs = Inr tabs"
| "add_certs parse_cert parse_key secrets ((crtFile, keyFile) # cs) tabs =
     bind_res (parse_cert (obj_get secrets crtFile)) (\<lambda>crt.
       bind_res (parse_key (obj_get secrets keyFile)) (\<lambda>key.
         add_certs parse_cert parse_key secrets cs
           (foldl (\<lambda>t n. add_cert_name (crt, key) n t) tabs (cert_names crt))))"

definition make_tls_server ::
    "(string option \<Rightarrow> js_error + cert) \<Rightarrow> (string option \<Rightarrow> js_error + 'k) \<Rightarrow> string obj \<Rightarrow>
     listener \<Rightarrow> js_error + 'k tls_server" where
  "make_tls_server parse_cert parse_key secrets l =
     bind_res (add_certs parse_cert parse_key secrets
                 (case l_tls l of None \<Rightarrow> [] | Some t \<Rightarrow> tc_certificates t) ([], []))
       (\<lambda>(fulls, posts).
          bind_res (case Option.bind (l_tls l) tc_frontend of
                      None \<Rightarrow> Inr None
                    | Some files \<Rightarrow>
                        bind_res (map_res (\<lambda>f. parse_cert (obj_get secrets f)) files) (\<lambda>cs. Inr (Some cs)))
            (\<lambda>trusted. Inr \<lparr>ts_fulls = fulls, ts_posts = posts, ts_trusted = trusted,
                            ts_pqc = Option.bind (l_tls l) tc_pqc\<rparr>))"

text \<open>\<open>findCertificate\<close>: the server name and the certificate that go into the context.\<close>

definition find_certificate :: "'k tls_server \<Rightarrow> string list \<Rightarrow> string \<times> 'k cert_pair option" where
  "find_certificate ts names =
     (let sni = sni_of names in (sni, host_lookup (ts_fulls ts) (ts_posts ts) (to_lower sni)))"

text \<open>The two gates: the protocol must be TLS, then a certificate must have been found.\<close>

definition terminate_gate :: "'k tls_server \<Rightarrow> string option \<Rightarrow> string list option \<Rightarrow> gate" where
  "terminate_gate ts proto hello =
     (case tls_gate proto of
        Wait \<Rightarrow> Wait
      | Deny \<Rightarrow> Deny
      | Pass \<Rightarrow>
          (case hello of
             None \<Rightarrow> Wait
           | Some names \<Rightarrow> if snd (find_certificate ts names) = None then Deny else Pass))"

lemma add_cert_names_tables:
  "snd (foldl (\<lambda>t n. add_cert_name c n t) tabs ns) =
     snd tabs @ map (\<lambda>n. (to_lower (tl n), c)) (filter (starts_with ''*'') ns)"
  "obj_get (fst (foldl (\<lambda>t n. add_cert_name c n t) tabs ns)) k =
     (if \<exists>n \<in> set ns. \<not> starts_with ''*'' n \<and> to_lower n = k then Some c else obj_get (fst tabs) k)"
  by (induction ns arbitrary: tabs) (auto simp: add_cert_name_def)

text \<open>The wildcards of a terminator are those of its certificates, in their order.\<close>

lemma add_certs_posts:
  "add_certs pc pk secrets cs tabs = Inr (fulls, posts) \<Longrightarrow>
   \<exists>pairs. list_all2 (\<lambda>(f, g) (c, k). pc (obj_get secrets f) = Inr c \<and> pk (obj_get secrets g) = Inr k) cs pairs \<and>
     posts = snd tabs @ concat (map (\<lambda>p. map (\<lambda>n. (to_lower (tl n), p))
       (filter (starts_with ''*'') (cert_names (fst p)))) pairs)"
proof (induction cs arbitrary: tabs)
  case (Cons x cs)
  obtain f g where x: "x = (f, g)" by force
  from Cons.prems obtain c k where ck: "pc (obj_get secrets f) = Inr c" "pk (obj_get secrets g) = Inr k"
    and rest: "add_certs pc pk secrets cs (foldl (\<lambda>t n. add_cert_name (c, k) n t) tabs (cert_names c))
      = Inr (fulls, posts)"
    by (auto simp: x bind_res_Inr_iff)
  obtain pairs where
    "list_all2 (\<lambda>(f, g) (c, k). pc (obj_get secrets f) = Inr c \<and> pk (obj_get secrets g) = Inr k) cs pairs"
    "posts = snd (foldl (\<lambda>t n. add_cert_name (c, k) n t) tabs (cert_names c)) @
       concat (map (\<lambda>p. map (\<lambda>n. (to_lower (tl n), p)) (filter (starts_with ''*'') (cert_names (fst p)))) pairs)"
    using Cons.IH [OF rest] by (elim exE conjE)
  then show ?case
    by (intro exI [of _ "(c, k) # pairs"]) (simp add: x ck add_cert_names_tables)
qed simp

lemma add_certs_fulls:
  assumes "\<And>n c. obj_get (fst tabs) n = Some c \<Longrightarrow> \<exists>x \<in> set (cert_names (fst c)). \<not> starts_with ''*'' x \<and> to_lower x = n"
    and "add_certs pc pk secrets cs tabs = Inr (fulls, posts)" "obj_get fulls n = Some c"
  shows "\<exists>x \<in> set (cert_names (fst c)). \<not> starts_with ''*'' x \<and> to_lower x = n"
  using assms
proof (induction cs arbitrary: tabs)
  case (Cons y cs)
  obtain f g where y: "y = (f, g)" by force
  from Cons.prems(2) obtain d k where
    rest: "add_certs pc pk secrets cs (foldl (\<lambda>t n. add_cert_name (d, k) n t) tabs (cert_names d)) = Inr (fulls, posts)"
    by (auto simp: y bind_res_Inr_iff)
  show ?case
    by (rule Cons.IH [OF _ rest Cons.prems(3)])
      (auto simp: add_cert_names_tables split: if_splits dest: Cons.prems(1))
qed auto

text \<open>C17: A TLS connection is never terminated with a certificate that does not cover the name in
  the hello: one of the names of the certificate that opens the gate is that name, or a
  wildcard that the name ends with, case ignored; and nothing but TLS passes.\<close>

theorem terminated_certificate_covers:
  assumes "make_tls_server parse_cert parse_key secrets l = Inr ts"
    and "terminate_gate ts proto (Some names) = Pass"
  shows "proto = Some ''TLS'' \<and>
         (\<exists>c x. snd (find_certificate ts names) = Some c \<and> x \<in> set (cert_names (fst c)) \<and>
            (if starts_with ''*'' x then ends_with (to_lower (tl x)) (to_lower (sni_of names))
             else to_lower x = to_lower (sni_of names)))"
proof
  show "proto = Some ''TLS''"
    using assms(2) by (auto simp: terminate_gate_def tls_gate_def split: gate.splits option.splits if_splits)
  then obtain c where c: "snd (find_certificate ts names) = Some c"
    using assms(2) by (auto simp: terminate_gate_def tls_gate_def split: if_splits)
  obtain fulls posts where cs: "add_certs parse_cert parse_key secrets
      (case l_tls l of None \<Rightarrow> [] | Some t \<Rightarrow> tc_certificates t) ([], []) = Inr (fulls, posts)"
    and ts: "ts_fulls ts = fulls" "ts_posts ts = posts"
    using assms(1) by (auto simp: make_tls_server_def bind_res_Inr_iff)
  let ?n = "to_lower (sni_of names)"
  have "host_lookup fulls posts ?n = Some c"
    using c by (simp add: find_certificate_def Let_def ts)
  from lookup_table.found [OF this]
  have "\<exists>x \<in> set (cert_names (fst c)).
      (if starts_with ''*'' x then ends_with (to_lower (tl x)) ?n else to_lower x = ?n)"
  proof
    assume "obj_get fulls ?n = Some c"
    from add_certs_fulls [OF _ cs this] show ?thesis by auto
  next
    assume "\<exists>p. (p, c) \<in> set posts \<and> ends_with p ?n"
    then show ?thesis using add_certs_posts [OF cs] by auto
  qed
  then show "\<exists>c x. snd (find_certificate ts names) = Some c \<and> x \<in> set (cert_names (fst c)) \<and>
      (if starts_with ''*'' x then ends_with (to_lower (tl x)) ?n else to_lower x = ?n)"
    using c by blast
qed

definition ex_cert :: "string option \<Rightarrow> js_error + cert" where
  "ex_cert s = (case s of None \<Rightarrow> Inl TypeError
     | Some cn \<Rightarrow> Inr \<lparr>ct_common_name = cn, ct_alt_names = []\<rparr>)"

definition ex_tls_listener :: listener where
  "ex_tls_listener = no_listener\<lparr>l_tls := Some \<lparr>tc_mode = Some ''Terminate'',
     tc_certificates = [(''1.crt'', ''1.key''), (''2.crt'', ''2.key'')], tc_frontend = None,
     tc_pqc = None\<rparr>\<rparr>"

definition ex_secrets :: "string obj" where
  "ex_secrets = [(''1.crt'', ''*.io''), (''2.crt'', ''*.a.io'')]"

definition ex_tls_server :: "nat tls_server" where
  "ex_tls_server = \<lparr>ts_fulls = [],
     ts_posts = [(''.io'', (\<lparr>ct_common_name = ''*.io'', ct_alt_names = []\<rparr>, 0)),
                 (''.a.io'', (\<lparr>ct_common_name = ''*.a.io'', ct_alt_names = []\<rparr>, 0))],
     ts_trusted = None, ts_pqc = None\<rparr>"

lemma ex_tls_lower:
  "to_lower ''.io'' = ''.io''" "to_lower ''.a.io'' = ''.a.io''" "to_lower ''x.a.io'' = ''x.a.io''"
  by (simp_all add: to_lower_def lower_char_def lower_table_def)

lemma ex_tls_server_made:
  "make_tls_server ex_cert (\<lambda>s. Inr (0::nat)) ex_secrets ex_tls_listener = Inr ex_tls_server"
  by (simp add: make_tls_server_def ex_tls_listener_def ex_secrets_def ex_cert_def cert_names_def
      add_cert_name_def starts_with_def ex_tls_lower ex_tls_server_def no_listener_def)

lemma ex_tls_found:
  "find_certificate ex_tls_server [''x.a.io''] =
     (''x.a.io'', Some (\<lparr>ct_common_name = ''*.io'', ct_alt_names = []\<rparr>, 0))"
  by (simp add: find_certificate_def ex_tls_server_def sni_of_def ex_tls_lower host_lookup_def
      postfix_find_def ends_with_def)

lemma terminated_certificate_covers_witness:
  "\<exists>c x. snd (find_certificate ex_tls_server [''x.a.io'']) = Some c \<and> x \<in> set (cert_names (fst c)) \<and>
     (if starts_with ''*'' x then ends_with (to_lower (tl x)) (to_lower (sni_of [''x.a.io'']))
      else to_lower x = to_lower (sni_of [''x.a.io'']))"
proof -
  have "terminate_gate ex_tls_server (Some ''TLS'') (Some [''x.a.io'']) = Pass"
    by (simp add: terminate_gate_def tls_gate_def ex_tls_found)
  from terminated_certificate_covers [OF ex_tls_server_made this] show ?thesis by (rule conjunct2)
qed

text \<open>Unlike the routers, the terminator does not prefer the more specific wildcard: of two
  wildcards that cover a name the one listed first wins, however short it is.\<close>

theorem first_wildcard_wins:
  assumes "obj_get (ts_fulls ts) (to_lower (sni_of names)) = None"
    and "ts_posts ts = before @ (p, c) # after" "ends_with p (to_lower (sni_of names))"
    and "\<forall>(q, d) \<in> set before. \<not> ends_with q (to_lower (sni_of names))"
  shows "snd (find_certificate ts names) = Some c"
proof -
  have "find (\<lambda>(q, _). ends_with q (to_lower (sni_of names))) before = None"
    using assms(4) by (auto simp: find_None)
  then have "postfix_find (ts_posts ts) (to_lower (sni_of names)) = Some c"
    using assms(2,3) by (simp add: postfix_find_def find_append)
  then show ?thesis using assms(1) by (simp add: find_certificate_def host_lookup_def Let_def)
qed


lemma first_wildcard_wins_witness:
  "snd (find_certificate ex_tls_server [''x.a.io'']) =
     Some (\<lparr>ct_common_name = ''*.io'', ct_alt_names = []\<rparr>, 0)"
  using first_wildcard_wins [of ex_tls_server "[''x.a.io'']" "[]" "''.io''"
      "(\<lparr>ct_common_name = ''*.io'', ct_alt_names = []\<rparr>, 0)"
      "[(''.a.io'', (\<lparr>ct_common_name = ''*.a.io'', ct_alt_names = []\<rparr>, 0))]"]
  by (simp add: ex_tls_server_def sni_of_def ex_tls_lower ends_with_def)

subsection \<open>TLS towards a backend\<close>

datatype verify = VerifySans "string option list" | VerifyName "string option"

record ('c, 'k) tls_client =
  tk_certificate :: "('c \<times> 'k) option"
  tk_sni :: "string option"
  tk_trusted :: "'c list option"
  tk_verify :: "verify option"
  tk_pqc :: "string option"

definition no_client :: "('c, 'k) tls_client" where
  "no_client = \<lparr>tk_certificate = None, tk_sni = None, tk_trusted = None, tk_verify = None, tk_pqc = None\<rparr>"

text \<open>\<open>tlsConfig || {}\<close>\<close>

definition some_client :: "('c, 'k) tls_client option \<Rightarrow> ('c, 'k) tls_client" where
  "some_client c = (case c of None \<Rightarrow> no_client | Some x \<Rightarrow> x)"

definition san_name :: "san_conf \<Rightarrow> string option" where
  "san_name s = (if sn_type s = Some ''URI'' then sn_uri s else sn_hostname s)"

definition make_backend_tls ::
    "(string option \<Rightarrow> js_error + 'c) \<Rightarrow> (string option \<Rightarrow> js_error + 'k) \<Rightarrow> 'cb store \<Rightarrow>
     resource \<Rightarrow> resource \<Rightarrow> js_error + ('c, 'k) tls_client option" where
  "make_backend_tls parse_cert parse_key s backend gateway =
     bind_res (find_policies s ''BackendTLSPolicy'' backend) (\<lambda>policies.
       case r_spec gateway of
         None \<Rightarrow> Inl TypeError
       | Some gsp \<Rightarrow>
           (let secret = obj_get (s_secrets s);
                validation = first_policy sp_validation policies;
                pqc = first_policy (set_text sp_pqc) policies
            in bind_res (case sp_clientCert gsp of
                           None \<Rightarrow> Inr None
                         | Some (crt, key) \<Rightarrow>
                             bind_res (parse_cert (secret crt)) (\<lambda>c.
                               bind_res (parse_key (secret key)) (\<lambda>k.
                                 Inr (Some (no_client\<lparr>tk_certificate := Some (c, k)\<rparr>)))))
                 (\<lambda>cfg. bind_res (case validation of
                           None \<Rightarrow> Inr cfg
                         | Some v \<Rightarrow>
                             bind_res (case tv_caCertificates v of
                                         None \<Rightarrow> Inr None
                                       | Some cas \<Rightarrow> bind_res (map_res (\<lambda>c. parse_cert (secret c)) cas)
                                                       (\<lambda>cs. Inr (Some cs)))
                               (\<lambda>trusted. Inr (Some ((some_client cfg)\<lparr>tk_sni := tv_hostname v,
                                   tk_trusted := trusted,
                                   tk_verify := Some (case tv_sans v of
                                      Some sans \<Rightarrow> VerifySans (map san_name sans)
                                    | None \<Rightarrow> VerifyName (tv_hostname v))\<rparr>))))
                   (\<lambda>cfg2. if truthy pqc then
                              (case cfg2 of None \<Rightarrow> Inl TypeError
                               | Some c \<Rightarrow> Inr (Some (c\<lparr>tk_pqc := pqc\<rparr>)))
                            else Inr cfg2))))"

text \<open>\<open>onVerify\<close> of a peer certificate.\<close>

definition verify_peer :: "verify \<Rightarrow> bool \<Rightarrow> cert \<Rightarrow> bool" where
  "verify_peer v ok c =
     (if \<not> ok then False
      else (case v of
              VerifySans names \<Rightarrow> list_ex (\<lambda>n. Some n \<in> set names) (ct_alt_names c)
            | VerifyName h \<Rightarrow> Some (ct_common_name c) = h))"

text \<open>A backend TLS policy that only asks for post-quantum key exchange breaks its backend:
  without a client certificate and a validation section there is no settings object to put
  \<open>pqc\<close> into, and the assignment raises.\<close>

theorem pqc_only_policy_raises:
  assumes "find_policies s ''BackendTLSPolicy'' backend = Inr policies"
    and "r_spec gateway = Some gsp" "sp_clientCert gsp = None"
    and "first_policy sp_validation policies = None" "truthy (first_policy (set_text sp_pqc) policies)"
  shows "make_backend_tls parse_cert parse_key s backend gateway = Inl TypeError"
  using assms by (simp add: make_backend_tls_def)


definition ex_pqc_policy :: resource where
  "ex_pqc_policy = \<lparr>r_obj = 1, r_kind = Some ''BackendTLSPolicy'', r_name = Some ''p'',
     r_spec = Some (no_spec\<lparr>sp_targetRefs := Some [\<lparr>tr_kind = Some ''Backend'', tr_name = Some ''b''\<rparr>],
                            sp_pqc := Some ''X25519MLKEM768''\<rparr>)\<rparr>"

definition ex_backend :: resource where
  "ex_backend = \<lparr>r_obj = 2, r_kind = Some ''Backend'', r_name = Some ''b'', r_spec = Some no_spec\<rparr>"

lemma ex_policies:
  "find_policies (append_resource ex_pqc_policy (empty_store :: nat store)) ''BackendTLSPolicy'' ex_backend =
     Inr [ex_pqc_policy]"
  by (simp add: find_policies_def ex_pqc_policy_def)
    (simp add: list_resources_def kind_map_of_def no_kind_map_def empty_store_def targets_resource_def
      ex_backend_def no_spec_def)

lemma pqc_only_policy_raises_witness:
  "make_backend_tls ex_cert (\<lambda>s. Inr (0::nat)) (append_resource ex_pqc_policy (empty_store :: nat store))
     ex_backend ex_backend = Inl TypeError"
  by (rule pqc_only_policy_raises [OF ex_policies, of ex_backend no_spec])
    (simp_all add: ex_backend_def no_spec_def first_policy_def ex_pqc_policy_def set_text_def)

end
