(* ===== verification/Health_Check.thy ===== *)
theory Health_Check
  imports Utils Machine
begin

text \<open>
  \<open>src/modules/health-check.js\<close>: the checked targets of a backend, their failure counters,
  and the shared set of unhealthy addresses that the balancers ask. The set is
  \<open>algo.SharedMap\<close>, given by \<open>has\<close>, \<open>put\<close> and \<open>del\<close> with the law of a dictionary. Times
  are in seconds.
\<close>

subsection \<open>State\<close>

record hc_target =
  ht_address :: string
  ht_conf :: hc_conf
  ht_healthy :: bool
  ht_fails :: nat
  ht_fail_time :: rat
  ht_last :: rat

record 'm hc_state =
  hs_active :: bool
  hs_targets :: "hc_target list"
  hs_flags :: 'm

definition flag_law ::
    "('m \<Rightarrow> string \<Rightarrow> bool) \<Rightarrow> (string \<Rightarrow> 'm \<Rightarrow> 'm) \<Rightarrow> (string \<Rightarrow> 'm \<Rightarrow> 'm) \<Rightarrow> bool" where
  "flag_law has put del \<longleftrightarrow>
     (\<forall>m a b. has (put a m) b = (b = a \<or> has m b) \<and> has (del a m) b = (b \<noteq> a \<and> has m b))"

lemma flag_law_set [simp]: "flag_law (\<lambda>m a. a \<in> m) insert (\<lambda>a m. m - {a})"
  by (auto simp: flag_law_def)

subsection \<open>Targets\<close>

text \<open>
  \<open>findTargets\<close>: the targets on a checked port. Without a path the pipeline of the check
  refers to \<open>checkAddress\<close>, which no scope declares.
\<close>

definition new_target :: "rat \<Rightarrow> hc_conf \<Rightarrow> string \<Rightarrow> nat \<Rightarrow> hc_target" where
  "new_target now hc address port =
     \<lparr>ht_address = address @ '':'' @ nat_str port, ht_conf = hc, ht_healthy = True, ht_fails = 0,
      ht_fail_time = 0, ht_last = now\<rparr>"

definition check_target ::
    "rat \<Rightarrow> nat \<Rightarrow> hc_conf \<Rightarrow> backend_target \<Rightarrow> js_error + hc_target list" where
  "check_target now port hc t =
     (if bt_port t \<noteq> Some port then Inr []
      else if \<not> truthy (hc_path hc) then Inl (ReferenceError ''checkAddress'')
      else Inr [new_target now hc (bt_address t) port])"

definition find_hc_targets ::
    "rat \<Rightarrow> (nat \<times> hc_conf) list \<Rightarrow> backend_target list option \<Rightarrow> js_error + hc_target list" where
  "find_hc_targets now ports targets =
     bind_res (map_res (\<lambda>(port, hc).
         case targets of
           None \<Rightarrow> Inl TypeError
         | Some ts \<Rightarrow> bind_res (map_res (check_target now port hc) ts) (\<lambda>xs. Inr (concat xs))) ports)
       (\<lambda>xss. Inr (concat xss))"

text \<open>
  \<open>update\<close>: the first policy of the backend, fresh targets, the updaters again. The shared
  set is not touched. \<open>None\<close> is the removal of a backend that is gone from the cache.
\<close>

definition update_hc ::
    "'cb \<Rightarrow> rat \<Rightarrow> string \<Rightarrow> 'cb store \<Rightarrow> 'm hc_state \<Rightarrow> js_error + 'm hc_state option \<times> 'cb store" where
  "update_hc cb now name s st =
     (case find_resource s ''Backend'' name of
        None \<Rightarrow> Inr (None, s)
      | Some res \<Rightarrow>
          bind_res (find_policies s ''HealthCheckPolicy'' res) (\<lambda>policies.
            bind_res (case policies of
                        [] \<Rightarrow> Inr (False, [])
                      | p # ps \<Rightarrow>
                          (case r_spec res of
                             None \<Rightarrow> Inl TypeError
                           | Some sp \<Rightarrow>
                               bind_res (find_hc_targets now
                                   (case r_spec p of None \<Rightarrow> [] | Some q \<Rightarrow> sp_ports q) (sp_targets sp))
                                 (\<lambda>ts. Inr (True, ts))))
              (\<lambda>(active, ts).
                 Inr (Some (st\<lparr>hs_active := active, hs_targets := ts\<rparr>),
                      add_updater ''Backend'' name cb
                        (set_updater ''HealthCheckPolicy'' name (Some cb) s)))))"

definition is_healthy :: "('m \<Rightarrow> string \<Rightarrow> bool) \<Rightarrow> 'm hc_state \<Rightarrow> string \<Rightarrow> bool" where
  "is_healthy has st address \<longleftrightarrow> \<not> hs_active st \<or> \<not> has (hs_flags st) address"

subsection \<open>Checking\<close>

text \<open>A response passes when it satisfies every match of the policy.\<close>

definition match_response :: "message \<Rightarrow> hc_match \<Rightarrow> bool" where
  "match_response res m =
     (case hm_statusCodes m of
        Some codes \<Rightarrow> hd_status (ms_head res) \<in> set codes
      | None \<Rightarrow>
          if truthy (hm_body m) then ms_body res = the (hm_body m)
          else (case hm_headers m of
                  Some hs \<Rightarrow> list_all (\<lambda>(k, v).
                      obj_get (hd_headers (ms_head res)) (to_lower k) = Some (One v)) hs
                | None \<Rightarrow> True))"

definition response_passes :: "hc_conf \<Rightarrow> message \<Rightarrow> bool" where
  "response_passes hc res = (\<not> list_ex (\<lambda>m. \<not> match_response res m) (hc_matches hc))"

definition reset_target :: "hc_target \<Rightarrow> hc_target" where
  "reset_target t = t\<lparr>ht_healthy := True, ht_fails := 0, ht_fail_time := 0\<rparr>"

definition fail_target :: "rat \<Rightarrow> hc_target \<Rightarrow> hc_target" where
  "fail_target now t =
     (let n = Suc (ht_fails t)
      in t\<lparr>ht_fails := n, ht_fail_time := now,
           ht_healthy := (if num_ge (Some (of_nat n)) (hc_maxFails (ht_conf t)) then False
                          else ht_healthy t)\<rparr>)"

definition fail_flag :: "(string \<Rightarrow> 'm \<Rightarrow> 'm) \<Rightarrow> hc_target \<Rightarrow> 'm \<Rightarrow> 'm" where
  "fail_flag put t m =
     (if num_ge (Some (of_nat (Suc (ht_fails t)))) (hc_maxFails (ht_conf t))
      then put (ht_address t) m else m)"

text \<open>\<open>check\<close>: with an interval, whether a probe is due; without, recovery after \<open>failTimeout\<close>.\<close>

datatype check_result = Probe | Recover | Idle

definition check_of :: "rat \<Rightarrow> hc_target \<Rightarrow> check_result" where
  "check_of now t =
     (case hc_interval (ht_conf t) of
        Some i \<Rightarrow>
          if i \<noteq> 0 then (if i \<le> now - ht_last t then Probe else Idle)
          else if \<not> ht_healthy t \<and> num_ge (Some (now - ht_fail_time t)) (hc_failTimeout (ht_conf t))
          then Recover else Idle
      | None \<Rightarrow>
          if \<not> ht_healthy t \<and> num_ge (Some (now - ht_fail_time t)) (hc_failTimeout (ht_conf t))
          then Recover else Idle)"

text \<open>What happens to the target at a position: a check, or the outcome of a probe.\<close>

datatype hc_event = CheckAt nat rat | ProbeOk nat | ProbeFailed nat rat

definition hc_step ::
    "(string \<Rightarrow> 'm \<Rightarrow> 'm) \<Rightarrow> (string \<Rightarrow> 'm \<Rightarrow> 'm) \<Rightarrow> hc_event \<Rightarrow> 'm hc_state \<Rightarrow> 'm hc_state" where
  "hc_step put del ev st =
     (case ev of
        CheckAt i now \<Rightarrow>
          if i < length (hs_targets st) then
            (let t = hs_targets st ! i in
             case check_of now t of
               Probe \<Rightarrow> st\<lparr>hs_targets := (hs_targets st)[i := t\<lparr>ht_last := now\<rparr>]\<rparr>
             | Recover \<Rightarrow> st\<lparr>hs_targets := (hs_targets st)[i := reset_target t],
                            hs_flags := del (ht_address t) (hs_flags st)\<rparr>
             | Idle \<Rightarrow> st)
          else st
      | ProbeOk i \<Rightarrow>
          if i < length (hs_targets st) then
            (let t = hs_targets st ! i
             in st\<lparr>hs_targets := (hs_targets st)[i := reset_target t],
                   hs_flags := del (ht_address t) (hs_flags st)\<rparr>)
          else st
      | ProbeFailed i now \<Rightarrow>
          if i < length (hs_targets st) then
            (let t = hs_targets st ! i
             in st\<lparr>hs_targets := (hs_targets st)[i := fail_target now t],
                   hs_flags := fail_flag put t (hs_flags st)\<rparr>)
          else st)"

definition hc_run ::
    "(string \<Rightarrow> 'm \<Rightarrow> 'm) \<Rightarrow> (string \<Rightarrow> 'm \<Rightarrow> 'm) \<Rightarrow> hc_event list \<Rightarrow> 'm hc_state \<Rightarrow> 'm hc_state" where
  "hc_run put del evs st = foldl (\<lambda>st ev. hc_step put del ev st) st evs"

subsection \<open>The flags agree with the targets\<close>

text \<open>Each target is flagged exactly when it is unhealthy, which is when it has failed too often.\<close>

definition hc_ok :: "('m \<Rightarrow> string \<Rightarrow> bool) \<Rightarrow> 'm hc_state \<Rightarrow> bool" where
  "hc_ok has st \<longleftrightarrow> distinct (map ht_address (hs_targets st)) \<and>
     (\<forall>t \<in> set (hs_targets st).
        (has (hs_flags st) (ht_address t) \<longleftrightarrow> \<not> ht_healthy t) \<and>
        (\<not> ht_healthy t \<longleftrightarrow> 0 < ht_fails t \<and> num_ge (Some (of_nat (ht_fails t))) (hc_maxFails (ht_conf t))))"

lemma num_ge_Suc:
  "num_ge (Some (of_nat n)) v \<Longrightarrow> num_ge (Some (of_nat (Suc n))) v"
  by (cases v) auto

lemma set_update_distinct:
  assumes "i < length ts" "distinct (map f ts)" "f t' = f (ts ! i)"
  shows "distinct (map f (ts[i := t']))"
    and "t \<in> set (ts[i := t']) \<Longrightarrow> t = t' \<or> (t \<in> set ts \<and> f t \<noteq> f (ts ! i))"
proof -
  have "map f (ts[i := t']) = map f ts"
    using assms(1,3) by (simp add: map_update list_update_same_conv)
  then show "distinct (map f (ts[i := t']))" using assms(2) by simp
  assume "t \<in> set (ts[i := t'])"
  then obtain j where j: "j < length ts" "t = ts[i := t'] ! j" by (auto simp: in_set_conv_nth)
  show "t = t' \<or> (t \<in> set ts \<and> f t \<noteq> f (ts ! i))"
  proof (cases "j = i")
    case False
    then have "t = ts ! j" using j by simp
    moreover have "f (ts ! j) \<noteq> f (ts ! i)"
      using assms(1,2) j(1) False by (simp add: distinct_conv_nth)
    ultimately show ?thesis using j(1) by simp
  qed (use j in simp)
qed

text \<open>One target changes together with its own flag.\<close>

lemma hc_ok_update:
  assumes ok: "hc_ok has st" and i: "i < length (hs_targets st)"
    and addr: "ht_address t' = ht_address (hs_targets st ! i)"
    and flags: "\<And>a. a \<noteq> ht_address (hs_targets st ! i) \<Longrightarrow> has m a = has (hs_flags st) a"
    and own: "has m (ht_address t') \<longleftrightarrow> \<not> ht_healthy t'"
    and cond: "\<not> ht_healthy t' \<longleftrightarrow> 0 < ht_fails t' \<and> num_ge (Some (of_nat (ht_fails t'))) (hc_maxFails (ht_conf t'))"
  shows "hc_ok has (st\<lparr>hs_targets := (hs_targets st)[i := t'], hs_flags := m\<rparr>)"
proof -
  have d: "distinct (map ht_address (hs_targets st))" using ok by (simp add: hc_ok_def)
  note upd = set_update_distinct [OF i d addr]
  show ?thesis
    unfolding hc_ok_def
  proof (simp, intro conjI ballI)
    show "distinct (map ht_address ((hs_targets st)[i := t']))" by (rule upd(1))
    fix t assume "t \<in> set ((hs_targets st)[i := t'])"
    from upd(2) [OF this]
    show "has m (ht_address t) = (\<not> ht_healthy t)"
      and "(\<not> ht_healthy t) = (0 < ht_fails t \<and> num_ge (Some (rat_of_nat (ht_fails t))) (hc_maxFails (ht_conf t)))"
      using own cond flags ok unfolding hc_ok_def by auto
  qed
qed

lemma hc_step_ok:
  assumes law: "flag_law has put del" and ok: "hc_ok has st"
  shows "hc_ok has (hc_step put del ev st)"
proof -
  let ?t = "\<lambda>i. hs_targets st ! i"
  have t: "(has (hs_flags st) (ht_address (?t i)) \<longleftrightarrow> \<not> ht_healthy (?t i)) \<and>
      (\<not> ht_healthy (?t i) \<longleftrightarrow> 0 < ht_fails (?t i) \<and>
         num_ge (Some (of_nat (ht_fails (?t i)))) (hc_maxFails (ht_conf (?t i))))"
    if "i < length (hs_targets st)" for i
    using ok that unfolding hc_ok_def by auto
  have reset: "hc_ok has (st\<lparr>hs_targets := (hs_targets st)[i := reset_target (?t i)],
      hs_flags := del (ht_address (?t i)) (hs_flags st)\<rparr>)" if "i < length (hs_targets st)" for i
    by (rule hc_ok_update [OF ok that]) (use law in \<open>auto simp: reset_target_def flag_law_def\<close>)
  have fail: "hc_ok has (st\<lparr>hs_targets := (hs_targets st)[i := fail_target now (?t i)],
      hs_flags := fail_flag put (?t i) (hs_flags st)\<rparr>)" if i: "i < length (hs_targets st)" for i now
    by (rule hc_ok_update [OF ok i])
      (use law t [OF i] num_ge_Suc [of "ht_fails (?t i)" "hc_maxFails (ht_conf (?t i))"] in
        \<open>auto simp: fail_target_def fail_flag_def flag_law_def Let_def\<close>)
  have last: "hc_ok has (st\<lparr>hs_targets := (hs_targets st)[i := (?t i)\<lparr>ht_last := now\<rparr>]\<rparr>)"
    if i: "i < length (hs_targets st)" for i now
    using hc_ok_update [OF ok i, of "(?t i)\<lparr>ht_last := now\<rparr>" "hs_flags st"] t [OF i] by simp
  show ?thesis
    using reset fail last ok by (auto simp: hc_step_def Let_def split: hc_event.splits check_result.splits)
qed

lemma hc_run_ok:
  assumes "flag_law has put del"
  shows "hc_ok has st \<Longrightarrow> hc_ok has (hc_run put del evs st)"
  unfolding hc_run_def
  by (rule event_machine.always [where inv = "hc_ok has"]) (unfold_locales, rule hc_step_ok [OF assms])

interpretation hc_active: conserving_machine "hc_step put del" hs_active for put del
  by unfold_locales (auto simp: hc_step_def Let_def split: hc_event.splits check_result.splits)

lemma hc_run_active: "hs_active (hc_run put del evs st) = hs_active st"
  unfolding hc_run_def by (rule hc_active.conserved)



definition ex_hc :: hc_conf where
  "ex_hc = \<lparr>hc_path = Some ''/'', hc_interval = Some 5, hc_maxFails = Some 2,
     hc_failTimeout = Some 30, hc_matches = []\<rparr>"

definition ex_hc_state :: "string set hc_state" where
  "ex_hc_state = \<lparr>hs_active = True, hs_targets = [new_target 0 ex_hc ''a'' 1], hs_flags = {}\<rparr>"


text \<open>A step changes one target, never its address, and the flag of that address alone.\<close>

lemma hc_step_shape:
  obtains "hc_step put del ev st = st"
  | i t' m where "i < length (hs_targets st)" "ht_address t' = ht_address (hs_targets st ! i)"
      "m = hs_flags st \<or> m = put (ht_address t') (hs_flags st) \<or> m = del (ht_address t') (hs_flags st)"
      "hc_step put del ev st = st\<lparr>hs_targets := (hs_targets st)[i := t'], hs_flags := m\<rparr>"
proof (cases ev)
  case (CheckAt i now)
  show ?thesis
  proof (cases "i < length (hs_targets st)")
    case True
    show ?thesis
    proof (cases "check_of now (hs_targets st ! i)")
      case Probe
      show ?thesis
        by (rule that(2) [OF True, of "(hs_targets st ! i)\<lparr>ht_last := now\<rparr>" "hs_flags st"])
          (use CheckAt True Probe in \<open>simp_all add: hc_step_def Let_def\<close>)
    next
      case Recover
      show ?thesis
        by (rule that(2) [OF True, of "reset_target (hs_targets st ! i)"])
          (use CheckAt True Recover in \<open>simp_all add: hc_step_def Let_def reset_target_def\<close>)
    next
      case Idle
      then show ?thesis using that(1) CheckAt True by (simp add: hc_step_def Let_def)
    qed
  next
    case False
    then show ?thesis using that(1) CheckAt by (simp add: hc_step_def)
  qed
next
  case (ProbeOk i)
  show ?thesis
  proof (cases "i < length (hs_targets st)")
    case True
    show ?thesis
      by (rule that(2) [OF True, of "reset_target (hs_targets st ! i)"])
        (use ProbeOk True in \<open>simp_all add: hc_step_def Let_def reset_target_def\<close>)
  next
    case False
    then show ?thesis using that(1) ProbeOk by (simp add: hc_step_def)
  qed
next
  case (ProbeFailed i now)
  show ?thesis
  proof (cases "i < length (hs_targets st)")
    case True
    show ?thesis
      by (rule that(2) [OF True, of "fail_target now (hs_targets st ! i)"
            "fail_flag put (hs_targets st ! i) (hs_flags st)"])
        (use ProbeFailed True in \<open>simp_all add: hc_step_def Let_def fail_target_def fail_flag_def\<close>)
  next
    case False
    then show ?thesis using that(1) ProbeFailed by (simp add: hc_step_def)
  qed
qed

lemma stale_step:
  assumes "flag_law has put del" "has (hs_flags u) a" "\<forall>t \<in> set (hs_targets u). ht_address t \<noteq> a"
  shows "has (hs_flags (hc_step put del ev u)) a \<and>
    hs_active (hc_step put del ev u) = hs_active u \<and>
    (\<forall>t \<in> set (hs_targets (hc_step put del ev u)). ht_address t \<noteq> a)"
proof (cases rule: hc_step_shape [of put del ev u])
  case 1
  then show ?thesis using assms(2,3) by simp
next
  case (2 i t' m)
  have other: "ht_address t' \<noteq> a" using 2(1,2) assms(3) by simp
  have "\<forall>t \<in> set ((hs_targets u)[i := t']). ht_address t \<noteq> a"
    using other assms(3) set_update_subset_insert [of "hs_targets u" i t'] by auto
  moreover have "has m a" using 2(3) other assms(1,2) by (auto simp: flag_law_def)
  ultimately show ?thesis using 2(4) by simp
qed

lemma stale_run:
  assumes "flag_law has put del"
  shows "has (hs_flags u) a \<Longrightarrow> \<forall>t \<in> set (hs_targets u). ht_address t \<noteq> a \<Longrightarrow>
    has (hs_flags (hc_run put del evs u)) a \<and> hs_active (hc_run put del evs u) = hs_active u"
  unfolding hc_run_def
proof (induction evs arbitrary: u)
  case (Cons ev evs)
  from stale_step [OF assms Cons.prems, of ev] Cons.IH [of "hc_step put del ev u"]
  show ?case by simp
qed simp

text \<open>A stale flag is never cleared: \<open>update\<close> makes new targets but leaves the shared set as it
  is, so an address that was unhealthy and that the new policy does not check any more stays
  excluded, whatever is checked from then on.\<close>

theorem stale_flag_never_cleared:
  assumes "flag_law has put del"
    and "update_hc cb now name s st = Inr (Some st1, s1)" "hs_active st1"
    and "has (hs_flags st) address" "\<forall>t \<in> set (hs_targets st1). ht_address t \<noteq> address"
  shows "\<not> is_healthy has (hc_run put del evs st1) address"
proof -
  have "hs_flags st1 = hs_flags st"
    using assms(2) by (auto simp: update_hc_def bind_res_Inr_iff split: option.splits)
  then have flag: "has (hs_flags st1) address" using assms(4) by simp
  from stale_run [OF assms(1) flag assms(5), of evs] assms(3)
  have "has (hs_flags (hc_run put del evs st1)) address \<and> hs_active (hc_run put del evs st1)"
    by simp
  then show ?thesis by (simp add: is_healthy_def)
qed

text \<open>A health check without a path cannot be set up: as soon as a target is on the checked
  port, building its pipeline reads the undeclared \<open>checkAddress\<close> and the update raises.\<close>

lemma check_without_path_raises:
  assumes "(port, hc) = hd ports" "ports \<noteq> []" "\<not> truthy (hc_path hc)"
    and "t \<in> set ts" "bt_port t = Some port"
  shows "find_hc_targets now ports (Some ts) = Inl (ReferenceError ''checkAddress'')"
proof -
  have "map_res (check_target now port hc) ts = Inl (ReferenceError ''checkAddress'')"
    using assms(4)
  proof (induction ts)
    case (Cons u us)
    show ?case
    proof (cases "bt_port u = Some port")
      case True
      then show ?thesis using assms(3) by (simp add: check_target_def)
    next
      case False
      then have "t \<in> set us" using Cons.prems assms(5) by auto
      then show ?thesis using False Cons.IH by (simp add: check_target_def)
    qed
  qed simp
  then show ?thesis using assms(1,2) by (cases ports) (auto simp: find_hc_targets_def)
qed

definition ex_hc_policy :: resource where
  "ex_hc_policy = \<lparr>r_obj = 1, r_kind = Some ''HealthCheckPolicy'', r_name = Some ''p'',
     r_spec = Some (no_spec\<lparr>sp_targetRefs := Some [\<lparr>tr_kind = Some ''Backend'', tr_name = Some ''b''\<rparr>],
                            sp_ports := [(80, ex_hc)]\<rparr>)\<rparr>"

definition ex_hc_backend :: resource where
  "ex_hc_backend = \<lparr>r_obj = 2, r_kind = Some ''Backend'', r_name = Some ''b'',
     r_spec = Some (no_spec\<lparr>sp_targets := Some [\<lparr>bt_address = ''a'', bt_port = Some 1,
                              bt_appProtocol = None, bt_weight = None\<rparr>]\<rparr>)\<rparr>"

definition ex_hc_store :: "nat store" where
  "ex_hc_store = append_resource ex_hc_policy (append_resource ex_hc_backend empty_store)"

lemma ex_hc_update:
  "\<exists>s1. update_hc 7 0 ''b'' ex_hc_store (ex_hc_state\<lparr>hs_flags := {''a:1''}\<rparr>) =
     Inr (Some (ex_hc_state\<lparr>hs_flags := {''a:1''}, hs_targets := []\<rparr>), s1)"
proof -
  have "find_resource ex_hc_store ''Backend'' ''b'' = Some ex_hc_backend"
    by (simp add: ex_hc_store_def ex_hc_policy_def ex_hc_backend_def)
  moreover have "list_resources (empty_store :: nat store) k = []" for k
    by (simp add: list_resources_def kind_map_of_def no_kind_map_def empty_store_def)
  then have "find_policies ex_hc_store ''HealthCheckPolicy'' ex_hc_backend = Inr [ex_hc_policy]"
    by (simp add: find_policies_def ex_hc_store_def ex_hc_policy_def ex_hc_backend_def
        targets_resource_def)
  moreover obtain b where "r_spec ex_hc_backend = Some b"
      "sp_targets b = Some [\<lparr>bt_address = ''a'', bt_port = Some 1,
                              bt_appProtocol = None, bt_weight = None\<rparr>]"
    by (simp add: ex_hc_backend_def)
  moreover obtain q where "r_spec ex_hc_policy = Some q" "sp_ports q = [(80, ex_hc)]"
    by (simp add: ex_hc_policy_def)
  moreover have "find_hc_targets 0 [(80, ex_hc)] (Some [\<lparr>bt_address = ''a'', bt_port = Some 1,
                              bt_appProtocol = None, bt_weight = None\<rparr>]) = Inr []"
    by (simp add: find_hc_targets_def check_target_def)
  ultimately show ?thesis
    by (simp add: update_hc_def ex_hc_state_def)
qed

lemma stale_flag_never_cleared_witness:
  "\<not> is_healthy (\<lambda>m a. a \<in> m) (hc_run insert (\<lambda>a m. m - {a}) [ProbeOk 0]
      (ex_hc_state\<lparr>hs_flags := {''a:1''}, hs_targets := []\<rparr>)) ''a:1''"
proof -
  from ex_hc_update obtain s1 where u: "update_hc 7 0 ''b'' ex_hc_store (ex_hc_state\<lparr>hs_flags := {''a:1''}\<rparr>) =
     Inr (Some (ex_hc_state\<lparr>hs_flags := {''a:1''}, hs_targets := []\<rparr>), s1)" by (elim exE)
  show ?thesis
  proof (rule stale_flag_never_cleared [OF flag_law_set u])
    show "hs_active (ex_hc_state\<lparr>hs_flags := {''a:1''}, hs_targets := []\<rparr>)"
      by (simp add: ex_hc_state_def)
    show "''a:1'' \<in> hs_flags (ex_hc_state\<lparr>hs_flags := {''a:1''}\<rparr>)" by simp
    show "\<forall>t \<in> set (hs_targets (ex_hc_state\<lparr>hs_flags := {''a:1''}, hs_targets := []\<rparr>)).
        ht_address t \<noteq> ''a:1''" by simp
  qed
qed

end
