(* ===== verification/Balancer.thy ===== *)
theory Balancer
  imports Tls_Ends Backend Health_Check Session
begin

text \<open>
  \<open>src/modules/balancer.js\<close> and the four balancers it chooses from: \<open>balancer-http.js\<close>,
  \<open>balancer-tcp.js\<close>, \<open>balancer-udp.js\<close> and \<open>balancer-dubbo.js\<close>. Each joins a backend, its
  TLS settings, its health check and its session persistence. \<open>algo.LoadBalancer\<close> is the
  parameter \<open>alloc\<close>: from its state, an optional target address to prefer and the test of the
  targets to a target, with the laws of its documentation.
\<close>

type_synonym 'lb allocator =
  "'lb \<Rightarrow> string option \<Rightarrow> (endpoint_target \<Rightarrow> bool) \<Rightarrow> endpoint_target option \<times> 'lb"

definition alloc_law :: "'lb allocator \<Rightarrow> ('lb \<Rightarrow> endpoint_target list) \<Rightarrow> bool" where
  "alloc_law alloc targets \<longleftrightarrow>
     (\<forall>lb hint ok. targets (snd (alloc lb hint ok)) = targets lb \<and>
        (case fst (alloc lb hint ok) of
           None \<Rightarrow> \<forall>t \<in> set (targets lb). \<not> ok t
         | Some t \<Rightarrow> t \<in> set (targets lb) \<and> ok t))"

text \<open>A healthy target with the preferred address is taken.\<close>

definition hint_law :: "'lb allocator \<Rightarrow> ('lb \<Rightarrow> endpoint_target list) \<Rightarrow> bool" where
  "hint_law alloc targets \<longleftrightarrow>
     (\<forall>lb a ok. (\<exists>t \<in> set (targets lb). et_address t = a \<and> ok t) \<longrightarrow>
        (\<exists>t. fst (alloc lb (Some a) ok) = Some t \<and> et_address t = a))"

subsection \<open>Making a balancer\<close>

text \<open>
  The cache entry of a health check: only the main thread loads the policy and checks, the
  other threads keep \<open>healthCheckPolicy\<close> at null and share the set of unhealthy addresses.
\<close>

definition start_hc ::
    "nat \<Rightarrow> 'cb \<Rightarrow> rat \<Rightarrow> string \<Rightarrow> 'm \<Rightarrow> 'cb store \<Rightarrow> js_error + 'm hc_state \<times> 'cb store" where
  "start_hc thread cb now name flags s =
     (let st = \<lparr>hs_active = False, hs_targets = [], hs_flags = flags\<rparr>
      in if thread = 0 then
           bind_res (update_hc cb now name s st) (\<lambda>(st1, s1).
             Inr (case st1 of None \<Rightarrow> st | Some x \<Rightarrow> x, s1))
         else Inr (st, s))"

record ('c, 'k) http_balancer =
  hb_backend :: backend
  hb_tls :: "('c, 'k) tls_client option"
  hb_session :: "session_conf option"
  hb_h2 :: bool

datatype ('c, 'k) balancer =
  HttpBalancer "('c, 'k) http_balancer"
| TcpBalancer backend "('c, 'k) tls_client option"
| UdpBalancer backend
| DubboBalancer backend

text \<open>
  The environment of a balancer: the thread, the time, the callback of the health check, the
  shared set and the parsers of certificates and keys.
\<close>

record ('cb, 'm, 'c, 'k) bal_env =
  bv_thread :: nat
  bv_now :: rat
  bv_hc_cb :: 'cb
  bv_flags :: 'm
  bv_cert :: "string option \<Rightarrow> js_error + 'c"
  bv_key :: "string option \<Rightarrow> js_error + 'k"

text \<open>\<open>makeBackendTLS\<close> reads \<open>gateway.spec\<close>, so a missing gateway raises.\<close>

definition backend_tls_for ::
    "('cb, 'm, 'c, 'k) bal_env \<Rightarrow> 'cb store \<Rightarrow> resource \<Rightarrow> resource option \<Rightarrow>
     js_error + ('c, 'k) tls_client option" where
  "backend_tls_for env s res gateway =
     (case gateway of
        None \<Rightarrow> Inl TypeError
      | Some gw \<Rightarrow> make_backend_tls (bv_cert env) (bv_key env) s res gw)"

definition make_http_balancer ::
    "('cb, 'm, 'c, 'k) bal_env \<Rightarrow> resource \<Rightarrow> resource option \<Rightarrow> bool \<Rightarrow> 'cb store \<Rightarrow>
     js_error + ('c, 'k) http_balancer \<times> 'm hc_state \<times> 'cb store" where
  "make_http_balancer env res gateway is_h2 s =
     (case r_name res of
        None \<Rightarrow> Inl TypeError
      | Some name \<Rightarrow>
          bind_res (make_backend s name) (\<lambda>be.
            bind_res (start_hc (bv_thread env) (bv_hc_cb env) (bv_now env) name (bv_flags env) s)
              (\<lambda>(hc, s1).
                 bind_res (backend_tls_for env s1 res gateway) (\<lambda>tls.
                   bind_res (find_policies s1 ''BackendLBPolicy'' res) (\<lambda>policies.
                     Inr (\<lparr>hb_backend = be, hb_tls = tls,
                           hb_session = first_policy sp_session policies, hb_h2 = is_h2\<rparr>, hc, s1))))))"

definition make_tcp_balancer ::
    "('cb, 'm, 'c, 'k) bal_env \<Rightarrow> resource \<Rightarrow> resource option \<Rightarrow> 'cb store \<Rightarrow>
     js_error + backend \<times> ('c, 'k) tls_client option" where
  "make_tcp_balancer env res gateway s =
     (case r_name res of
        None \<Rightarrow> Inl TypeError
      | Some name \<Rightarrow>
          bind_res (make_backend s name) (\<lambda>be.
            bind_res (backend_tls_for env s res gateway) (\<lambda>tls. Inr (be, tls))))"

definition make_udp_balancer :: "resource \<Rightarrow> 'cb store \<Rightarrow> js_error + backend" where
  "make_udp_balancer res s =
     (case r_name res of None \<Rightarrow> Inl TypeError | Some name \<Rightarrow> make_backend s name)"

definition make_dubbo_balancer ::
    "('cb, 'm, 'c, 'k) bal_env \<Rightarrow> resource \<Rightarrow> 'cb store \<Rightarrow>
     js_error + backend \<times> 'm hc_state \<times> 'cb store" where
  "make_dubbo_balancer env res s =
     (case r_name res of
        None \<Rightarrow> Inl TypeError
      | Some name \<Rightarrow>
          bind_res (make_backend s name) (\<lambda>be.
            bind_res (start_hc (bv_thread env) (bv_hc_cb env) (bv_now env) name (bv_flags env) s)
              (\<lambda>(hc, s1). Inr (be, hc, s1))))"

text \<open>The default export of \<open>balancer.js\<close>; the third component is the store afterwards.\<close>

definition make_balancer ::
    "('cb, 'm, 'c, 'k) bal_env \<Rightarrow> string \<Rightarrow> resource \<Rightarrow> resource option \<Rightarrow> bool \<Rightarrow> 'cb store \<Rightarrow>
     js_error + ('c, 'k) balancer \<times> 'm hc_state option \<times> 'cb store" where
  "make_balancer env protocol res gateway is_h2 s =
     (if protocol = ''http'' then
        bind_res (make_http_balancer env res gateway is_h2 s) (\<lambda>(b, hc, s1). Inr (HttpBalancer b, Some hc, s1))
      else if protocol = ''tcp'' then
        bind_res (make_tcp_balancer env res gateway s) (\<lambda>(be, tls). Inr (TcpBalancer be tls, None, s))
      else if protocol = ''udp'' then
        bind_res (make_udp_balancer res s) (\<lambda>be. Inr (UdpBalancer be, None, s))
      else if protocol = ''dubbo'' then
        bind_res (make_dubbo_balancer env res s) (\<lambda>(be, hc, s1). Inr (DubboBalancer be, Some hc, s1))
      else Inl (Thrown (''Invalid protocol '' @ CHR 0x27 # protocol @ CHR 0x27 # '' for balancer'')))"

subsection \<open>Requests and streams\<close>

text \<open>\<open>targetSelector\<close> of HTTP, with or without session persistence.\<close>

definition http_select ::
    "('x \<Rightarrow> header_val option \<Rightarrow> string option) \<Rightarrow> 'lb allocator \<Rightarrow> (string \<Rightarrow> bool) \<Rightarrow>
     session_conf option \<Rightarrow> head \<Rightarrow> 'lb \<Rightarrow> 'x session \<Rightarrow>
     js_error + endpoint_target option \<times> 'lb \<times> 'x session" where
  "http_select get alloc healthy conf h lb ss =
     (case conf of
        None \<Rightarrow> (let (t, lb1) = alloc lb None (\<lambda>t. healthy (et_address t)) in Inr (t, lb1, ss))
      | Some cfg \<Rightarrow>
          bind_res (restore get cfg h ss) (\<lambda>(hint, ss1).
            let (t, lb1) = alloc lb hint (\<lambda>t. healthy (et_address t)) in Inr (t, lb1, ss1)))"

text \<open>
  What becomes of a request: the reply 500, or the target with the HTTP version and whether TLS
  is spoken.
\<close>

datatype outcome = Rejected nat | Forwarded endpoint_target nat bool

definition http_outcome :: "('c, 'k) http_balancer \<Rightarrow> endpoint_target option \<Rightarrow> outcome" where
  "http_outcome b t =
     (case t of
        None \<Rightarrow> Rejected 500
      | Some x \<Rightarrow> Forwarded x (if hb_h2 b \<or> et_protocol x = Some ''h2c'' then 2 else 1) (hb_tls b \<noteq> None))"

text \<open>
  One request with its response; \<open>serve\<close> is the head of the target's answer. The session is
  preserved under the key of the response, only when the request was forwarded.
\<close>

definition http_exchange ::
    "('x \<Rightarrow> header_val option \<Rightarrow> string option) \<Rightarrow> (header_val option \<Rightarrow> string \<Rightarrow> 'x \<Rightarrow> 'x) \<Rightarrow>
     'lb allocator \<Rightarrow> (string \<Rightarrow> bool) \<Rightarrow> ('c, 'k) http_balancer \<Rightarrow>
     (endpoint_target \<Rightarrow> head \<Rightarrow> head) \<Rightarrow> head \<Rightarrow> 'lb \<times> 'x session \<Rightarrow>
     js_error + outcome \<times> 'lb \<times> 'x session" where
  "http_exchange get put alloc healthy b serve h st =
     bind_res (http_select get alloc healthy (hb_session b) h (fst st) (snd st)) (\<lambda>(t, lb, ss).
       case (t, hb_session b) of
         (Some x, Some cfg) \<Rightarrow>
           bind_res (preserve put cfg (serve x h) (et_address x) ss) (\<lambda>ss1.
             Inr (http_outcome b t, lb, ss1))
       | _ \<Rightarrow> Inr (http_outcome b t, lb, ss))"

text \<open>Dubbo requests: no sessions, no TLS.\<close>

definition dubbo_exchange ::
    "'lb allocator \<Rightarrow> (string \<Rightarrow> bool) \<Rightarrow> 'lb \<Rightarrow> outcome \<times> 'lb" where
  "dubbo_exchange alloc healthy lb =
     (let (t, lb1) = alloc lb None (\<lambda>t. healthy (et_address t))
      in (case t of None \<Rightarrow> Rejected 500 | Some x \<Rightarrow> Forwarded x 1 False, lb1))"

text \<open>Streams: every target counts as healthy, \<open>None\<close> is the end of the stream.\<close>

definition tcp_stream ::
    "'lb allocator \<Rightarrow> ('c, 'k) tls_client option \<Rightarrow> 'lb \<Rightarrow> (endpoint_target \<times> bool) option \<times> 'lb" where
  "tcp_stream alloc tls lb =
     (let (t, lb1) = alloc lb None (\<lambda>t. True) in (map_option (\<lambda>x. (x, tls \<noteq> None)) t, lb1))"

definition udp_stream :: "'lb allocator \<Rightarrow> 'lb \<Rightarrow> endpoint_target option \<times> 'lb" where
  "udp_stream alloc lb = alloc lb None (\<lambda>t. True)"

subsection \<open>Lemmas\<close>

lemma alloc_lawD:
  assumes "alloc_law alloc targets" "alloc lb hint ok = (t, lb1)"
  shows "targets lb1 = targets lb"
    and "t = None \<Longrightarrow> x \<in> set (targets lb) \<Longrightarrow> \<not> ok x"
    and "t = Some x \<Longrightarrow> x \<in> set (targets lb) \<and> ok x"
proof -
  have l: "targets (snd (alloc lb hint ok)) = targets lb \<and>
      (case fst (alloc lb hint ok) of
         None \<Rightarrow> \<forall>t \<in> set (targets lb). \<not> ok t
       | Some t \<Rightarrow> t \<in> set (targets lb) \<and> ok t)"
    using assms(1) unfolding alloc_law_def by (elim allE)
  show "targets lb1 = targets lb"
    and "t = None \<Longrightarrow> x \<in> set (targets lb) \<Longrightarrow> \<not> ok x"
    and "t = Some x \<Longrightarrow> x \<in> set (targets lb) \<and> ok x"
    using l assms(2) by simp_all
qed

lemma http_select_alloc:
  assumes "http_select get alloc healthy conf h lb ss = Inr (t, lb1, ss1)"
  obtains hint where "alloc lb hint (\<lambda>t. healthy (et_address t)) = (t, lb1)"
proof (cases conf)
  case None
  then show ?thesis using that [of None] assms
    by (cases "alloc lb None (\<lambda>t. healthy (et_address t))") (simp add: http_select_def)
next
  case (Some cfg)
  then obtain hint s where "restore get cfg h ss = Inr (hint, s)"
    using assms by (auto simp: http_select_def bind_res_Inr_iff)
  then show ?thesis using that [of hint] assms Some
    by (cases "alloc lb hint (\<lambda>t. healthy (et_address t))") (simp add: http_select_def)
qed

lemma http_select_chooses:
  assumes "alloc_law alloc targets" "http_select get alloc healthy conf h lb ss = Inr (t, lb1, ss1)"
  shows "targets lb1 = targets lb"
    and "t = None \<Longrightarrow> x \<in> set (targets lb) \<Longrightarrow> \<not> healthy (et_address x)"
    and "t = Some x \<Longrightarrow> x \<in> set (targets lb) \<and> healthy (et_address x)"
proof -
  obtain hint where "alloc lb hint (\<lambda>t. healthy (et_address t)) = (t, lb1)"
    using assms(2) by (rule http_select_alloc)
  note a = alloc_lawD [OF assms(1) this]
  show "targets lb1 = targets lb" by (rule a(1))
  show "t = None \<Longrightarrow> x \<in> set (targets lb) \<Longrightarrow> \<not> healthy (et_address x)" by (rule a(2))
  show "t = Some x \<Longrightarrow> x \<in> set (targets lb) \<and> healthy (et_address x)" by (rule a(3))
qed

lemma http_exchange_outcome:
  assumes "http_exchange get put alloc healthy b serve h st = Inr (r, lb, ss)"
  obtains t ss1 where "http_select get alloc healthy (hb_session b) h (fst st) (snd st) = Inr (t, lb, ss1)"
    "r = http_outcome b t"
proof -
  obtain t lb1 ss1 where sel: "http_select get alloc healthy (hb_session b) h (fst st) (snd st) = Inr (t, lb1, ss1)"
    using assms by (cases "http_select get alloc healthy (hb_session b) h (fst st) (snd st)")
      (auto simp: http_exchange_def)
  then have "r = http_outcome b t \<and> lb = lb1"
    using assms by (cases t; cases "hb_session b") (auto simp: http_exchange_def bind_res_Inr_iff)
  then show ?thesis using sel that by simp
qed

text \<open>Health after a run of checks, seen from an address.\<close>

lemma run_healthy_address:
  assumes "flag_law has put del" "hc_ok has st" "hs_active st"
    and "u \<in> set (hs_targets (hc_run put del evs st))"
  shows "is_healthy has (hc_run put del evs st) (ht_address u) \<longleftrightarrow>
         \<not> (0 < ht_fails u \<and> num_ge (Some (of_nat (ht_fails u))) (hc_maxFails (ht_conf u)))"
  using hc_run_ok [OF assms(1,2)] hc_run_active [of put del evs st] assms(3,4)
  by (auto simp: hc_ok_def is_healthy_def)

lemma exchange_forwarded:
  assumes "alloc_law alloc targets"
    and "http_exchange get put alloc healthy b serve h st = Inr (r, lb, ss)"
  shows "r = Forwarded t v tls \<Longrightarrow> t \<in> set (targets (fst st)) \<and> healthy (et_address t)"
    and "r = Rejected n \<Longrightarrow> n = 500 \<and> (\<forall>t \<in> set (targets (fst st)). \<not> healthy (et_address t))"
    and "targets lb = targets (fst st)"
proof -
  obtain o' ss1 where sel: "http_select get alloc healthy (hb_session b) h (fst st) (snd st) = Inr (o', lb, ss1)"
    and r: "r = http_outcome b o'"
    using assms(2) by (rule http_exchange_outcome)
  note a = http_select_chooses [OF assms(1) sel]
  show "r = Forwarded t v tls \<Longrightarrow> t \<in> set (targets (fst st)) \<and> healthy (et_address t)"
    using r a(3) by (cases o') (auto simp: http_outcome_def)
  show "r = Rejected n \<Longrightarrow> n = 500 \<and> (\<forall>t \<in> set (targets (fst st)). \<not> healthy (et_address t))"
    using r a(2) by (cases o') (auto simp: http_outcome_def)
  show "targets lb = targets (fst st)" by (rule a(1))
qed


text \<open>An allocator that scans its list: the preferred address first, then the first that passes.\<close>

definition scan_alloc :: "endpoint_target list allocator" where
  "scan_alloc ts hint ok =
     (case find (\<lambda>t. Some (et_address t) = hint \<and> ok t) ts of
        Some t \<Rightarrow> (Some t, ts)
      | None \<Rightarrow> (find ok ts, ts))"

lemma scan_alloc_law: "alloc_law scan_alloc (\<lambda>ts. ts)"
  unfolding alloc_law_def
proof (intro allI conjI)
  fix ts :: "endpoint_target list" and hint ok
  show "snd (scan_alloc ts hint ok) = ts" by (simp add: scan_alloc_def split: option.split)
  show "case fst (scan_alloc ts hint ok) of None \<Rightarrow> \<forall>t \<in> set ts. \<not> ok t | Some t \<Rightarrow> t \<in> set ts \<and> ok t"
    by (auto simp: scan_alloc_def find_None split: option.split dest: find_Some_in)
qed

lemma scan_hint_law: "hint_law scan_alloc (\<lambda>ts. ts)"
  unfolding hint_law_def
proof (intro allI impI)
  fix ts :: "endpoint_target list" and a ok assume ex: "\<exists>t \<in> set ts. et_address t = a \<and> ok t"
  show "\<exists>t. fst (scan_alloc ts (Some a) ok) = Some t \<and> et_address t = a"
  proof (cases "find (\<lambda>t. Some (et_address t) = Some a \<and> ok t) ts")
    case None
    then show ?thesis using ex by (auto simp: find_None)
  next
    case (Some t)
    then show ?thesis using find_Some_in [OF Some] by (simp add: scan_alloc_def)
  qed
qed

definition ex_et :: "string \<Rightarrow> endpoint_target" where
  "ex_et a = \<lparr>et_address = a, et_protocol = None, et_weight = None\<rparr>"

definition ex_balancer :: "session_conf option \<Rightarrow> (nat, nat) http_balancer" where
  "ex_balancer conf = \<lparr>hb_backend = \<lparr>be_name = ''b'', be_algorithm = ''round-robin'', be_targets = [],
     be_tcp = tcp_options None, be_udp = udp_options None\<rparr>, hb_tls = None, hb_session = conf, hb_h2 = False\<rparr>"


lemma hint_lawD:
  assumes "hint_law alloc targets" "t \<in> set (targets lb)" "ok t"
  shows "\<exists>t' lb'. alloc lb (Some (et_address t)) ok = (Some t', lb') \<and> et_address t' = et_address t"
proof -
  have "\<exists>x \<in> set (targets lb). et_address x = et_address t \<and> ok x"
    using assms(2,3) by (intro bexI [of _ t]) simp_all
  then have "\<exists>t'. fst (alloc lb (Some (et_address t)) ok) = Some t' \<and> et_address t' = et_address t"
    using assms(1) unfolding hint_law_def by (elim allE impE)
  then obtain t' where "fst (alloc lb (Some (et_address t)) ok) = Some t'" "et_address t' = et_address t"
    by (elim exE conjE)
  then show ?thesis
    by (intro exI [of _ t'] exI [of _ "snd (alloc lb (Some (et_address t)) ok)"]) (simp add: prod_eq_iff)
qed

lemma res_cookie_total: "\<exists>k. res_cookie_key n h = Inr k"
  unfolding res_cookie_key_def Let_def by simp

text \<open>The state of a session after an exchange that a cookie response ended.\<close>

lemma exchange_preserves:
  assumes "http_exchange get put alloc healthy b serve h st = Inr (Forwarded t v tls, lb, ss)"
    and "hb_session b = Some cfg" "or_else (sc_type cfg) ''Cookie'' = ''Cookie''"
    and "res_cookie_key (sc_name cfg) (serve t h) = Inr (Some (One val))" "val \<noteq> []"
  shows "\<exists>c. ss_cache ss = put (Some (One val)) (et_address t) c"
proof -
  obtain o' lb' ss' where sel: "http_select get alloc healthy (hb_session b) h (fst st) (snd st) = Inr (o', lb', ss')"
    using assms(1) by (cases "http_select get alloc healthy (hb_session b) h (fst st) (snd st)")
      (auto simp: http_exchange_def)
  have o': "o' = Some t"
    using assms(1,2) sel by (cases o') (auto simp: http_exchange_def http_outcome_def bind_res_Inr_iff)
  have "preserve put cfg (serve t h) (et_address t) ss' = Inr ss"
    using assms(1,2) sel o' by (auto simp: http_exchange_def bind_res_Inr_iff)
  then show ?thesis
    using assms(3-5) by (auto simp: preserve_def res_key_def bind_res_Inr_iff Let_def)
qed



text \<open>Health checks are lost on every thread but the first: a balancer made there never loads
  the policy, so it takes every target for healthy, whatever the shared set says.\<close>

theorem workers_ignore_health:
  assumes "make_http_balancer env res gateway is_h2 s = Inr (b, hc, s1)" "bv_thread env \<noteq> 0"
  shows "is_healthy has (hc\<lparr>hs_flags := flags\<rparr>) address"
  using assms
  by (auto simp: make_http_balancer_def start_hc_def is_healthy_def bind_res_Inr_iff split: option.splits)

lemma workers_ignore_health_witness:
  "is_healthy (\<lambda>m a. a \<in> m) \<lparr>hs_active = False, hs_targets = [], hs_flags = {''a:1''}\<rparr> ''a:1''"
proof -
  let ?env = "\<lparr>bv_thread = 3, bv_now = 0, bv_hc_cb = 7, bv_flags = {},
     bv_cert = (\<lambda>_. Inr 0), bv_key = (\<lambda>_. Inr 0)\<rparr> :: (nat, string set, nat, nat) bal_env"
  let ?gw = "ex_hc_backend\<lparr>r_spec := Some no_spec\<rparr>"
  let ?s = "append_resource ex_hc_backend empty_store :: nat store"
  have none: "find_policies ?s k ex_hc_backend = Inr []" if "k \<noteq> ''Backend''" for k
  proof -
    have "list_resources ?s k = []"
      using that by (simp add: list_resources_def kind_map_of_append ex_hc_backend_def)
        (simp add: kind_map_of_def no_kind_map_def empty_store_def)
    then show ?thesis by (simp add: find_policies_def)
  qed
  have f: "find_resource ?s ''Backend'' ''b'' = Some ex_hc_backend" by (simp add: ex_hc_backend_def)
  obtain b where "make_http_balancer ?env ex_hc_backend (Some ?gw) False ?s =
      Inr (b, \<lparr>hs_active = False, hs_targets = [], hs_flags = {}\<rparr>, ?s)"
  proof -
    have "r_name ex_hc_backend = Some ''b''" by (simp add: ex_hc_backend_def)
    moreover obtain be where "make_backend ?s ''b'' = Inr be"
      using none f by (simp add: make_backend_def find_backend_def find_policies_for_def Let_def)
        (simp add: get_targets_def get_target_def ex_hc_backend_def)
    moreover obtain tls where "backend_tls_for ?env ?s ex_hc_backend (Some ?gw) = Inr tls"
      using none by (simp add: backend_tls_for_def make_backend_tls_def no_spec_def first_policy_def)
    ultimately show ?thesis using that none
      by (simp add: make_http_balancer_def start_hc_def)
  qed
  from workers_ignore_health [OF this, of "\<lambda>m a. a \<in> m" "{''a:1''}"] show ?thesis by simp
qed

end
