(* ===== verification/Dubbo_Order.thy ===== *)
theory Dubbo_Order
  imports Router_Dubbo "HOL-Library.List_Lexorder"
begin

text \<open>
  The order in which a Dubbo router tries its matches (\<open>matches.sort\<close> in
  \<open>src/modules/router-dubbo.js\<close>): the ranks of a match are compared one by one, which is the
  lexicographic order of the library on the lists of ranks, once ranks are ordered.
\<close>

instantiation rank :: linorder
begin

definition less_rank :: "rank \<Rightarrow> rank \<Rightarrow> bool" where
  "less_rank a b = rank_gt b a"

definition less_eq_rank :: "rank \<Rightarrow> rank \<Rightarrow> bool" where
  "less_eq_rank a b \<longleftrightarrow> a = b \<or> rank_gt b a"

instance
proof
  have asym: "\<not> rank_gt a b" if "rank_gt b a" for a b :: rank
    using that by (cases a; cases b) (auto dest: str_less_asym)
  have trans: "rank_gt c a" if "rank_gt b a" "rank_gt c b" for a b c :: rank
    using that by (cases a; cases b; cases c) (auto intro: str_less_trans)
  have total: "a = b \<or> rank_gt b a \<or> rank_gt a b" for a b :: rank
    using str_less_linear by (cases a; cases b) auto
  fix a b c :: rank
  show "a < b \<longleftrightarrow> a \<le> b \<and> \<not> b \<le> a" using asym by (auto simp: less_rank_def less_eq_rank_def)
  show "a \<le> a" by (simp add: less_eq_rank_def)
  show "a \<le> b \<Longrightarrow> b \<le> c \<Longrightarrow> a \<le> c" using trans by (auto simp: less_eq_rank_def)
  show "a \<le> b \<Longrightarrow> b \<le> a \<Longrightarrow> a = b" using asym by (auto simp: less_eq_rank_def)
  show "a \<le> b \<or> b \<le> a" using total by (auto simp: less_eq_rank_def)
qed

end

subsection \<open>Sorting by priorities\<close>

lemma by_ranks_le: "length ra = length rb \<Longrightarrow> by_ranks ra rb \<le> 0 \<longleftrightarrow> rb \<le> ra"
proof (induction ra rb rule: list_induct2)
  case (Cons x xs y ys)
  show ?case
  proof (cases "x = y")
    case True
    then show ?thesis using Cons.IH by (simp add: by_ranks_def)
  next
    case False
    then show ?thesis by (auto simp: by_ranks_def less_rank_def)
  qed
qed (simp add: by_ranks_def)

lemma by_dubbo_le:
  "by_dubbo a b \<le> 0 \<longleftrightarrow> get_dubbo_priority (en_match b) \<le> get_dubbo_priority (en_match a)"
  unfolding by_dubbo_def by (rule by_ranks_le) (simp add: get_dubbo_priority_def)

lemma dubbo_sorted:
  "sorted_wrt (\<lambda>a b. get_dubbo_priority (en_match b) \<le> get_dubbo_priority (en_match a)) (js_sort by_dubbo es)"
proof -
  have "sorted_wrt (\<lambda>a b. by_dubbo a b \<le> 0) (js_sort by_dubbo es)"
    by (rule js_sort_sorted) (auto simp: by_dubbo_le sorted_wrt_iff_nth_less intro: order_trans linear)
  then show ?thesis by (simp add: by_dubbo_le)
qed

text \<open>Matches of the same priority keep the order of the configuration.\<close>

lemma dubbo_stable:
  "filter (\<lambda>e. get_dubbo_priority (en_match e) = p) (js_sort by_dubbo es) =
     filter (\<lambda>e. get_dubbo_priority (en_match e) = p) es"
  by (rule js_sort_stable) (simp add: by_dubbo_le)

lemma dubbo_row_match: "make_dubbo_row env e = Inr r \<Longrightarrow> dr_match r = en_match e"
  by (auto simp: make_dubbo_row_def Let_def bind_res_Inr_iff)

lemma rows_sorted:
  assumes "make_dubbo_rows env mk routes = Inr rows"
  shows "sorted_wrt (\<lambda>a b. get_dubbo_priority (dr_match b) \<le> get_dubbo_priority (dr_match a)) rows"
proof -
  obtain rules where rows: "map_res (make_dubbo_row env) (js_sort by_dubbo (concat (map rule_entries rules))) = Inr rows"
    using assms by (auto simp: make_dubbo_rows_def bind_res_Inr_iff)
  let ?es = "js_sort by_dubbo (concat (map rule_entries rules))"
  have all: "list_all2 (\<lambda>e r. make_dubbo_row env e = Inr r) ?es rows" using rows by (simp add: map_res_Inr_iff)
  have "map en_match ?es = map dr_match rows"
    using all by (induction rule: list_all2_induct) (simp_all add: dubbo_row_match)
  moreover have "sorted_wrt (\<lambda>m n. get_dubbo_priority n \<le> get_dubbo_priority m) (map en_match ?es)"
    using dubbo_sorted by (simp add: sorted_wrt_map)
  ultimately show ?thesis by (simp add: sorted_wrt_map)
qed

text \<open>C22: A Dubbo call is served by a most specific match: of all matches that it fits, none has a
  higher priority than the one whose rule and route the call is given to, where an exact match
  comes before a regular expression and that before any other, and matches of a type are
  compared by service, version, method and signature, in this order.\<close>
theorem dubbo_most_specific:
  assumes "make_dubbo_rows env mk routes = Inr rows" "dubbo_select pick rows body (lb, vars) = (a, lb', vars')"
    and "r \<in> set rows" "dr_test r body"
  shows "\<exists>best \<in> set rows. dr_test best body \<and>
     get_dubbo_priority (dr_match r) \<le> get_dubbo_priority (dr_match best) \<and>
     vars' = \<lparr>dv_route = Some (dr_res best), dv_rule = Some (dr_rule best)\<rparr> \<and> a = fst (pick (dr_sel best) lb)"
proof -
  obtain best where best: "find (\<lambda>r. dr_test r body) rows = Some best"
    using assms(3,4) find_None [of "\<lambda>r. dr_test r body" rows] by (cases "find (\<lambda>r. dr_test r body) rows") auto
  have "get_dubbo_priority (dr_match r) \<le> get_dubbo_priority (dr_match best)"
    using find_sorted [OF rows_sorted [OF assms(1)] best assms(3,4)] by auto
  moreover have "vars' = \<lparr>dv_route = Some (dr_res best), dv_rule = Some (dr_rule best)\<rparr>" "a = fst (pick (dr_sel best) lb)"
    using assms(2) by (auto simp: dubbo_select_def best split: prod.splits)
  ultimately show ?thesis using find_Some_in [OF best] by (intro bexI [of _ best]) simp_all
qed

text \<open>A rule for everything, and after it one for a service.\<close>

definition ex_two_rules :: resource where
  "ex_two_rules = \<lparr>r_obj = 1, r_kind = Some ''DubboRoute'', r_name = Some ''r'',
     r_spec = Some (no_spec\<lparr>sp_rules := Some [no_rule, no_rule\<lparr>ru_matches := Some [ex_dubbo_match]\<rparr>]\<rparr>)\<rparr>"

lemma ex_two_rows:
  obtains specific general where
    "make_dubbo_rows env (\<lambda>rl. Inr (0::nat)) [ex_two_rules] = Inr [specific, general]"
    "dr_match specific = ex_dubbo_match" "dr_match general = no_match" "dr_test general ex_call"
    "dr_test specific = (\<lambda>body. field body 1 = Some ''svc'')"
proof -
  have "\<exists>specific general. make_dubbo_rows env (\<lambda>rl. Inr (0::nat)) [ex_two_rules] = Inr [specific, general] \<and>
     dr_match specific = ex_dubbo_match \<and> dr_match general = no_match \<and> dr_test general ex_call \<and>
     dr_test specific = (\<lambda>body. field body 1 = Some ''svc'')"
    by (simp add: make_dubbo_rows_def route_rules_def ex_two_rules_def no_spec_def no_rule_def
      rule_entries_def make_dubbo_row_def make_string_matcher_def ex_dubbo_match_def no_match_def
      passes_def Let_def by_dubbo_def by_ranks_def get_dubbo_priority_def)
  then show thesis using that by blast
qed

lemma dubbo_most_specific_witness:
  "\<exists>rows best. make_dubbo_rows ex_http (\<lambda>rl. Inr (0::nat)) [ex_two_rules] = Inr rows \<and> best \<in> set rows \<and>
     dr_test best ex_call \<and> get_dubbo_priority ex_dubbo_match \<le> get_dubbo_priority (dr_match best) \<and>
     snd (snd (dubbo_select (\<lambda>s n. (Some n, Suc n)) rows ex_call (7, \<lparr>dv_route = None, dv_rule = None\<rparr>))) =
       \<lparr>dv_route = Some (dr_res best), dv_rule = Some (dr_rule best)\<rparr>"
proof -
  obtain specific general where rows: "make_dubbo_rows ex_http (\<lambda>rl. Inr (0::nat)) [ex_two_rules] = Inr [specific, general]"
    and m: "dr_match specific = ex_dubbo_match" and test: "dr_test specific = (\<lambda>body. field body 1 = Some ''svc'')"
    by (rule ex_two_rows)
  let ?sel = "dubbo_select (\<lambda>s n. (Some n, Suc n)) [specific, general] ex_call (7, \<lparr>dv_route = None, dv_rule = None\<rparr>)"
  have sel: "?sel = (fst ?sel, fst (snd ?sel), snd (snd ?sel))" by simp
  have r: "specific \<in> set [specific, general]" "dr_test specific ex_call"
    by (simp_all add: test ex_call_def field_def)
  from dubbo_most_specific [OF rows sel r] obtain best where best: "best \<in> set [specific, general]"
    "dr_test best ex_call" "get_dubbo_priority (dr_match specific) \<le> get_dubbo_priority (dr_match best)"
    "snd (snd ?sel) = \<lparr>dv_route = Some (dr_res best), dv_rule = Some (dr_rule best)\<rparr>"
    by (elim bexE conjE)
  show ?thesis
    by (rule exI [of _ "[specific, general]"], rule exI [of _ best]) (intro conjI rows best best(3) [unfolded m])
qed

end
