(* ===== verification/Filter_Traffic.thy ===== *)
theory Filter_Traffic
  imports Http Machine "HOL-Library.Word"
begin

text \<open>
  The filters that limit traffic: \<open>src/filters/http/CircuitBreak.js\<close>, \<open>RateLimit.js\<close>,
  \<open>FaultInjection.js\<close> and \<open>src/filters/tcp/ConcurrencyLimit.js\<close>. The shared map of the circuit
  breaker is a record; each event below runs without interruption. Times are in milliseconds.
\<close>

subsection \<open>Circuit breaker\<close>

record circuit_conf =
  cc_latency :: num_js
  cc_errors :: num_js
  cc_ratio :: num_js
  cc_concurrency :: num_js
  cc_check :: num_js
  cc_break :: num_js
  cc_response :: "response_conf option"

text \<open>The section \<open>circuitBreak\<close> as configured, and as the filter reads it.\<close>

record circuit_section =
  cb_latency :: "string option"
  cb_errors :: "string option"
  cb_ratio :: "string option"
  cb_concurrency :: "string option"
  cb_check :: "string option"
  cb_break :: "string option"
  cb_response :: "response_conf option"

definition read_float :: "string option \<Rightarrow> num_js" where
  "read_float v = Option.bind v parse_float"

definition read_int :: "string option \<Rightarrow> int option" where
  "read_int v = Option.bind v parse_int"

definition seconds :: "string option \<Rightarrow> num_js" where
  "seconds v = map_option (\<lambda>r. r * 1000) (read_float v)"

definition read_circuit :: "circuit_section \<Rightarrow> circuit_conf" where
  "read_circuit s =
     \<lparr>cc_latency = read_float (cb_latency s), cc_errors = map_option of_int (read_int (cb_errors s)),
      cc_ratio = read_float (cb_ratio s), cc_concurrency = map_option of_int (read_int (cb_concurrency s)),
      cc_check = seconds (cb_check s), cc_break = seconds (cb_break s), cc_response = cb_response s\<rparr>"

text \<open>\<open>start\<close>, \<open>concurrency\<close>, \<open>total\<close>, \<open>error\<close> and \<open>brokenBefore\<close>; the last is \<open>NaN\<close> when
  the configured interval is.\<close>

record circuit =
  ci_start :: rat
  ci_conc :: int
  ci_total :: int
  ci_error :: int
  ci_until :: num_js

definition new_circuit :: circuit where
  "new_circuit = \<lparr>ci_start = 0, ci_conc = 0, ci_total = 0, ci_error = 0, ci_until = Some 0\<rparr>"

definition circuit_response :: "circuit_conf \<Rightarrow> message" where
  "circuit_response conf = reply_conf 503 ''Service unavailable'' (cc_response conf)"

definition is_broken :: "rat \<Rightarrow> circuit \<Rightarrow> bool" where
  "is_broken now c = (case ci_until c of None \<Rightarrow> False | Some b \<Rightarrow> b \<noteq> 0 \<and> now < b)"

definition num_add :: "num_js \<Rightarrow> num_js \<Rightarrow> num_js" where
  "num_add a b = (case (a, b) of (Some x, Some y) \<Rightarrow> Some (x + y) | _ \<Rightarrow> None)"

text \<open>The counters after a response, and the test for breaking the circuit.\<close>

definition count_response :: "circuit_conf \<Rightarrow> rat \<Rightarrow> rat \<Rightarrow> circuit \<Rightarrow> circuit" where
  "count_response conf t requestTime c =
     c\<lparr>ci_total := ci_total c + 1,
       ci_error := (if num_ge (Some (t - requestTime)) (cc_latency conf) then ci_error c + 1 else ci_error c)\<rparr>"

definition too_bad :: "circuit_conf \<Rightarrow> circuit \<Rightarrow> bool" where
  "too_bad conf c \<longleftrightarrow>
     0 < ci_total c \<and> num_ge (Some (of_int (ci_conc c))) (cc_concurrency conf) \<and>
     num_ge (Some (of_int (ci_error c))) (cc_errors conf) \<and>
     num_ge (Some (of_int (ci_error c) / of_int (ci_total c))) (cc_ratio conf)"

definition circuit_check :: "circuit_conf \<Rightarrow> rat \<Rightarrow> rat \<Rightarrow> circuit \<Rightarrow> circuit" where
  "circuit_check conf t requestTime c0 =
     (let c = count_response conf t requestTime c0 in
      if too_bad conf c then
        c\<lparr>ci_until := num_add (Some t) (cc_break conf), ci_start := 0, ci_total := 0, ci_error := 0\<rparr>
      else if ci_start c \<noteq> 0 \<and> num_ge (Some (t - ci_start c)) (cc_check conf) then
        c\<lparr>ci_start := t, ci_total := 0, ci_error := 0\<rparr>
      else c\<lparr>ci_start := t\<rparr>)"

text \<open>
  The filter under a stream of events. \<open>cs_open\<close> lists the start times of the requests that
  were passed on and not answered; a request that never gets a response stays there. Making
  the filter again, as a configuration update does, resets the shared map.
\<close>

record circuit_sys =
  cs_shared :: circuit
  cs_open :: "rat list"
  cs_lost :: nat

datatype circuit_event = Request rat | Response nat rat | Remake

definition remove_nth :: "nat \<Rightarrow> 'a list \<Rightarrow> 'a list" where
  "remove_nth i xs = take i xs @ drop (Suc i) xs"

definition circuit_step :: "circuit_conf \<Rightarrow> circuit_event \<Rightarrow> circuit_sys \<Rightarrow> circuit_sys" where
  "circuit_step conf ev s =
     (case ev of
        Request t \<Rightarrow>
          if is_broken t (cs_shared s) then s
          else s\<lparr>cs_shared := (cs_shared s)\<lparr>ci_conc := ci_conc (cs_shared s) + 1\<rparr>,
                 cs_open := cs_open s @ [t]\<rparr>
      | Response i t \<Rightarrow>
          if i < length (cs_open s) then
            s\<lparr>cs_shared := circuit_check conf t (cs_open s ! i)
                ((cs_shared s)\<lparr>ci_conc := ci_conc (cs_shared s) - 1\<rparr>),
              cs_open := remove_nth i (cs_open s)\<rparr>
          else s
      | Remake \<Rightarrow> s\<lparr>cs_shared := new_circuit, cs_lost := length (cs_open s)\<rparr>)"

definition new_circuit_sys :: circuit_sys where
  "new_circuit_sys = \<lparr>cs_shared = new_circuit, cs_open = [], cs_lost = 0\<rparr>"

definition circuit_run :: "circuit_conf \<Rightarrow> circuit_event list \<Rightarrow> circuit_sys \<Rightarrow> circuit_sys" where
  "circuit_run conf evs s = foldl (\<lambda>s ev. circuit_step conf ev s) s evs"

lemma circuit_run_simps [simp]:
  "circuit_run conf [] s = s"
  "circuit_run conf (ev # evs) s = circuit_run conf evs (circuit_step conf ev s)"
  "circuit_run conf (evs @ evs') s = circuit_run conf evs' (circuit_run conf evs s)"
  by (simp_all add: circuit_run_def)

lemma circuit_check_conc [simp]: "ci_conc (circuit_check conf t r c) = ci_conc c"
  by (simp add: circuit_check_def count_response_def Let_def)

lemma length_remove_nth: "i < length xs \<Longrightarrow> length (remove_nth i xs) = length xs - 1"
  by (simp add: remove_nth_def)

definition circuit_ok :: "circuit_sys \<Rightarrow> bool" where
  "circuit_ok s \<longleftrightarrow>
     ci_conc (cs_shared s) = int (length (cs_open s)) - int (cs_lost s) \<and>
     0 \<le> ci_error (cs_shared s) \<and> ci_error (cs_shared s) \<le> ci_total (cs_shared s)"

lemma circuit_check_counts:
  assumes "0 \<le> ci_error c" "ci_error c \<le> ci_total c"
  shows "0 \<le> ci_error (circuit_check conf t r c) \<and>
         ci_error (circuit_check conf t r c) \<le> ci_total (circuit_check conf t r c)"
  using assms by (simp add: circuit_check_def count_response_def Let_def)

lemma circuit_step_ok: "circuit_ok s \<Longrightarrow> circuit_ok (circuit_step conf ev s)"
proof (cases ev)
  case (Response i t)
  assume ok: "circuit_ok s"
  show ?thesis
  proof (cases "i < length (cs_open s)")
    case True
    let ?c = "(cs_shared s)\<lparr>ci_conc := ci_conc (cs_shared s) - 1\<rparr>"
    have "0 \<le> ci_error ?c" "ci_error ?c \<le> ci_total ?c" using ok by (simp_all add: circuit_ok_def)
    from circuit_check_counts [OF this] show ?thesis
      using ok True Response by (simp add: circuit_ok_def circuit_step_def length_remove_nth of_nat_diff)
  qed (use ok Response in \<open>simp add: circuit_step_def\<close>)
qed (auto simp: circuit_ok_def circuit_step_def new_circuit_def)

interpretation circuit: event_machine "circuit_step conf" circuit_ok for conf
  by unfold_locales (rule circuit_step_ok)

lemma circuit_run_ok: "circuit_ok s \<Longrightarrow> circuit_ok (circuit_run conf evs s)"
  unfolding circuit_run_def by (rule circuit.always)

lemma new_circuit_ok: "circuit_ok new_circuit_sys"
  by (simp add: circuit_ok_def new_circuit_sys_def new_circuit_def)

text \<open>The counters of the circuit breaker: at all times the errors are among the counted
  responses, and the concurrency is the number of requests under way less those that were
  under way when the filter was last made again. So after an update under load the
  concurrency is too small by that number, for ever.\<close>

theorem circuit_counters:
  "0 \<le> ci_error (cs_shared (circuit_run conf evs new_circuit_sys)) \<and>
   ci_error (cs_shared (circuit_run conf evs new_circuit_sys)) \<le>
     ci_total (cs_shared (circuit_run conf evs new_circuit_sys)) \<and>
   ci_conc (cs_shared (circuit_run conf evs new_circuit_sys)) =
     int (length (cs_open (circuit_run conf evs new_circuit_sys))) -
     int (cs_lost (circuit_run conf evs new_circuit_sys))"
  using circuit_run_ok [OF new_circuit_ok, of conf evs] by (simp add: circuit_ok_def)

text \<open>Where the breaker opens: the last response that set \<open>brokenBefore\<close>.\<close>

lemma circuit_check_until:
  "ci_until (circuit_check conf t r c) =
     (if too_bad conf (count_response conf t r c) then num_add (Some t) (cc_break conf) else ci_until c)"
  by (simp add: circuit_check_def count_response_def Let_def)

lemma circuit_until_set:
  "ci_until (cs_shared (circuit_run conf evs new_circuit_sys)) = Some b \<Longrightarrow> b \<noteq> 0 \<Longrightarrow>
   \<exists>before i t after. evs = before @ Response i t # after \<and>
     num_add (Some t) (cc_break conf) = Some b \<and>
     i < length (cs_open (circuit_run conf before new_circuit_sys)) \<and>
     too_bad conf (count_response conf t (cs_open (circuit_run conf before new_circuit_sys) ! i)
       ((cs_shared (circuit_run conf before new_circuit_sys))
          \<lparr>ci_conc := ci_conc (cs_shared (circuit_run conf before new_circuit_sys)) - 1\<rparr>))"
proof (induction evs rule: rev_induct)
  case Nil
  then show ?case by (simp add: new_circuit_sys_def new_circuit_def)
next
  case (snoc ev evs)
  let ?s = "circuit_run conf evs new_circuit_sys"
  have again: ?case if "ci_until (cs_shared ?s) = Some b"
  proof -
    from snoc.IH [OF that snoc.prems(2)] obtain before i t after where
      "evs = before @ Response i t # after" "num_add (Some t) (cc_break conf) = Some b"
      "i < length (cs_open (circuit_run conf before new_circuit_sys))"
      "too_bad conf (count_response conf t (cs_open (circuit_run conf before new_circuit_sys) ! i)
         ((cs_shared (circuit_run conf before new_circuit_sys))
            \<lparr>ci_conc := ci_conc (cs_shared (circuit_run conf before new_circuit_sys)) - 1\<rparr>))"
      by (elim exE conjE)
    then show ?thesis
      by (intro exI [of _ before] exI [of _ i] exI [of _ t] exI [of _ "after @ [ev]"]) simp
  qed
  show ?case
  proof (cases ev)
    case (Request t)
    then show ?thesis using again snoc.prems(1) by (simp add: circuit_step_def split: if_splits)
  next
    case Remake
    then show ?thesis using snoc.prems by (simp add: circuit_step_def new_circuit_def)
  next
    case (Response i t)
    show ?thesis
    proof (cases "i < length (cs_open ?s) \<and>
        too_bad conf (count_response conf t (cs_open ?s ! i)
          ((cs_shared ?s)\<lparr>ci_conc := ci_conc (cs_shared ?s) - 1\<rparr>))")
      case True
      then show ?thesis
        using Response snoc.prems(1)
        by (intro exI [of _ evs] exI [of _ i] exI [of _ t] exI [of _ "[]"])
          (simp add: circuit_step_def circuit_check_until)
    next
      case False
      then show ?thesis
        using Response snoc.prems(1) again
        by (simp add: circuit_step_def circuit_check_until split: if_splits)
    qed
  qed
qed

text \<open>C24: The circuit breaker denies a request only for a reason: some earlier response broke
  the circuit, less than the break interval ago, and at that response the requests under way,
  the slow responses and their share of all counted responses had reached their thresholds.\<close>

theorem circuit_denies_rightly:
  assumes "is_broken t (cs_shared (circuit_run conf evs new_circuit_sys))"
  shows "\<exists>before i t0 after d. evs = before @ Response i t0 # after \<and> cc_break conf = Some d \<and> t < t0 + d \<and>
     too_bad conf (count_response conf t0 (cs_open (circuit_run conf before new_circuit_sys) ! i)
       ((cs_shared (circuit_run conf before new_circuit_sys))
          \<lparr>ci_conc := ci_conc (cs_shared (circuit_run conf before new_circuit_sys)) - 1\<rparr>))"
proof -
  obtain b where b: "ci_until (cs_shared (circuit_run conf evs new_circuit_sys)) = Some b" "b \<noteq> 0" "t < b"
    using assms by (auto simp: is_broken_def split: option.splits)
  obtain before i t0 after where e: "evs = before @ Response i t0 # after"
    and d: "num_add (Some t0) (cc_break conf) = Some b"
    and bad: "too_bad conf (count_response conf t0 (cs_open (circuit_run conf before new_circuit_sys) ! i)
       ((cs_shared (circuit_run conf before new_circuit_sys))
          \<lparr>ci_conc := ci_conc (cs_shared (circuit_run conf before new_circuit_sys)) - 1\<rparr>))"
    using circuit_until_set [OF b(1,2)] by (elim exE conjE)
  obtain d' where "cc_break conf = Some d'" "b = t0 + d'"
    using d by (auto simp: num_add_def split: option.splits)
  then show ?thesis
    using e bad b(3) by (intro exI [of _ before] exI [of _ i] exI [of _ t0] exI [of _ after] exI [of _ d']) simp
qed

definition ex_circuit :: circuit_conf where
  "ex_circuit = \<lparr>cc_latency = Some 100, cc_errors = Some 2, cc_ratio = Some (1 / 2),
     cc_concurrency = Some 0, cc_check = Some 60000, cc_break = Some 5000, cc_response = None\<rparr>"

definition ex_circuit_events :: "circuit_event list" where
  "ex_circuit_events = [Request 1000, Request 1010, Response 0 1200, Response 0 1300]"

lemma circuit_denies_rightly_witness:
  "\<exists>before i t0 after d. ex_circuit_events = before @ Response i t0 # after \<and>
     cc_break ex_circuit = Some d \<and> 2000 < t0 + d"
proof -
  have "is_broken 2000 (cs_shared (circuit_run ex_circuit ex_circuit_events new_circuit_sys))"
    by (simp add: ex_circuit_events_def circuit_step_def new_circuit_sys_def new_circuit_def
        is_broken_def remove_nth_def circuit_check_def count_response_def too_bad_def ex_circuit_def
        num_add_def Let_def)
  from circuit_denies_rightly [OF this]
  obtain before i t0 after d where "ex_circuit_events = before @ Response i t0 # after"
    "cc_break ex_circuit = Some d" "2000 < t0 + d"
    by (elim exE conjE)
  then show ?thesis
    by (intro exI [of _ before] exI [of _ i] exI [of _ t0] exI [of _ after] exI [of _ d]) simp
qed

text \<open>Responses, with the start time of their requests, that follow each other within \<open>d\<close>.\<close>

fun steady :: "rat \<Rightarrow> rat \<Rightarrow> (rat \<times> rat) list \<Rightarrow> bool" where
  "steady d start [] = True"
| "steady d start ((t, r) # rs) = ((start = 0 \<or> t - start < d) \<and> steady d t rs)"

definition check_all :: "circuit_conf \<Rightarrow> (rat \<times> rat) list \<Rightarrow> circuit \<Rightarrow> circuit" where
  "check_all conf rs c = foldl (\<lambda>c (t, r). circuit_check conf t r c) c rs"

definition slow :: "circuit_conf \<Rightarrow> rat \<times> rat \<Rightarrow> bool" where
  "slow conf tr = num_ge (Some (fst tr - snd tr)) (cc_latency conf)"

text \<open>The interval of the circuit breaker never ends under steady traffic: every response
  moves \<open>start\<close>, so as long as responses follow each other within the interval and the
  concurrency stays below its threshold the counters are never reset; they count every
  response since the traffic began, however long ago.\<close>

theorem circuit_window_never_ends:
  assumes "cc_check conf = Some d" "steady d (ci_start c) rs"
    and "\<not> num_ge (Some (of_int (ci_conc c))) (cc_concurrency conf)"
  shows "ci_total (check_all conf rs c) = ci_total c + int (length rs) \<and>
         ci_error (check_all conf rs c) = ci_error c + int (length (filter (slow conf) rs))"
  using assms(2,3)
proof (induction rs arbitrary: c)
  case (Cons tr rs)
  obtain t r where tr: "tr = (t, r)" by (cases tr)
  let ?c = "circuit_check conf t r c"
  have calm: "\<not> too_bad conf (count_response conf t r c)"
    using Cons.prems(2) by (simp add: too_bad_def count_response_def)
  have step: "ci_total ?c = ci_total c + 1" "ci_start ?c = t"
    "ci_error ?c = ci_error c + (if slow conf tr then 1 else 0)"
    using calm Cons.prems(1) assms(1) tr
    by (auto simp: circuit_check_def count_response_def slow_def Let_def)
  have "steady d (ci_start ?c) rs" using Cons.prems(1) step(2) tr by simp
  moreover have "\<not> num_ge (Some (of_int (ci_conc ?c))) (cc_concurrency conf)" using Cons.prems(2) by simp
  ultimately show ?case using Cons.IH [of ?c] step tr by (simp add: check_all_def)
qed (simp add: check_all_def)

lemma circuit_window_never_ends_witness:
  "ci_total (check_all (ex_circuit\<lparr>cc_concurrency := Some 9\<rparr>)
     [(1000, 990), (41000, 40990), (81000, 80990), (121000, 120990)] new_circuit) = 4"
  using circuit_window_never_ends [of "ex_circuit\<lparr>cc_concurrency := Some 9\<rparr>" 60000 new_circuit
      "[(1000, 990), (41000, 40990), (81000, 80990), (121000, 120990)]"]
  by (simp add: ex_circuit_def new_circuit_def)

subsection \<open>Quotas\<close>

text \<open>
  \<open>algo.Quota\<close> is given by \<open>consume\<close> and \<open>produce\<close> of one unit and by how much is left.
\<close>

definition quota_law ::
    "('q \<Rightarrow> nat \<times> 'q) \<Rightarrow> ('q \<Rightarrow> 'q) \<Rightarrow> ('q \<Rightarrow> nat) \<Rightarrow> bool" where
  "quota_law consume produce left \<longleftrightarrow>
     (\<forall>q. fst (consume q) = (if 0 < left q then 1 else 0) \<and>
          left (snd (consume q)) = left q - 1 \<and> left (produce q) = left q + 1)"

lemma quota_law_nat: "quota_law (\<lambda>q. (if 0 < q then 1 else 0, q - 1)) (\<lambda>q. q + 1) (\<lambda>q::nat. q)"
  by (simp add: quota_law_def)

text \<open>
  Entering takes a unit and is refused when none is left; whoever was let in gives it back
  when leaving. The state holds the quota and who is inside.
\<close>

datatype quota_event = Enter nat | Leave nat

definition quota_step ::
    "('q \<Rightarrow> nat \<times> 'q) \<Rightarrow> ('q \<Rightarrow> 'q) \<Rightarrow> quota_event \<Rightarrow> 'q \<times> nat list \<Rightarrow> 'q \<times> nat list" where
  "quota_step consume produce ev st =
     (case ev of
        Enter k \<Rightarrow>
          (if fst (consume (fst st)) = 0 then (snd (consume (fst st)), snd st)
           else (snd (consume (fst st)), k # snd st))
      | Leave k \<Rightarrow>
          if k \<in> set (snd st) then (produce (fst st), remove1 k (snd st)) else st)"

definition quota_run ::
    "('q \<Rightarrow> nat \<times> 'q) \<Rightarrow> ('q \<Rightarrow> 'q) \<Rightarrow> quota_event list \<Rightarrow> 'q \<times> nat list \<Rightarrow> 'q \<times> nat list" where
  "quota_run consume produce evs st = foldl (\<lambda>st ev. quota_step consume produce ev st) st evs"

lemma quota_step_total:
  assumes "quota_law consume produce left"
  shows "left (fst (quota_step consume produce ev st)) + length (snd (quota_step consume produce ev st)) =
         left (fst st) + length (snd st)"
proof (cases ev)
  case (Enter k)
  have "fst (consume (fst st)) = (if 0 < left (fst st) then 1 else 0)"
    "left (snd (consume (fst st))) = left (fst st) - 1"
    using assms unfolding quota_law_def by blast+
  then show ?thesis using Enter by (simp add: quota_step_def)
next
  case (Leave k)
  have "left (produce (fst st)) = left (fst st) + 1"
    using assms unfolding quota_law_def by blast
  moreover have "k \<in> set (snd st) \<Longrightarrow> 0 < length (snd st)" by (cases "snd st") auto
  ultimately show ?thesis using Leave by (simp add: quota_step_def length_remove1)
qed

lemma quota_run_total:
  assumes "quota_law consume produce left"
  shows "left (fst (quota_run consume produce evs st)) + length (snd (quota_run consume produce evs st)) =
         left (fst st) + length (snd st)"
  unfolding quota_run_def
  by (rule conserving_machine.conserved [where amount = "\<lambda>st. left (fst st) + length (snd st)"])
    (unfold_locales, rule quota_step_total [OF assms])

lemma quota_enter:
  assumes "quota_law consume produce left"
  shows "snd (quota_step consume produce (Enter k) st) =
         (if 0 < left (fst st) then k # snd st else snd st)"
proof -
  have "fst (consume (fst st)) = (if 0 < left (fst st) then 1 else 0)"
    using assms unfolding quota_law_def by blast
  then show ?thesis by (simp add: quota_step_def)
qed

text \<open>The operator \<open>x | 0\<close>: the number cut to a signed 32-bit integer.\<close>

definition to_int32 :: "num_js \<Rightarrow> int" where
  "to_int32 v =
     (case v of
        None \<Rightarrow> 0
      | Some r \<Rightarrow> sint (word_of_int (if r < 0 then - \<lfloor>- r\<rfloor> else \<lfloor>r\<rfloor>) :: 32 word))"

text \<open>
  \<open>ConcurrencyLimit\<close>: the number of streams allowed, \<open>None\<close> for the filter that lets all pass;
  one stream beginning or ending.
\<close>

definition max_connections :: "num_js \<Rightarrow> nat option" where
  "max_connections v = (if 0 < to_int32 v then Some (nat (to_int32 v)) else None)"

definition concurrency_step ::
    "('q \<Rightarrow> nat \<times> 'q) \<Rightarrow> ('q \<Rightarrow> 'q) \<Rightarrow> num_js \<Rightarrow> quota_event \<Rightarrow> 'q \<times> nat list \<Rightarrow> 'q \<times> nat list" where
  "concurrency_step consume produce conf ev st =
     (if max_connections conf = None then
        (case ev of Enter k \<Rightarrow> (fst st, k # snd st) | Leave k \<Rightarrow> (fst st, remove1 k (snd st)))
      else quota_step consume produce ev st)"

definition concurrency_run ::
    "('q \<Rightarrow> nat \<times> 'q) \<Rightarrow> ('q \<Rightarrow> 'q) \<Rightarrow> num_js \<Rightarrow> quota_event list \<Rightarrow> 'q \<times> nat list \<Rightarrow> 'q \<times> nat list" where
  "concurrency_run consume produce conf evs st =
     foldl (\<lambda>st ev. concurrency_step consume produce conf ev st) st evs"

lemma concurrency_run_quota:
  "max_connections conf = Some n \<Longrightarrow>
     concurrency_run consume produce conf evs st = quota_run consume produce evs st"
  by (simp add: concurrency_run_def quota_run_def concurrency_step_def)

text \<open>The concurrency limit is kept and used to the full: whatever streams begin and end,
  never more than \<open>maxConnections\<close> are let through at a time, and a new stream is let through
  exactly when fewer are.\<close>

theorem concurrency_limited:
  assumes "quota_law consume produce left" "max_connections conf = Some n" "left q = n"
  shows "length (snd (concurrency_run consume produce conf evs (q, []))) \<le> n \<and>
         (k # snd (concurrency_run consume produce conf evs (q, [])) =
            snd (concurrency_step consume produce conf (Enter k)
                   (concurrency_run consume produce conf evs (q, []))) \<longleftrightarrow>
          length (snd (concurrency_run consume produce conf evs (q, []))) < n)"
proof -
  let ?st = "quota_run consume produce evs (q, [])"
  have run: "concurrency_run consume produce conf evs (q, []) = ?st"
    by (rule concurrency_run_quota [OF assms(2)])
  have total: "left (fst ?st) + length (snd ?st) = n"
    using quota_run_total [OF assms(1), of evs "(q, [])"] assms(3) by simp
  moreover have "snd (concurrency_step consume produce conf (Enter k) ?st) =
      (if 0 < left (fst ?st) then k # snd ?st else snd ?st)"
    using assms(2) quota_enter [OF assms(1)] by (simp add: concurrency_step_def)
  ultimately show ?thesis unfolding run by auto
qed

lemma concurrency_limited_witness:
  "length (snd (concurrency_run (\<lambda>q. (if 0 < q then 1 else 0, q - 1)) (\<lambda>q. q + 1) (Some 2)
     [Enter 1, Enter 2, Enter 3, Leave 1, Enter 4] (2::nat, []))) \<le> 2"
proof -
  have "max_connections (Some 2) = Some 2" by (simp add: max_connections_def to_int32_def)
  from concurrency_limited [OF quota_law_nat this refl] show ?thesis by (rule conjunct1)
qed

subsection \<open>Rate limit\<close>

record rate_section =
  rx_requests :: "string option"
  rx_interval :: "string option"
  rx_burst :: "string option"
  rx_backlog :: "string option"
  rx_blocking :: "string option"
  rx_response :: "response_conf option"

text \<open>What the filter builds: the size and refill of the rate quota, the backlog, the keys.\<close>

record rate_limit =
  rl_size :: "int option"
  rl_produce :: "int option"
  rl_per :: num_js
  rl_backlog :: "int option"
  rl_blocking :: bool
  rl_response :: message
  rl_rate_key :: "string option"
  rl_backlog_key :: "string option"

definition or_int :: "int option \<Rightarrow> int option \<Rightarrow> int option" where
  "or_int a b = (case a of None \<Rightarrow> b | Some n \<Rightarrow> if n = 0 then b else a)"

definition make_rate_limit :: "string option \<Rightarrow> rate_section \<Rightarrow> rate_limit" where
  "make_rate_limit key s =
     (let k = (\<lambda>p. if truthy key then Some (p @ the key) else None) in
      \<lparr>rl_size = or_int (read_int (rx_burst s)) (read_int (rx_requests s)),
       rl_produce = read_int (rx_requests s), rl_per = read_float (rx_interval s),
       rl_backlog = or_int (read_int (rx_backlog s)) None, rl_blocking = (rx_blocking s = Some ''true''),
       rl_response = reply_conf 429 ''Too many requests'' (rx_response s),
       rl_rate_key = k ''rate:'', rl_backlog_key = k ''backlog:''\<rparr>)"

text \<open>The backlog: a request enters, the first response leaves. Without one, all pass.\<close>

definition backlog_step ::
    "('q \<Rightarrow> nat \<times> 'q) \<Rightarrow> ('q \<Rightarrow> 'q) \<Rightarrow> rate_limit \<Rightarrow> quota_event \<Rightarrow> 'q \<times> nat list \<Rightarrow> 'q \<times> nat list" where
  "backlog_step consume produce rl ev st =
     (if rl_backlog rl = None then
        (case ev of Enter k \<Rightarrow> (fst st, k # snd st) | Leave k \<Rightarrow> (fst st, remove1 k (snd st)))
      else quota_step consume produce ev st)"

text \<open>The waiting requests never exceed the backlog.\<close>

lemma backlog_bounded:
  assumes "quota_law consume produce left" "rl_backlog rl \<noteq> None" "left q = n"
  shows "length (snd (foldl (\<lambda>st ev. backlog_step consume produce rl ev st) (q, []) evs)) \<le> n"
proof -
  have "backlog_step consume produce rl ev st = quota_step consume produce ev st" for ev st
    using assms(2) by (auto simp: backlog_step_def)
  then have "foldl (\<lambda>st ev. backlog_step consume produce rl ev st) (q, []) evs = quota_run consume produce evs (q, [])"
    by (simp add: quota_run_def)
  then show ?thesis
    using quota_run_total [OF assms(1), of evs "(q, [])"] assms(3) by simp
qed

subsection \<open>Fault injection\<close>

record fault_section =
  fx_delay_percent :: num_js
  fx_delay_min :: num_js
  fx_delay_max :: num_js
  fx_abort_percent :: num_js
  fx_response :: "response_conf option"

record fault =
  fa_delay :: int
  fa_min :: int
  fa_max :: int
  fa_abort :: int
  fa_message :: message

definition make_fault :: "fault_section \<Rightarrow> fault" where
  "make_fault s =
     \<lparr>fa_delay = max 0 (min 100 (to_int32 (fx_delay_percent s))),
      fa_min = to_int32 (fx_delay_min s), fa_max = to_int32 (fx_delay_max s),
      fa_abort = max 0 (min 100 (to_int32 (fx_abort_percent s))),
      fa_message = reply_conf 503 ''Service unavailable'' (fx_response s)\<rparr>"

text \<open>The weights of a dispatcher over \<open>true\<close> and \<open>false\<close>.\<close>

definition dispatch_weight :: "int \<Rightarrow> bool \<Rightarrow> int" where
  "dispatch_weight percent hit = (if hit then percent else 100 - percent)"

text \<open>The delay in seconds, for a random number of the unit interval.\<close>

definition fault_delay :: "fault \<Rightarrow> rat \<Rightarrow> rat" where
  "fault_delay f random = (random * of_int (fa_max f - fa_min f) + of_int (fa_min f)) / 1000"

datatype fault_outcome = Aborted message | Passed

definition inject_fault :: "fault \<Rightarrow> bool \<Rightarrow> bool \<Rightarrow> rat \<Rightarrow> rat option \<times> fault_outcome" where
  "inject_fault f delay abort random =
     (if delay then Some (fault_delay f random) else None,
      if abort then Aborted (fa_message f) else Passed)"

text \<open>Fault injection stays within its configuration, whatever numbers it is given: the
  weights of both dispatchers are never negative and add up to 100, and with \<open>min \<le> max\<close>
  every delay lies between \<open>min\<close> and \<open>max\<close> milliseconds.\<close>

theorem fault_within_bounds:
  assumes "f = make_fault s" "0 \<le> random" "random < 1"
  shows "(\<forall>b. 0 \<le> dispatch_weight (fa_delay f) b \<and> 0 \<le> dispatch_weight (fa_abort f) b) \<and>
         dispatch_weight (fa_delay f) True + dispatch_weight (fa_delay f) False = 100 \<and>
         dispatch_weight (fa_abort f) True + dispatch_weight (fa_abort f) False = 100 \<and>
         (fa_min f \<le> fa_max f \<longrightarrow>
            of_int (fa_min f) \<le> 1000 * fault_delay f random \<and>
            1000 * fault_delay f random \<le> of_int (fa_max f))"
proof -
  have w: "0 \<le> fa_delay f" "fa_delay f \<le> 100" "0 \<le> fa_abort f" "fa_abort f \<le> 100"
    using assms(1) by (simp_all add: make_fault_def)
  have "of_int (fa_min f) \<le> 1000 * fault_delay f random \<and> 1000 * fault_delay f random \<le> of_int (fa_max f)"
    if "fa_min f \<le> fa_max f"
  proof -
    have span: "0 \<le> (of_int (fa_max f - fa_min f) :: rat)" using that by simp
    have "0 \<le> random * of_int (fa_max f - fa_min f)"
      by (rule mult_nonneg_nonneg [OF assms(2) span])
    moreover have "random * of_int (fa_max f - fa_min f) \<le> 1 * of_int (fa_max f - fa_min f)"
      using assms(3) by (intro mult_right_mono [OF _ span]) simp
    ultimately show ?thesis by (simp add: fault_delay_def)
  qed
  then show ?thesis using w by (simp add: dispatch_weight_def)
qed

definition ex_fault :: fault_section where
  "ex_fault = \<lparr>fx_delay_percent = Some 50, fx_delay_min = Some 100, fx_delay_max = Some 300,
     fx_abort_percent = Some 250, fx_response = None\<rparr>"

lemma fault_within_bounds_witness:
  "0 \<le> dispatch_weight (fa_abort (make_fault ex_fault)) False \<and> fa_min (make_fault ex_fault) = 100 \<and>
   100 \<le> 1000 * fault_delay (make_fault ex_fault) (1 / 2)"
proof -
  have f: "fa_min (make_fault ex_fault) = 100" "fa_max (make_fault ex_fault) = 300"
    by (simp_all add: make_fault_def ex_fault_def to_int32_def)
  show ?thesis
    using fault_within_bounds [of "make_fault ex_fault" ex_fault "1 / 2"] f by simp
qed

end
