(* ===== verification/Filter_Http.thy ===== *)
theory Filter_Http
  imports Router_Http
begin

text \<open>
  The filters of \<open>src/filters/http\<close> that change, answer or copy requests:
  \<open>RequestHeaderModifier.js\<close>, \<open>ResponseHeaderModifier.js\<close>, \<open>URLRewrite.js\<close>,
  \<open>RequestTermination.js\<close>, \<open>RequestMirror.js\<close> and \<open>ExternalRateLimit.js\<close>. The filters that
  observe requests are in \<open>Filter_Log\<close>, those that limit traffic in \<open>Filter_Traffic\<close>.
\<close>

subsection \<open>Header modifiers\<close>

record header_section =
  hx_set :: "(string \<times> string) list option"
  hx_add :: "(string \<times> string) list option"
  hx_remove :: "string list option"

text \<open>The lists with their names in lower case; an added value comes with its comma.\<close>

record header_ops =
  ho_set :: "(string \<times> string) list"
  ho_add :: "(string \<times> string \<times> string) list"
  ho_del :: "string list"

definition read_header_ops :: "header_section \<Rightarrow> header_ops" where
  "read_header_ops s =
     \<lparr>ho_set = (case hx_set s of None \<Rightarrow> [] | Some xs \<Rightarrow> map (\<lambda>(n, v). (to_lower n, v)) xs),
      ho_add = (case hx_add s of None \<Rightarrow> [] | Some xs \<Rightarrow> map (\<lambda>(n, v). (to_lower n, v, '','' @ v)) xs),
      ho_del = (case hx_remove s of None \<Rightarrow> [] | Some xs \<Rightarrow> map to_lower xs)\<rparr>"

definition set_header :: "headers \<Rightarrow> string \<times> string \<Rightarrow> headers" where
  "set_header hs kv = obj_set (fst kv) (One (snd kv)) hs"

definition add_header :: "headers \<Rightarrow> string \<times> string \<times> string \<Rightarrow> headers" where
  "add_header hs kvw =
     (case kvw of (k, v, w) \<Rightarrow>
        if header_truthy (obj_get hs k)
        then obj_set k (One (header_text (the (obj_get hs k)) @ w)) hs
        else obj_set k (One v) hs)"

definition modify_headers :: "header_ops \<Rightarrow> headers \<Rightarrow> headers" where
  "modify_headers ops hs =
     foldl (\<lambda>hs k. obj_del k hs) (foldl add_header (foldl set_header hs (ho_set ops)) (ho_add ops)) (ho_del ops)"

definition modify_head :: "header_ops \<Rightarrow> head \<Rightarrow> head" where
  "modify_head ops h = h\<lparr>hd_headers := modify_headers ops (hd_headers h)\<rparr>"

text \<open>The request filter works before the next stage, the response filter behind it.\<close>

definition request_header_modifier :: "header_section \<Rightarrow> (head \<Rightarrow> head) \<Rightarrow> head \<Rightarrow> head" where
  "request_header_modifier s next h = next (modify_head (read_header_ops s) h)"

definition response_header_modifier :: "header_section \<Rightarrow> (head \<Rightarrow> head) \<Rightarrow> head \<Rightarrow> head" where
  "response_header_modifier s next h = modify_head (read_header_ops s) (next h)"

text \<open>What one header becomes: the specification looks at the entries of its name only.\<close>

definition entries_of :: "string \<Rightarrow> (string \<times> string) list option \<Rightarrow> string list" where
  "entries_of k xs = (case xs of None \<Rightarrow> [] | Some l \<Rightarrow> map snd (filter (\<lambda>nv. to_lower (fst nv) = k) l))"

definition removed_names :: "header_section \<Rightarrow> string list" where
  "removed_names s = (case hx_remove s of None \<Rightarrow> [] | Some ns \<Rightarrow> map to_lower ns)"

definition append_value :: "header_val option \<Rightarrow> string \<Rightarrow> header_val option" where
  "append_value u v =
     Some (One (if header_truthy u then header_text (the u) @ '','' @ v else v))"

definition header_spec :: "header_section \<Rightarrow> string \<Rightarrow> header_val option \<Rightarrow> header_val option" where
  "header_spec s k old =
     (if k \<in> set (removed_names s) then None
      else foldl append_value
             (if entries_of k (hx_set s) = [] then old else Some (One (last (entries_of k (hx_set s)))))
             (entries_of k (hx_add s)))"

lemma foldl_set_header:
  "obj_get (foldl set_header hs kvs) k =
     (if filter (\<lambda>kv. fst kv = k) kvs = [] then obj_get hs k
      else Some (One (snd (last (filter (\<lambda>kv. fst kv = k) kvs)))))"
  by (induction kvs arbitrary: hs) (auto simp: set_header_def)

lemma foldl_add_header:
  "(\<And>n v w. (n, v, w) \<in> set xs \<Longrightarrow> w = '','' @ v) \<Longrightarrow>
   obj_get (foldl add_header hs xs) k =
     foldl append_value (obj_get hs k) (map (\<lambda>x. fst (snd x)) (filter (\<lambda>x. fst x = k) xs))"
proof (induction xs arbitrary: hs)
  case (Cons x xs)
  obtain n v w where x: "x = (n, v, w)" by (cases x)
  have w: "w = '','' @ v" by (rule Cons.prems [of n]) (simp add: x)
  have "obj_get (add_header hs x) k = (if n = k then append_value (obj_get hs k) v else obj_get hs k)"
    by (auto simp: x w add_header_def append_value_def)
  moreover have "obj_get (foldl add_header (add_header hs x) xs) k =
      foldl append_value (obj_get (add_header hs x) k) (map (\<lambda>x. fst (snd x)) (filter (\<lambda>x. fst x = k) xs))"
    by (intro Cons.IH) (metis Cons.prems list.set_intros(2))
  ultimately show ?case by (simp add: x)
qed simp

lemma foldl_del: "obj_get (foldl (\<lambda>hs k. obj_del k hs) hs ks) k = (if k \<in> set ks then None else obj_get hs k)"
  by (induction ks arbitrary: hs) auto

lemma set_entries:
  "map snd (filter (\<lambda>kv. fst kv = k) (ho_set (read_header_ops s))) = entries_of k (hx_set s)"
  by (cases "hx_set s") (simp_all add: read_header_ops_def entries_of_def filter_map comp_def case_prod_beta)

lemma add_entries:
  "map (\<lambda>x. fst (snd x)) (filter (\<lambda>x. fst x = k) (ho_add (read_header_ops s))) = entries_of k (hx_add s)"
  by (cases "hx_add s") (simp_all add: read_header_ops_def entries_of_def filter_map comp_def case_prod_beta)

lemma add_commas: "(n, v, w) \<in> set (ho_add (read_header_ops s)) \<Longrightarrow> w = '','' @ v"
  by (cases "hx_add s") (auto simp: read_header_ops_def)

lemma del_entries: "ho_del (read_header_ops s) = removed_names s"
  by (simp add: read_header_ops_def removed_names_def)

text \<open>C25: A header modifier does to every header what its own entries say, independently of all
  others and of the case of the names: a removed header is gone, otherwise it has the value
  last set, or its old one, followed by every added value after a comma.\<close>

theorem header_modifier_spec:
  "obj_get (modify_headers (read_header_ops s) hs) k = header_spec s k (obj_get hs k)"
proof -
  let ?ops = "read_header_ops s"
  let ?es = "filter (\<lambda>kv. fst kv = k) (ho_set ?ops)"
  have set: "obj_get (foldl set_header hs (ho_set ?ops)) k =
      (if entries_of k (hx_set s) = [] then obj_get hs k else Some (One (last (entries_of k (hx_set s)))))"
    using set_entries [of k s, symmetric] unfolding foldl_set_header by (cases ?es rule: rev_cases) auto
  have "obj_get (foldl add_header (foldl set_header hs (ho_set ?ops)) (ho_add ?ops)) k =
      foldl append_value (obj_get (foldl set_header hs (ho_set ?ops)) k) (entries_of k (hx_add s))"
    using foldl_add_header [OF add_commas] by (simp add: add_entries)
  then show ?thesis
    unfolding modify_headers_def foldl_del del_entries set by (simp add: header_spec_def)
qed

subsection \<open>URL rewrite\<close>

datatype path_rewrite = NoRewrite | FullPath string | PrefixMatch string

record rewrite_section =
  ux_hostname :: "string option"
  ux_path :: path_rewrite

definition rewrite_path :: "http_env \<Rightarrow> path_rewrite \<Rightarrow> string option \<Rightarrow> string \<Rightarrow> string" where
  "rewrite_path env rw base path =
     (case rw of
        NoRewrite \<Rightarrow> path
      | FullPath p \<Rightarrow> p
      | PrefixMatch prefix \<Rightarrow>
          if truthy base then
            (let p = he_join env prefix (drop (length (the base)) path) in if p = [] then ''/'' else p)
          else path)"

definition url_rewrite :: "http_env \<Rightarrow> rewrite_section \<Rightarrow> string option \<Rightarrow> head \<Rightarrow> head" where
  "url_rewrite env s base h =
     h\<lparr>hd_headers := (if truthy (ux_hostname s)
                     then obj_set ''host'' (One (the (ux_hostname s))) (hd_headers h) else hd_headers h),
       hd_path := rewrite_path env (ux_path s) base (hd_path h)\<rparr>"

subsection \<open>Termination and mirroring\<close>

definition request_termination :: "response_conf option \<Rightarrow> message" where
  "request_termination conf = reply_conf 503 ''Service unavailable'' conf"

record mirror_section =
  mx_ref :: "backend_ref option"
  mx_percent :: rat
  mx_fraction :: "(rat \<times> rat) option"

text \<open>
  What becomes of requests: no copy, a copy of each, or a copy by the load balancer's choice
  with the weights of \<open>true\<close> and \<open>false\<close>. A percentage of 0 counts as none given.
\<close>

datatype mirror = NoMirror | MirrorAll string | MirrorSome string rat rat

definition mirror_weights :: "mirror_section \<Rightarrow> (rat \<times> rat) option" where
  "mirror_weights s =
     (if mx_percent s \<noteq> 0 then Some (mx_percent s, 100 - mx_percent s)
      else (case mx_fraction s of None \<Rightarrow> None | Some (num, den) \<Rightarrow> Some (num, den - num)))"

definition mirror_target :: "'cb store \<Rightarrow> mirror_section \<Rightarrow> backend_target option" where
  "mirror_target st s =
     (case mx_ref s of
        None \<Rightarrow> None
      | Some ref \<Rightarrow>
          (case Option.bind (Option.bind (br_name ref) (find_resource st (or_else (br_kind ref) ''Backend''))) r_spec of
             None \<Rightarrow> None
           | Some sp \<Rightarrow> (case sp_targets sp of None \<Rightarrow> None | Some [] \<Rightarrow> None | Some (t # ts) \<Rightarrow> Some t)))"

definition port_text :: "nat option \<Rightarrow> string" where
  "port_text p = (case p of None \<Rightarrow> ''undefined'' | Some n \<Rightarrow> nat_str n)"

definition request_mirror :: "'cb store \<Rightarrow> mirror_section \<Rightarrow> mirror" where
  "request_mirror st s =
     (case mirror_target st s of
        None \<Rightarrow> NoMirror
      | Some t \<Rightarrow>
          (let address = bt_address t @ '':'' @ port_text (bt_port t) in
           case mirror_weights s of
             None \<Rightarrow> MirrorAll address
           | Some (hit, miss) \<Rightarrow> MirrorSome address hit miss))"

subsection \<open>External rate limit\<close>

text \<open>
  The request that the throttle service gets: with \<open>passHeaders\<close> only the named headers, each
  possibly missing.
\<close>

record throttle_request =
  tq_method :: string
  tq_path :: string
  tq_headers :: "(string \<times> header_val option) list"

definition throttle_request_of :: "string list option \<Rightarrow> head \<Rightarrow> throttle_request" where
  "throttle_request_of pass h =
     \<lparr>tq_method = hd_method h, tq_path = hd_path h,
      tq_headers = (case pass of
          Some (k # ks) \<Rightarrow> map (\<lambda>k. (k, obj_get (hd_headers h) k)) (k # ks)
        | _ \<Rightarrow> map (\<lambda>(k, v). (k, Some v)) (hd_headers h))\<rparr>"

text \<open>The service's answer; one without a head counts as its failure.\<close>

definition throttle_response :: "message option \<Rightarrow> message" where
  "throttle_response res =
     (case res of None \<Rightarrow> reply 503 [] ''Throttle service down'' | Some m \<Rightarrow> m)"

datatype throttle_verdict = Admitted | Refused message

definition throttle :: "message option \<Rightarrow> throttle_verdict" where
  "throttle res =
     (let m = throttle_response res in
      if hd_status (ms_head m) = 200 then Admitted else Refused m)"

lemma throttle_down: "throttle None = Refused (reply 503 [] ''Throttle service down'')"
  by (simp add: throttle_def throttle_response_def reply_def)

end
