(* ===== verification/Filter_Log.thy ===== *)
theory Filter_Log
  imports Filter_Traffic Router_Http
begin

text \<open>
  The filters of \<open>src/filters/http\<close> that observe requests: \<open>Zipkin.js\<close>, \<open>FileLog.js\<close>,
  \<open>HTTPLog.js\<close> and \<open>Metrics.js\<close>, and the context that \<open>router-http.js\<close> makes for them.
  \<open>os.env\<close>, \<open>algo.uuid\<close> and the clock are parameters; the loggers and the statistics are
  the values they are given.
\<close>

subsection \<open>Tracing headers\<close>

text \<open>The tracing filter stores numbers among the headers.\<close>

datatype hval = HText header_val | HNumber nat

type_synonym theaders = "hval obj"

fun hval_truthy :: "hval option \<Rightarrow> bool" where
  "hval_truthy None = False"
| "hval_truthy (Some (HText v)) = header_truthy (Some v)"
| "hval_truthy (Some (HNumber n)) = (n \<noteq> 0)"

definition zipkin_percentage :: "string option \<Rightarrow> int option" where
  "zipkin_percentage v = or_int (read_int v) (Some 100)"

definition sample_weight :: "int \<Rightarrow> bool \<Rightarrow> int" where
  "sample_weight percent hit = (if hit then percent else 100 - percent)"

definition random_id :: "string \<Rightarrow> string" where
  "random_id uuid = filter (\<lambda>c. c \<noteq> CHR ''-'') uuid"

definition zipkin :: "string \<Rightarrow> bool \<Rightarrow> theaders \<Rightarrow> theaders" where
  "zipkin uuid sample hs =
     (let rid = random_id uuid;
          traceId = obj_get hs ''x-b3-traceid'';
          spanId = obj_get hs ''x-b3-spanid'';
          sampled = obj_get hs ''x-b3-sampled'';
          hs1 = (if hval_truthy spanId then obj_set ''x-b3-parentspanid'' (the spanId) hs else hs);
          hs2 = (if hval_truthy traceId then hs1 else obj_set ''x-b3-traceid'' (HText (One rid)) hs1);
          hs3 = (if hval_truthy sampled then hs2
                 else obj_set ''x-b3-sampled'' (HNumber (if sample then 1 else 0)) hs2)
      in obj_set ''x-b3-spanid'' (HText (One (drop 16 rid))) hs3)"

subsection \<open>The context of a request\<close>

record req_head =
  qh_protocol :: "string option"
  qh_scheme :: "string option"
  qh_authority :: "string option"
  qh_method :: string
  qh_path :: string
  qh_headers :: theaders

record res_head =
  sh_protocol :: "string option"
  sh_status :: nat
  sh_statusText :: "string option"

record msg_tail =
  tl_headSize :: nat
  tl_bodySize :: nat

record retry_note =
  rn_target :: string
  rn_succeeded :: bool

record inbound =
  ib_localAddr :: "string option"
  ib_localPort :: "nat option"
  ib_remoteAddr :: "string option"
  ib_remotePort :: "nat option"

record tls_info =
  ti_protocol :: "string option"
  ti_hostname :: "string option"
  ti_cipherName :: "string option"
  ti_cipherVersion :: "string option"
  ti_cipherBits :: "nat option"
  ti_negotiatedGroup :: "string option"
  ti_signature :: "string option"
  ti_signatureType :: "string option"
  ti_peerSignature :: "string option"
  ti_peerSignatureType :: "string option"

record ctx_response =
  cr_head :: "res_head option"
  cr_headTime :: rat
  cr_tail :: "msg_tail option"
  cr_tailTime :: rat

record req_ctx =
  cx_inbound :: inbound
  cx_tls :: "tls_info option"
  cx_id :: nat
  cx_host :: "string option"
  cx_path :: string
  cx_head :: req_head
  cx_headTime :: rat
  cx_tail :: "msg_tail option"
  cx_tailTime :: rat
  cx_sendTime :: rat
  cx_response :: ctx_response
  cx_basePath :: "string option"
  cx_route :: "resource option"
  cx_rule :: "rule option"
  cx_backendRes :: "resource option"
  cx_backend :: "string option"
  cx_consumer :: string
  cx_target :: string
  cx_retries :: "retry_note list"

text \<open>\<open>handleRequest\<close>: the context at the start of a request and at its end.\<close>

definition make_ctx ::
    "inbound \<Rightarrow> tls_info option \<Rightarrow> nat \<Rightarrow> rat \<Rightarrow> req_head \<Rightarrow> string option \<Rightarrow> match_vars \<Rightarrow>
     resource option \<Rightarrow> req_ctx" where
  "make_ctx ib tls count now h host mv backend =
     \<lparr>cx_inbound = ib, cx_tls = tls, cx_id = Suc count, cx_host = host, cx_path = qh_path h, cx_head = h,
      cx_headTime = now, cx_tail = None, cx_tailTime = 0, cx_sendTime = 0,
      cx_response = \<lparr>cr_head = None, cr_headTime = 0, cr_tail = None, cr_tailTime = 0\<rparr>,
      cx_basePath = mv_base mv, cx_route = mv_route mv, cx_rule = mv_rule mv, cx_backendRes = backend,
      cx_backend = None, cx_consumer = [], cx_target = [], cx_retries = []\<rparr>"

definition end_request :: "msg_tail \<Rightarrow> rat \<Rightarrow> req_ctx \<Rightarrow> req_ctx" where
  "end_request t now c = c\<lparr>cx_tail := Some t, cx_tailTime := now\<rparr>"

text \<open>What the HTTP balancer writes into the context: the response's head and tail.\<close>

definition note_head :: "res_head \<Rightarrow> rat \<Rightarrow> req_ctx \<Rightarrow> req_ctx" where
  "note_head h now c = c\<lparr>cx_response := (cx_response c)\<lparr>cr_head := Some h, cr_headTime := now\<rparr>\<rparr>"

definition note_tail :: "msg_tail \<Rightarrow> rat \<Rightarrow> req_ctx \<Rightarrow> req_ctx" where
  "note_tail t now c = c\<lparr>cx_response := (cx_response c)\<lparr>cr_tail := Some t, cr_tailTime := now\<rparr>\<rparr>"

subsection \<open>Log entries\<close>

record log_node =
  nd_ns :: "string option"
  nd_ip :: string
  nd_name :: string

type_synonym env = "string \<Rightarrow> string option"

definition mesh_name :: "env \<Rightarrow> string" where
  "mesh_name env = or_else (env ''MESH_NAME'') []"

definition log_node_of :: "env \<Rightarrow> log_node" where
  "log_node_of env =
     \<lparr>nd_ns = None, nd_ip = or_else (env ''POD_IP'') ''127.0.0.1'', nd_name = or_else (env ''HOSTNAME'') ''localhost''\<rparr>"

definition log_pod_of :: "env \<Rightarrow> log_node" where
  "log_pod_of env =
     \<lparr>nd_ns = Some (or_else (env ''POD_NAMESPACE'') ''default''), nd_ip = or_else (env ''POD_IP'') ''127.0.0.1'',
      nd_name = or_else (env ''POD_NAME'') (or_else (env ''HOSTNAME'') ''localhost'')\<rparr>"

record log_trace =
  lt_id :: "hval option"
  lt_span :: "hval option"
  lt_parent :: "hval option"

record log_entry =
  le_mesh :: string
  le_node :: log_node
  le_pod :: log_node
  le_inbound :: inbound
  le_tls :: "tls_info option"
  le_reqTime :: rat
  le_resTime :: rat
  le_endTime :: rat
  le_req :: req_head
  le_reqSize :: nat
  le_res :: res_head
  le_resSize :: nat
  le_backend :: "string option"
  le_target :: string
  le_retries :: "retry_note list"
  le_trace :: "log_trace option"

definition trace_of :: "theaders \<Rightarrow> log_trace option" where
  "trace_of hs =
     (if obj_get hs ''x-b3-sampled'' = Some (HText (One ''1''))
      then Some \<lparr>lt_id = obj_get hs ''x-b3-traceid'', lt_span = obj_get hs ''x-b3-spanid'',
                 lt_parent = obj_get hs ''x-b3-parentspanid''\<rparr>
      else None)"

text \<open>The entry that \<open>FileLog\<close> writes when a response ends; \<open>origin\<close> is the time origin.\<close>

definition make_log_entry :: "env \<Rightarrow> rat \<Rightarrow> req_ctx \<Rightarrow> js_error + log_entry" where
  "make_log_entry env origin c =
     (case (cx_tail c, cr_head (cx_response c)) of
        (Some reqTail, Some resHead) \<Rightarrow>
          Inr \<lparr>le_mesh = mesh_name env, le_node = log_node_of env, le_pod = log_pod_of env,
               le_inbound = cx_inbound c, le_tls = cx_tls c,
               le_reqTime = origin + cx_headTime c, le_resTime = origin + cr_headTime (cx_response c),
               le_endTime = origin + cr_tailTime (cx_response c),
               le_req = cx_head c, le_reqSize = tl_bodySize reqTail,
               le_res = resHead,
               le_resSize = (case cr_tail (cx_response c) of None \<Rightarrow> 0 | Some t \<Rightarrow> tl_bodySize t),
               le_backend = cx_backend c, le_target = cx_target c, le_retries = cx_retries c,
               le_trace = trace_of (qh_headers (cx_head c))\<rparr>
      | _ \<Rightarrow> Inl TypeError)"

text \<open>\<open>HTTPLog\<close> writes the same entry.\<close>

definition http_log_entry :: "env \<Rightarrow> rat \<Rightarrow> req_ctx \<Rightarrow> js_error + log_entry" where
  "http_log_entry env origin c = make_log_entry env origin c"

record batch_conf =
  ba_size :: "nat option"
  ba_timeout :: nat
  ba_interval :: nat
  ba_prefix :: "string option"
  ba_postfix :: "string option"
  ba_separator :: "string option"

record batch_section =
  bx_size :: "nat option"
  bx_interval :: "nat option"
  bx_prefix :: "string option"
  bx_postfix :: "string option"
  bx_separator :: "string option"

record http_log_section =
  hl_target :: string
  hl_method :: "string option"
  hl_headers :: headers
  hl_batch :: "batch_section option"
  hl_bufferLimit :: "nat option"

record http_logger =
  hg_target :: string
  hg_method :: string
  hg_headers :: headers
  hg_batch :: "batch_conf option"
  hg_bufferLimit :: nat

definition make_http_logger :: "http_log_section \<Rightarrow> http_logger" where
  "make_http_logger c =
     \<lparr>hg_target = hl_target c, hg_method = or_else (hl_method c) ''POST'', hg_headers = hl_headers c,
      hg_batch = map_option (\<lambda>b. \<lparr>ba_size = bx_size b, ba_timeout = 1,
        ba_interval = or_else_nat (bx_interval b) 1, ba_prefix = bx_prefix b, ba_postfix = bx_postfix b,
        ba_separator = bx_separator b\<rparr>) (hl_batch c),
      hg_bufferLimit = or_else_nat (hl_bufferLimit c) (8 * 1024 * 1024)\<rparr>"

subsection \<open>Metrics\<close>

text \<open>
  The counters by backend, the labelled observations in their order, the two byte counters by
  their labels, and the backends that have been seen.
\<close>

record metrics =
  me_requests :: nat
  me_status :: "string option list list"
  me_ingress :: "string option list \<Rightarrow> nat"
  me_egress :: "string option list \<Rightarrow> nat"
  me_latency :: "(string option list \<times> string \<times> rat) list"
  me_retry :: "string option \<Rightarrow> nat"
  me_retry_success :: "string option \<Rightarrow> nat"
  me_retry_exceeded :: "string option \<Rightarrow> nat"
  me_retry_backoff :: "string option \<Rightarrow> nat"
  me_backends :: "string list"
  me_connections :: "string \<Rightarrow> int"

definition no_metrics :: metrics where
  "no_metrics = \<lparr>me_requests = 0, me_status = [], me_ingress = (\<lambda>_. 0), me_egress = (\<lambda>_. 0),
     me_latency = [], me_retry = (\<lambda>_. 0), me_retry_success = (\<lambda>_. 0), me_retry_exceeded = (\<lambda>_. 0),
     me_retry_backoff = (\<lambda>_. 0), me_backends = [], me_connections = (\<lambda>_. 0)\<rparr>"

definition metrics_start :: "metrics \<Rightarrow> metrics" where
  "metrics_start m = m\<lparr>me_requests := me_requests m + 1\<rparr>"

definition bump :: "'k \<Rightarrow> nat \<Rightarrow> ('k \<Rightarrow> nat) \<Rightarrow> 'k \<Rightarrow> nat" where
  "bump k n f = f(k := f k + n)"

definition note_retries :: "string option \<Rightarrow> retry_note list \<Rightarrow> metrics \<Rightarrow> metrics" where
  "note_retries backend rs m =
     (if rs = [] then m
      else m\<lparr>me_retry := bump backend 1 (me_retry m),
             me_retry_success := (if rn_succeeded (last rs) then bump backend 1 (me_retry_success m)
                                  else me_retry_success m),
             me_retry_exceeded := (if rn_succeeded (last rs) then me_retry_exceeded m
                                   else bump backend 1 (me_retry_exceeded m)),
             me_retry_backoff := (if 1 < length rs then bump backend 1 (me_retry_backoff m)
                                  else me_retry_backoff m)\<rparr>)"

definition tail_size :: "msg_tail \<Rightarrow> nat" where
  "tail_size t = tl_headSize t + tl_bodySize t"

text \<open>Status, bytes and latencies of a finished request.\<close>

definition note_request :: "rat \<Rightarrow> req_ctx \<Rightarrow> resource \<Rightarrow> msg_tail \<Rightarrow> metrics \<Rightarrow> metrics" where
  "note_request headTime c res reqTail m =
     (let backend = Option.bind (cx_backendRes c) r_name;
          route = r_name res;
          target = Some (cx_target c);
          status = map_option (\<lambda>h. nat_str (sh_status h)) (cr_head (cx_response c));
          ingress = tail_size reqTail;
          egress = (case cr_tail (cx_response c) of None \<Rightarrow> 0 | Some t \<Rightarrow> tail_size t);
          labels = [target, backend, route, Some (cx_consumer c)]
      in m\<lparr>me_status := me_status m @
              [[backend, target, route, Some (cx_consumer c), cx_host c, cx_basePath c, status]],
           me_ingress := bump [backend, target, route] ingress (bump [backend] ingress (me_ingress m)),
           me_egress := bump [backend, target, route] egress (bump [backend] egress (me_egress m)),
           me_latency := me_latency m @
             [(labels, ''upstream'', cr_headTime (cx_response c) - cx_sendTime c),
              (labels, ''fgw'', cx_sendTime c - cx_headTime c),
              (labels, ''request'', headTime - cx_headTime c)]\<rparr>)"

definition note_backend :: "string option \<Rightarrow> metrics \<Rightarrow> metrics" where
  "note_backend b m =
     (case b of
        None \<Rightarrow> m
      | Some x \<Rightarrow> if x \<in> set (me_backends m) then m else m\<lparr>me_backends := me_backends m @ [x]\<rparr>)"

definition metrics_end :: "rat \<Rightarrow> req_ctx \<Rightarrow> metrics \<Rightarrow> js_error + metrics" where
  "metrics_end headTime c m =
     (case (cx_route c, cx_tail c) of
        (Some res, Some reqTail) \<Rightarrow>
          Inr (note_backend (cx_backend c)
                 (note_retries (Option.bind (cx_backendRes c) r_name) (cx_retries c)
                    (note_request headTime c res reqTail m)))
      | _ \<Rightarrow> Inl TypeError)"

text \<open>The periodic reading of the backends' concurrency.\<close>

definition update_upstream :: "(string \<Rightarrow> int) \<Rightarrow> metrics \<Rightarrow> metrics" where
  "update_upstream concurrency m =
     m\<lparr>me_connections := (\<lambda>b. if b \<in> set (me_backends m) then concurrency b else me_connections m b)\<rparr>"

definition sample_interval :: "string option \<Rightarrow> rat" where
  "sample_interval v = (case read_float v of None \<Rightarrow> 5 | Some r \<Rightarrow> if r = 0 then 5 else r)"

subsection \<open>What the observers see\<close>

lemma zipkin_headers:
  "obj_get (zipkin uuid sample hs) ''x-b3-sampled'' =
     (if hval_truthy (obj_get hs ''x-b3-sampled'') then obj_get hs ''x-b3-sampled''
      else Some (HNumber (if sample then 1 else 0)))"
  "obj_get (zipkin uuid sample hs) ''x-b3-traceid'' =
     (if hval_truthy (obj_get hs ''x-b3-traceid'') then obj_get hs ''x-b3-traceid''
      else Some (HText (One (random_id uuid))))"
  "obj_get (zipkin uuid sample hs) ''x-b3-parentspanid'' =
     (if hval_truthy (obj_get hs ''x-b3-spanid'') then obj_get hs ''x-b3-spanid''
      else obj_get hs ''x-b3-parentspanid'')"
  "obj_get (zipkin uuid sample hs) ''x-b3-spanid'' = Some (HText (One (drop 16 (random_id uuid))))"
proof -
  have v: "hval_truthy (obj_get hs k) \<Longrightarrow> Some (the (obj_get hs k)) = obj_get hs k" for k
    by (cases "obj_get hs k") simp_all
  show "obj_get (zipkin uuid sample hs) ''x-b3-parentspanid'' =
     (if hval_truthy (obj_get hs ''x-b3-spanid'') then obj_get hs ''x-b3-spanid''
      else obj_get hs ''x-b3-parentspanid'')"
    using v [of "''x-b3-spanid''"] by (simp add: zipkin_def Let_def)
qed (simp_all add: zipkin_def Let_def)

text \<open>Traces that the gateway samples itself are not logged: the tracing filter marks a
  request that came without a sampling decision with a number, and the log filters look for
  the text \<open>1\<close>, so whatever was decided the entry has no trace; the entry of a request that
  came with the decision \<open>1\<close> has one, under the client's trace and the gateway's span.\<close>

theorem local_traces_unlogged:
  assumes "qh_headers (cx_head c) = zipkin uuid sample hs" "make_log_entry env origin c = Inr e"
  shows "(\<not> hval_truthy (obj_get hs ''x-b3-sampled'') \<longrightarrow> le_trace e = None) \<and>
         (obj_get hs ''x-b3-sampled'' = Some (HText (One ''1'')) \<longrightarrow>
            hval_truthy (obj_get hs ''x-b3-traceid'') \<longrightarrow> hval_truthy (obj_get hs ''x-b3-spanid'') \<longrightarrow>
            le_trace e = Some \<lparr>lt_id = obj_get hs ''x-b3-traceid'',
                               lt_span = Some (HText (One (drop 16 (random_id uuid)))),
                               lt_parent = obj_get hs ''x-b3-spanid''\<rparr>)"
proof -
  have "le_trace e = trace_of (zipkin uuid sample hs)"
    using assms by (auto simp: make_log_entry_def split: option.splits)
  then show ?thesis by (simp add: trace_of_def zipkin_headers)
qed

definition ex_inbound :: inbound where
  "ex_inbound = \<lparr>ib_localAddr = None, ib_localPort = None, ib_remoteAddr = None, ib_remotePort = None\<rparr>"

definition ex_req_head :: "theaders \<Rightarrow> req_head" where
  "ex_req_head hs = \<lparr>qh_protocol = None, qh_scheme = None, qh_authority = None, qh_method = ''GET'',
     qh_path = ''/'', qh_headers = hs\<rparr>"

definition ex_ctx :: "theaders \<Rightarrow> resource option \<Rightarrow> req_ctx" where
  "ex_ctx hs route = note_head \<lparr>sh_protocol = None, sh_status = 200, sh_statusText = None\<rparr> 5
     (end_request \<lparr>tl_headSize = 10, tl_bodySize = 0\<rparr> 3
       (make_ctx ex_inbound None 0 2 (ex_req_head hs) None (no_vars\<lparr>mv_route := route\<rparr>) None))"

lemmas ex_ctx_defs = ex_ctx_def note_head_def end_request_def make_ctx_def ex_req_head_def no_vars_def

lemma local_traces_unlogged_witness:
  "\<exists>e. make_log_entry (\<lambda>_. None) 0 (ex_ctx (zipkin ''u'' True []) None) = Inr e \<and> le_trace e = None"
proof -
  obtain e where e: "make_log_entry (\<lambda>_. None) 0 (ex_ctx (zipkin ''u'' True []) None) = Inr e"
    by (simp add: make_log_entry_def ex_ctx_defs)
  have "qh_headers (cx_head (ex_ctx (zipkin ''u'' True []) None)) = zipkin ''u'' True []"
    by (simp add: ex_ctx_defs)
  from local_traces_unlogged [OF this e] have "le_trace e = None" by simp
  then show ?thesis using e by (intro exI [of _ e] conjI)
qed

text \<open>A percentage of 0 samples everything.\<close>

lemma zipkin_zero_samples_all: "read_int v = Some 0 \<Longrightarrow> zipkin_percentage v = Some 100"
  by (simp add: zipkin_percentage_def or_int_def)

text \<open>Without a head noted by a balancer, as when another filter replied, the entry raises.\<close>

lemma log_needs_balancer:
  "make_log_entry env origin (end_request t now (make_ctx ib tls n t0 h host mv backend)) = Inl TypeError"
  by (simp add: make_log_entry_def end_request_def make_ctx_def)

text \<open>A run of finished requests; one whose handler raises leaves the counters as they were.\<close>

definition metrics_run :: "(rat \<times> req_ctx) list \<Rightarrow> metrics \<Rightarrow> metrics" where
  "metrics_run rs m =
     foldl (\<lambda>m (t, c). case metrics_end t c m of Inl e \<Rightarrow> m | Inr m' \<Rightarrow> m') m rs"

definition retries_ok :: "metrics \<Rightarrow> bool" where
  "retries_ok m \<longleftrightarrow> (\<forall>b. me_retry m b = me_retry_success m b + me_retry_exceeded m b \<and>
     me_retry_backoff m b \<le> me_retry m b)"

lemma note_retries_ok:
  assumes "retries_ok m"
  shows "retries_ok (note_retries b rs m)"
  unfolding retries_ok_def
proof
  fix k
  have "me_retry m k = me_retry_success m k + me_retry_exceeded m k" "me_retry_backoff m k \<le> me_retry m k"
    using assms unfolding retries_ok_def by blast+
  then show "me_retry (note_retries b rs m) k =
      me_retry_success (note_retries b rs m) k + me_retry_exceeded (note_retries b rs m) k \<and>
    me_retry_backoff (note_retries b rs m) k \<le> me_retry (note_retries b rs m) k"
    by (cases "k = b") (simp_all add: note_retries_def bump_def)
qed

lemma retries_ok_cong:
  "me_retry m' = me_retry m \<Longrightarrow> me_retry_success m' = me_retry_success m \<Longrightarrow>
   me_retry_exceeded m' = me_retry_exceeded m \<Longrightarrow> me_retry_backoff m' = me_retry_backoff m \<Longrightarrow>
   retries_ok m' = retries_ok m"
  unfolding retries_ok_def by (simp only:)

lemma metrics_end_ok:
  assumes "retries_ok m" "metrics_end t c m = Inr m'"
  shows "retries_ok m'"
proof -
  obtain res tl' where m': "m' = note_backend (cx_backend c)
      (note_retries (Option.bind (cx_backendRes c) r_name) (cx_retries c) (note_request t c res tl' m))"
    using assms(2) by (auto simp: metrics_end_def split: option.splits)
  have "retries_ok (note_request t c res tl' m) = retries_ok m"
    by (rule retries_ok_cong) (simp_all add: note_request_def Let_def)
  then have ok: "retries_ok (note_retries b rs (note_request t c res tl' m))" for b rs
    using note_retries_ok assms(1) by simp
  have "retries_ok (note_backend b n) = retries_ok n" for b n
    by (rule retries_ok_cong) (simp_all add: note_backend_def split: option.split)
  then show ?thesis unfolding m' using ok by simp
qed

interpretation retry_metrics: event_machine "\<lambda>(t, c) m. case metrics_end t c m of Inl e \<Rightarrow> m | Inr m' \<Rightarrow> m'" retries_ok
  by unfold_locales (auto dest: metrics_end_ok split: sum.splits)

text \<open>The retry counters agree: for every backend the requests that were retried are those
  whose last retry succeeded and those that gave up, and no more than these were retried with
  growing backoff.\<close>

theorem metrics_retries_balance:
  "me_retry (metrics_run rs no_metrics) b =
     me_retry_success (metrics_run rs no_metrics) b + me_retry_exceeded (metrics_run rs no_metrics) b \<and>
   me_retry_backoff (metrics_run rs no_metrics) b \<le> me_retry (metrics_run rs no_metrics) b"
proof -
  have "retries_ok no_metrics" by (simp add: retries_ok_def no_metrics_def)
  then have "retries_ok (metrics_run rs no_metrics)"
    using retry_metrics.always [of no_metrics rs] by (simp add: metrics_run_def case_prod_unfold)
  then show ?thesis unfolding retries_ok_def by (rule spec)
qed

lemma grpc_find_vars:
  "(\<And>r. r \<in> set rows \<Longrightarrow> snd (fst r h mv) = mv) \<Longrightarrow> snd (find_match rows h mv) = mv"
proof (induction rows)
  case (Cons r rs)
  have "snd (fst r h mv) = mv" by (rule Cons.prems) simp
  moreover have "snd (find_match rs h mv) = mv" by (rule Cons.IH) (rule Cons.prems, simp)
  ultimately show ?case by (simp add: case_prod_beta)
qed simp

lemma grpc_rows_keep_vars:
  assumes "make_rule_selector fast http mk routes = Inr t" "routes = r # rs" "r_kind r = Some ''GRPCRoute''"
  shows "snd (select_row http t h mv) = mv"
proof -
  obtain es where es: "map_res (make_row fast http ''GRPCRoute'') es = Inr (rt_rows t)" and slow: "\<not> rt_fast t"
    using assms by (auto simp: make_rule_selector_def bind_res_Inr_iff Let_def)
  have "snd (find_match (rt_rows t) h mv) = mv"
  proof (rule grpc_find_vars)
    fix row assume "row \<in> set (rt_rows t)"
    from list_all2_in2 [OF es [unfolded map_res_Inr_iff] this]
    obtain e where "make_row fast http ''GRPCRoute'' e = Inr row" by blast
    then show "snd (fst row h mv) = mv"
      by (auto simp: make_row_def make_grpc_match_def bind_res_Inr_iff)
  qed
  then show ?thesis using slow by (simp add: select_row_def)
qed

text \<open>The metrics filter fails on every gRPC request: the matches of a GRPCRoute do not note
  the route that matched, the context is made without one, and reading its metadata raises
  when the response ends.\<close>

theorem metrics_raise_on_grpc:
  assumes "make_rule_selector fast http mk routes = Inr t" "routes = r # rs" "r_kind r = Some ''GRPCRoute''"
    and "select_row http t h no_vars = (row, mv)"
  shows "metrics_end headTime (note_tail t2 now2 (note_head rh now1 (end_request t1 now
           (make_ctx ib tls n t0 qh host mv backend)))) m = Inl TypeError"
proof -
  have "mv = no_vars" using grpc_rows_keep_vars [OF assms(1-3), of h no_vars] assms(4) by simp
  then show ?thesis
    by (simp add: metrics_end_def note_tail_def note_head_def end_request_def make_ctx_def no_vars_def)
qed

definition ex_grpc :: resource where
  "ex_grpc = \<lparr>r_obj = 1, r_kind = Some ''GRPCRoute'', r_name = Some ''g'',
     r_spec = Some (no_spec\<lparr>sp_rules := Some [no_rule]\<rparr>)\<rparr>"

lemma metrics_raise_on_grpc_witness:
  "metrics_end 9 (note_tail \<lparr>tl_headSize = 1, tl_bodySize = 1\<rparr> 8
     (note_head \<lparr>sh_protocol = None, sh_status = 200, sh_statusText = None\<rparr> 7
       (end_request \<lparr>tl_headSize = 1, tl_bodySize = 1\<rparr> 6
         (make_ctx ex_inbound None 0 5 (ex_req_head []) None no_vars None)))) no_metrics = Inl TypeError"
proof -
  obtain t where t: "make_rule_selector True ex_http (\<lambda>rl b. Inr (0::nat)) [ex_grpc] = Inr t"
    by (simp add: make_rule_selector_def route_rules_def ex_grpc_def no_spec_def no_rule_def
        rule_entries_def sort_entries_def make_row_def make_grpc_match_def make_grpc_method_matcher_def
        make_object_matcher_def method_truthy_def no_match_def Let_def)
  obtain row mv where s: "select_row ex_http t no_head no_vars = (row, mv)" by (cases "select_row ex_http t no_head no_vars")
  have "mv = no_vars" using grpc_rows_keep_vars [OF t refl, of no_head no_vars] s by (simp add: ex_grpc_def)
  then show ?thesis
    using metrics_raise_on_grpc [OF t refl _ s] by (simp add: ex_grpc_def)
qed

end
