(* ===== verification/Filter_L4.thy ===== *)
theory Filter_L4
  imports Router_L4
begin

text \<open>
  The filters that work on streams and on other protocols: \<open>src/filters/tcp/IPRestriction.js\<close>,
  \<open>ProxyAccept.js\<close>, \<open>TLSDelegate.js\<close> and \<open>TCPForward.js\<close>, \<open>src/filters/http/HTTPForward.js\<close>
  and \<open>CallDubbo.js\<close>, \<open>src/filters/udp/DNSModifier.js\<close>. Network masks, certificates, codecs,
  URLs and random numbers belong to the host.
\<close>

subsection \<open>IP restriction\<close>

text \<open>An address without a slash becomes a mask of 32 bits.\<close>

definition mask_text :: "string \<Rightarrow> string" where
  "mask_text s = (if index_of CHR ''/'' s = None then s @ ''/32'' else s)"

definition make_masks ::
    "(string \<Rightarrow> js_error + (string \<Rightarrow> bool)) \<Rightarrow> string list option \<Rightarrow> js_error + (string \<Rightarrow> bool) list" where
  "make_masks ip_mask ms = map_res (\<lambda>s. ip_mask (mask_text s)) (case ms of None \<Rightarrow> [] | Some l \<Rightarrow> l)"

definition make_ip_restriction ::
    "(string \<Rightarrow> js_error + (string \<Rightarrow> bool)) \<Rightarrow> string list option \<Rightarrow> string list option \<Rightarrow>
     js_error + (string \<Rightarrow> bool) list \<times> (string \<Rightarrow> bool) list" where
  "make_ip_restriction ip_mask allowed forbidden =
     bind_res (make_masks ip_mask allowed) (\<lambda>as. bind_res (make_masks ip_mask forbidden) (\<lambda>fs. Inr (as, fs)))"

definition ip_rejected :: "(string \<Rightarrow> bool) list \<times> (string \<Rightarrow> bool) list \<Rightarrow> string \<Rightarrow> bool" where
  "ip_rejected masks ip =
     (if fst masks \<noteq> [] \<and> \<not> list_ex (\<lambda>m. m ip) (fst masks) then True
      else snd masks \<noteq> [] \<and> list_ex (\<lambda>m. m ip) (snd masks))"

text \<open>IP restriction is exact: with the masks as \<open>contains\<close> of the network library reads
  them, a stream is let through exactly when no list of allowed masks is given or one of them
  contains its address, and none of the forbidden masks does.\<close>

theorem ip_restriction_exact:
  assumes "make_ip_restriction ip_mask allowed forbidden = Inr masks"
  shows "\<not> ip_rejected masks ip \<longleftrightarrow>
     ((case allowed of None \<Rightarrow> True | Some [] \<Rightarrow> True
       | Some ms \<Rightarrow> \<exists>s \<in> set ms. \<exists>m. ip_mask (mask_text s) = Inr m \<and> m ip) \<and>
      (\<forall>s \<in> set (case forbidden of None \<Rightarrow> [] | Some ms \<Rightarrow> ms). \<forall>m. ip_mask (mask_text s) = Inr m \<longrightarrow> \<not> m ip))"
proof -
  obtain as fs where masks: "masks = (as, fs)"
    and as: "make_masks ip_mask allowed = Inr as" and fs: "make_masks ip_mask forbidden = Inr fs"
    using assms by (auto simp: make_ip_restriction_def bind_res_Inr_iff)
  have ex: "list_ex (\<lambda>m. m ip) ms' \<longleftrightarrow> (\<exists>s \<in> set (case ms of None \<Rightarrow> [] | Some l \<Rightarrow> l). \<exists>m. ip_mask (mask_text s) = Inr m \<and> m ip)"
    if "make_masks ip_mask ms = Inr ms'" for ms ms'
  proof -
    have "list_all2 (\<lambda>s m. ip_mask (mask_text s) = Inr m) (case ms of None \<Rightarrow> [] | Some l \<Rightarrow> l) ms'"
      using that by (simp add: make_masks_def map_res_Inr_iff)
    then show ?thesis by (induction rule: list_all2_induct) auto
  qed
  have "as = [] \<longleftrightarrow> (case allowed of None \<Rightarrow> [] | Some l \<Rightarrow> l) = []"
    "fs = [] \<longleftrightarrow> (case forbidden of None \<Rightarrow> [] | Some l \<Rightarrow> l) = []"
    using as fs by (auto simp: make_masks_def map_res_Inr_iff)
  then show ?thesis
    using ex [OF as] ex [OF fs] unfolding masks ip_rejected_def
    by (auto split: option.splits list.splits)
qed

lemma ip_restriction_exact_witness:
  "\<not> ip_rejected ([\<lambda>ip. ip = ''10.0.0.1/32''], []) ''10.0.0.1/32'' \<longleftrightarrow>
     (\<exists>s \<in> set [''10.0.0.1'']. \<exists>m. Inr (\<lambda>ip. ip = mask_text s) = (Inr m :: js_error + _) \<and> m ''10.0.0.1/32'')"
proof -
  have "make_ip_restriction (\<lambda>s. Inr (\<lambda>ip. ip = s)) (Some [''10.0.0.1'']) None = Inr ([\<lambda>ip. ip = ''10.0.0.1/32''], [])"
    by (simp add: make_ip_restriction_def make_masks_def mask_text_def)
  from ip_restriction_exact [OF this, of "''10.0.0.1/32''"] show ?thesis by simp
qed

text \<open>An IPv6 address given alone is read as a whole network of 32 bits.\<close>

lemma ipv6_address_widened:
  "index_of CHR ''/'' s = None \<Longrightarrow> mask_text s = s @ ''/32''"
  by (simp add: mask_text_def)

subsection \<open>Forward proxies\<close>

text \<open>\<open>ProxyAccept\<close>: the protocol decides, then for HTTP the method.\<close>

datatype proxy_kind = ProxyWait | ProxyHttp | ProxySocks

definition proxy_kind_of :: "string option \<Rightarrow> proxy_kind" where
  "proxy_kind_of proto =
     (case proto of None \<Rightarrow> ProxyWait | Some p \<Rightarrow> if p = ''HTTP'' then ProxyHttp else ProxySocks)"

record url_parts =
  url_hostname :: string
  url_port :: string
  url_path :: string

text \<open>The target that is kept in the context, and the path that goes on; a tunnel answers 200.\<close>

datatype proxy_action = Tunnel string | ForwardRequest string string

definition proxy_http :: "(string \<Rightarrow> url_parts) \<Rightarrow> string \<Rightarrow> string \<Rightarrow> proxy_action" where
  "proxy_http parse_url meth path =
     (if meth = ''CONNECT'' then Tunnel path
      else (let url = parse_url path in ForwardRequest (url_hostname url @ '':'' @ url_port url) (url_path url)))"

definition proxy_socks :: "string option \<Rightarrow> string \<Rightarrow> string \<Rightarrow> string" where
  "proxy_socks domain ip port = or_else domain ip @ '':'' @ port"

text \<open>The context that the proxy filters share.\<close>

record proxy_ctx =
  px_target :: "string option"
  px_server :: "string option"

definition accept_http :: "(string \<Rightarrow> url_parts) \<Rightarrow> string \<Rightarrow> string \<Rightarrow> proxy_ctx \<Rightarrow> proxy_ctx" where
  "accept_http parse_url meth path c =
     c\<lparr>px_target := Some (case proxy_http parse_url meth path of Tunnel t \<Rightarrow> t | ForwardRequest t p \<Rightarrow> t)\<rparr>"

definition accept_socks :: "string option \<Rightarrow> string \<Rightarrow> string \<Rightarrow> proxy_ctx \<Rightarrow> proxy_ctx" where
  "accept_socks domain ip port c = c\<lparr>px_target := Some (proxy_socks domain ip port)\<rparr>"

text \<open>
  \<open>TLSDelegate\<close>: a TLS stream gets a certificate for the name that the client asks for,
  issued once per name; without a name there is none. \<open>issue\<close> is the certificate authority.
\<close>

datatype delegate_kind = DelegateWait | DelegateTls | DelegatePass

definition delegate_kind_of :: "bool \<Rightarrow> string option \<Rightarrow> delegate_kind" where
  "delegate_kind_of message proto =
     (if message then DelegatePass
      else (case proto of None \<Rightarrow> DelegateWait | Some p \<Rightarrow> if p = ''TLS'' then DelegateTls else DelegatePass))"

definition delegate_certificate ::
    "(string \<Rightarrow> 'cert) \<Rightarrow> string \<Rightarrow> proxy_ctx \<times> 'cert obj \<Rightarrow> 'cert option \<times> proxy_ctx \<times> 'cert obj" where
  "delegate_certificate issue name st =
     (if name = [] then (None, st)
      else
        (let c = (fst st)\<lparr>px_server := Some name\<rparr> in
         case obj_get (snd st) name of
           Some crt \<Rightarrow> (Some crt, c, snd st)
         | None \<Rightarrow> (Some (issue name), c, obj_set name (issue name) (snd st))))"

text \<open>Where \<open>TCPForward\<close> and \<open>HTTPForward\<close> connect, and whether with TLS.\<close>

definition tcp_forward :: "proxy_ctx \<Rightarrow> string option" where
  "tcp_forward c = px_target c"

definition http_forward :: "proxy_ctx \<Rightarrow> string option \<times> string option" where
  "http_forward c = (px_target c, if truthy (px_server c) then px_server c else None)"

lemma delegate_certificate_name:
  assumes "\<forall>n crt. obj_get certs n = Some crt \<longrightarrow> crt = issue n" "name \<noteq> []"
  shows "fst (delegate_certificate issue name (c, certs)) = Some (issue name)"
    and "snd (http_forward (fst (snd (delegate_certificate issue name (c, certs))))) = Some name"
  using assms by (auto simp: delegate_certificate_def http_forward_def Let_def split: option.split)

subsection \<open>Calling Dubbo\<close>

text \<open>A JSON body becomes the parameters of a call: an array its elements, anything else one.\<close>

datatype 'j json_body = JsonArray "'j list" | JsonValue 'j

definition call_params :: "nat \<Rightarrow> 'j json_body \<Rightarrow> 'j list" where
  "call_params bodySize json = (if bodySize = 0 then [] else case json of JsonArray xs \<Rightarrow> xs | JsonValue v \<Rightarrow> [v])"

record dubbo_section =
  dx_version :: "string option"
  dx_service :: "string option"
  dx_method :: "string option"
  dx_signature :: "string option"

datatype 'j dubbo_field = DText string | DParam 'j | DNull

record 'j dubbo_request =
  dq_id :: nat
  dq_isRequest :: bool
  dq_isTwoWay :: bool
  dq_serialization :: nat
  dq_body :: "'j dubbo_field list"

definition call_dubbo :: "dubbo_section \<Rightarrow> nat \<Rightarrow> 'j json_body \<Rightarrow> nat \<Rightarrow> 'j dubbo_request \<times> nat" where
  "call_dubbo s bodySize json requestID =
     (\<lparr>dq_id = Suc requestID, dq_isRequest = True, dq_isTwoWay = True, dq_serialization = 2,
       dq_body = map DText [''2.0.2'', or_else (dx_service s) [], or_else (dx_version s) [],
           or_else (dx_method s) [], or_else (dx_signature s) []] @
         map DParam (call_params bodySize json) @ [DNull]\<rparr>,
      Suc requestID)"

text \<open>The latencies of a finished call: of the request, of the upstream, and the rest.\<close>

record dubbo_latency =
  la_count :: nat
  la_upstream :: rat
  la_proxy :: rat
  la_request :: rat

definition note_latency :: "rat \<Rightarrow> rat \<Rightarrow> rat \<Rightarrow> rat \<Rightarrow> dubbo_latency \<Rightarrow> dubbo_latency" where
  "note_latency now headTime resTime sendTime l =
     (let timeRequest = now - headTime; timeUpstream = resTime - sendTime; timeProxy = timeRequest - timeUpstream
      in \<lparr>la_count = la_count l + 1, la_upstream = la_upstream l + timeUpstream,
          la_proxy = la_proxy l + timeProxy, la_request = la_request l + timeRequest\<rparr>)"

lemma latency_parts:
  "la_request l = la_upstream l + la_proxy l \<Longrightarrow>
   la_request (note_latency n h r s l) = la_upstream (note_latency n h r s l) + la_proxy (note_latency n h r s l)"
  by (simp add: note_latency_def Let_def)

subsection \<open>DNS answers\<close>

record dns_entry =
  de_name :: string
  de_answer :: "string list"

definition add_domain ::
    "string list obj \<times> (string \<times> string list) list \<Rightarrow> dns_entry \<Rightarrow>
     string list obj \<times> (string \<times> string list) list" where
  "add_domain tabs e =
     (if starts_with ''*'' (de_name e) then (fst tabs, snd tabs @ [(tl (de_name e), de_answer e)])
      else (obj_set (de_name e) (de_answer e) (fst tabs), snd tabs))"

definition dns_tables ::
    "dns_entry list option \<Rightarrow> string list obj \<times> (string \<times> string list) list" where
  "dns_tables ds = foldl add_domain ([], []) (case ds of None \<Rightarrow> [] | Some l \<Rightarrow> l)"

definition find_answer ::
    "string list obj \<times> (string \<times> string list) list \<Rightarrow> string \<Rightarrow> string list option" where
  "find_answer tabs name = host_lookup (fst tabs) (snd tabs) name"

text \<open>
  \<open>shuffle\<close>. An index may be a fraction: reading \<open>s[j]\<close> there gives what an earlier step
  stored under it, otherwise \<open>undefined\<close>; writing makes a property that is no element. The
  random numbers are given in a list, one per step.
\<close>

record 'a js_array =
  ja_items :: "'a option list"
  ja_props :: "rat \<Rightarrow> 'a option"

definition array_read :: "'a js_array \<Rightarrow> rat \<Rightarrow> 'a option" where
  "array_read a j =
     (let k = nat \<lfloor>j\<rfloor> in
      if j = of_nat k \<and> k < length (ja_items a) then ja_items a ! k else ja_props a j)"

definition array_write :: "rat \<Rightarrow> 'a option \<Rightarrow> 'a js_array \<Rightarrow> 'a js_array" where
  "array_write j v a =
     (let k = nat \<lfloor>j\<rfloor> in
      if j = of_nat k \<and> k < length (ja_items a) then a\<lparr>ja_items := (ja_items a)[k := v]\<rparr>
      else a\<lparr>ja_props := (ja_props a)(j := v)\<rparr>)"

definition frac_mod :: "rat \<Rightarrow> nat \<Rightarrow> rat" where
  "frac_mod x m = x - of_nat m * of_int \<lfloor>x / of_nat m\<rfloor>"

definition shuffle_index :: "nat \<Rightarrow> nat \<Rightarrow> rat \<Rightarrow> rat" where
  "shuffle_index n i random = frac_mod (random * of_nat n) (n - i) + of_nat i"

definition shuffle_step :: "nat \<Rightarrow> nat \<Rightarrow> rat \<Rightarrow> 'a js_array \<Rightarrow> 'a js_array" where
  "shuffle_step n i random a =
     (let j = shuffle_index n i random; e = array_read a j
      in array_write (of_nat i) e (array_write j (array_read a (of_nat i)) a))"

fun shuffle_loop :: "nat \<Rightarrow> nat \<Rightarrow> rat list \<Rightarrow> 'a js_array \<Rightarrow> 'a js_array" where
  "shuffle_loop n i [] a = a"
| "shuffle_loop n i (r # rs) a = shuffle_loop n (Suc i) rs (shuffle_step n i r a)"

definition shuffle_answers :: "rat list \<Rightarrow> 'a list \<Rightarrow> 'a option list" where
  "shuffle_answers randoms xs =
     ja_items (shuffle_loop (length xs) 0 (take (length xs) randoms)
       \<lparr>ja_items = map Some xs, ja_props = (\<lambda>_. None)\<rparr>)"

text \<open>The reply to a question, or \<open>None\<close> when it is passed on.\<close>

record dns_reply =
  dy_id :: nat
  dy_name :: string
  dy_answers :: "string option list"

definition dns_reply ::
    "rat list \<Rightarrow> string list obj \<times> (string \<times> string list) list \<Rightarrow> nat \<Rightarrow> string option \<Rightarrow> dns_reply option" where
  "dns_reply randoms tabs qid name =
     (if truthy name then
        (case find_answer tabs (the name) of
           None \<Rightarrow> None
         | Some as \<Rightarrow> Some \<lparr>dy_id = qid, dy_name = the name, dy_answers = shuffle_answers randoms as\<rparr>)
      else None)"

text \<open>The indices that the steps of a shuffle draw.\<close>

fun shuffle_indices :: "nat \<Rightarrow> nat \<Rightarrow> rat list \<Rightarrow> rat list" where
  "shuffle_indices n i [] = []"
| "shuffle_indices n i (r # rs) = shuffle_index n i r # shuffle_indices n (Suc i) rs"

lemma array_fraction:
  assumes "\<forall>m. j \<noteq> of_nat m"
  shows "array_read a j = ja_props a j" "array_write j v a = a\<lparr>ja_props := (ja_props a)(j := v)\<rparr>"
  using assms by (simp_all add: array_read_def array_write_def Let_def)

lemma array_index:
  assumes "k < length (ja_items a)"
  shows "array_read a (of_nat k) = ja_items a ! k" "array_write (of_nat k) v a = a\<lparr>ja_items := (ja_items a)[k := v]\<rparr>"
  using assms by (simp_all add: array_read_def array_write_def Let_def)

lemma shuffle_loop_loses:
  assumes "length (ja_items a) = n" "i + length rs = n"
    and "\<forall>j \<in> set (shuffle_indices n i rs). ja_props a j = None \<and> (\<forall>m. j \<noteq> of_nat m)"
    and "distinct (shuffle_indices n i rs)"
  shows "ja_items (shuffle_loop n i rs a) = take i (ja_items a) @ replicate (length rs) None"
  using assms
proof (induction rs arbitrary: i a)
  case (Cons r rs)
  let ?j = "shuffle_index n i r"
  let ?a = "a\<lparr>ja_props := (ja_props a)(?j := ja_items a ! i), ja_items := (ja_items a)[i := None]\<rparr>"
  have i: "i < n" "i < length (ja_items a)" using Cons.prems(1,2) by simp_all
  have j: "\<forall>m. ?j \<noteq> of_nat m" "ja_props a ?j = None" using Cons.prems(3) by simp_all
  have step: "shuffle_step n i r a = ?a"
  proof -
    have "array_read a ?j = None" using array_fraction(1) [OF j(1), of a] j(2) by simp
    moreover have "array_write ?j (ja_items a ! i) a = a\<lparr>ja_props := (ja_props a)(?j := ja_items a ! i)\<rparr>"
      by (rule array_fraction(2) [OF j(1)])
    moreover have "array_write (of_nat i) None (a\<lparr>ja_props := (ja_props a)(?j := ja_items a ! i)\<rparr>) = ?a"
      using array_index(2) [of i "a\<lparr>ja_props := (ja_props a)(?j := ja_items a ! i)\<rparr>" None] i by simp
    moreover have "array_read a (of_nat i) = ja_items a ! i" by (rule array_index(1) [OF i(2)])
    ultimately show ?thesis by (simp add: shuffle_step_def Let_def)
  qed
  have "ja_items (shuffle_loop n (Suc i) rs ?a) = take (Suc i) (ja_items ?a) @ replicate (length rs) None"
  proof (rule Cons.IH)
    show "\<forall>j \<in> set (shuffle_indices n (Suc i) rs). ja_props ?a j = None \<and> (\<forall>m. j \<noteq> of_nat m)"
      using Cons.prems(3,4) by auto
  qed (use Cons.prems in simp_all)
  then show ?case
    using i step by (simp add: take_Suc_conv_app_nth)
qed simp

text \<open>The DNS filter loses its answers: unless a drawn index happens to be a whole number,
  every step of the shuffle reads an element that is not there and writes \<open>undefined\<close> over
  one that is, so that the reply to a configured name has no answer left.\<close>

theorem dns_answers_lost:
  assumes "find_answer tabs name = Some as" "name \<noteq> []" "length randoms = length as"
    and "\<forall>j \<in> set (shuffle_indices (length as) 0 randoms). \<forall>m. j \<noteq> of_nat m"
    and "distinct (shuffle_indices (length as) 0 randoms)"
  shows "dns_reply randoms tabs qid (Some name) =
     Some \<lparr>dy_id = qid, dy_name = name, dy_answers = replicate (length as) None\<rparr>"
proof -
  let ?a = "\<lparr>ja_items = map Some as, ja_props = (\<lambda>_. None)\<rparr>"
  have "ja_items (shuffle_loop (length as) 0 randoms ?a) = take 0 (ja_items ?a) @ replicate (length randoms) None"
    by (rule shuffle_loop_loses) (use assms in simp_all)
  then have "shuffle_answers randoms as = replicate (length as) None"
    using assms(3) by (simp add: shuffle_answers_def)
  then show ?thesis using assms(1,2) by (simp add: dns_reply_def)
qed

lemma ex_shuffle:
  "shuffle_index (Suc (Suc 0)) 0 (1 / 4) = 1 / 2" "shuffle_index (Suc (Suc 0)) (Suc 0) (1 / 3) = 5 / 3"
  by (simp_all add: shuffle_index_def frac_mod_def floor_eq_iff)

lemma half_not_nat: "(1 / 2 :: rat) \<noteq> of_nat m" "(5 / 3 :: rat) \<noteq> of_nat m"
proof -
  show "(1 / 2 :: rat) \<noteq> of_nat m"
  proof
    assume "(1 / 2 :: rat) = of_nat m"
    then have "(of_nat 1 :: rat) = of_nat (2 * m)" by simp
    then have "1 = 2 * m" unfolding of_nat_eq_iff .
    then show False by presburger
  qed
  show "(5 / 3 :: rat) \<noteq> of_nat m"
  proof
    assume "(5 / 3 :: rat) = of_nat m"
    then have "(of_nat 5 :: rat) = of_nat (3 * m)" by simp
    then have "5 = 3 * m" unfolding of_nat_eq_iff .
    then show False by presburger
  qed
qed

lemma dns_answers_lost_witness:
  "dns_reply [1 / 4, 1 / 3] (dns_tables (Some [\<lparr>de_name = ''*.io'', de_answer = [''1.1.1.1'', ''2.2.2.2'']\<rparr>])) 9 (Some ''a.io'') =
     Some \<lparr>dy_id = 9, dy_name = ''a.io'', dy_answers = [None, None]\<rparr>"
proof -
  let ?t = "dns_tables (Some [\<lparr>de_name = ''*.io'', de_answer = [''1.1.1.1'', ''2.2.2.2'']\<rparr>])"
  have "find_answer ?t ''a.io'' = Some [''1.1.1.1'', ''2.2.2.2'']"
    by (simp add: dns_tables_def add_domain_def starts_with_def find_answer_def host_lookup_def
        postfix_find_def ends_with_def)
  moreover have "\<forall>j \<in> set (shuffle_indices (length [''1.1.1.1'', ''2.2.2.2'']) 0 [1 / 4, 1 / 3]).
      \<forall>m. j \<noteq> of_nat m"
    using half_not_nat by (simp add: ex_shuffle)
  moreover have "distinct (shuffle_indices (length [''1.1.1.1'', ''2.2.2.2'']) 0 [1 / 4, 1 / 3])"
    by (simp add: ex_shuffle)
  ultimately have "dns_reply [1 / 4, 1 / 3] ?t 9 (Some ''a.io'') =
      Some \<lparr>dy_id = 9, dy_name = ''a.io'', dy_answers = replicate (length [''1.1.1.1'', ''2.2.2.2'']) None\<rparr>"
    by (intro dns_answers_lost) simp_all
  then show ?thesis by simp
qed

end
