(* ===== verification/Json.thy ===== *)
theory Json
  imports Http
begin

text \<open>
  JSON values as \<open>JSON.decode\<close> returns them to the scripts, with the conversions that the
  scripts rely on: truthiness, member access on a value that may be missing, \<open>Object.keys\<close>,
  \<open>===\<close> and the loose comparison with a number. Numbers are exact rationals.
\<close>

datatype json = JNull | JBool bool | JNum rat | JStr string | JArr "json list" | JObj "(string \<times> json) list"

text \<open>A value that may be \<open>undefined\<close> is an option.\<close>

fun json_truthy :: "json option \<Rightarrow> bool" where
  "json_truthy None = False"
| "json_truthy (Some JNull) = False"
| "json_truthy (Some (JBool b)) = b"
| "json_truthy (Some (JNum n)) = (n \<noteq> 0)"
| "json_truthy (Some (JStr s)) = (s \<noteq> [])"
| "json_truthy (Some (JArr vs)) = True"
| "json_truthy (Some (JObj ob)) = True"

text \<open>\<open>v?.k\<close>, and \<open>v?.[i]\<close>.\<close>

fun json_get :: "json option \<Rightarrow> string \<Rightarrow> json option" where
  "json_get (Some (JObj ob)) k = map_of ob k"
| "json_get _ k = None"

fun json_at :: "json option \<Rightarrow> nat \<Rightarrow> json option" where
  "json_at (Some (JArr vs)) i = (if i < length vs then Some (vs ! i) else None)"
| "json_at _ i = None"

text \<open>\<open>Object.keys(v || {}).length\<close>\<close>

fun keys_count :: "json option \<Rightarrow> nat" where
  "keys_count (Some (JObj ob)) = length ob"
| "keys_count (Some (JArr vs)) = length vs"
| "keys_count (Some (JStr s)) = length s"
| "keys_count _ = 0"

text \<open>The number that \<open>==\<close> compares a value with a number by; \<open>None\<close> is never equal.\<close>

fun member_num :: "json \<Rightarrow> num_js" where
  "member_num JNull = Some 0"
| "member_num (JNum n) = Some n"
| "member_num (JStr s) = to_number s"
| "member_num (JArr []) = Some 0"
| "member_num (JArr [v]) = member_num v"
| "member_num _ = None"

fun loose_num :: "json option \<Rightarrow> num_js" where
  "loose_num None = None"
| "loose_num (Some JNull) = None"
| "loose_num (Some (JBool b)) = Some (if b then 1 else 0)"
| "loose_num (Some v) = member_num v"

text \<open>\<open>v > 0\<close>, where \<open>null\<close> is 0.\<close>

definition json_positive :: "json option \<Rightarrow> bool" where
  "json_positive v = num_gt (if v = Some JNull then Some 0 else loose_num v) 0"

text \<open>
  \<open>===\<close> on values of which one was decoded from another text than the other: arrays and objects
  are then never the same.
\<close>

fun same_json :: "json option \<Rightarrow> json option \<Rightarrow> bool" where
  "same_json None None = True"
| "same_json (Some JNull) (Some JNull) = True"
| "same_json (Some (JBool a)) (Some (JBool b)) = (a = b)"
| "same_json (Some (JNum a)) (Some (JNum b)) = (a = b)"
| "same_json (Some (JStr a)) (Some (JStr b)) = (a = b)"
| "same_json _ _ = False"

fun flat :: "json \<Rightarrow> bool" where
  "flat (JArr _) = False"
| "flat (JObj _) = False"
| "flat _ = True"

text \<open>\<open>Object.keys\<close> with the values, for a value that is used as a dictionary.\<close>

fun entries :: "json option \<Rightarrow> (string \<times> json) list" where
  "entries (Some (JObj ob)) = ob"
| "entries (Some (JArr vs)) = zip (map nat_str [0..<length vs]) vs"
| "entries _ = []"

lemma same_json_iff: "same_json (Some a) w \<longleftrightarrow> flat a \<and> w = Some a"
  by (cases "(Some a, w)" rule: same_json.cases) auto

end
