(* ===== verification/Iot_Gateway.thy ===== *)
theory Iot_Gateway
  imports Json Machine
begin

text \<open>
  The IoT gateway (\<open>iot-gateway/pjs/rest.js\<close> and \<open>worker.js\<close>): it takes its configuration from
  a server, reads a device, keeps every reading in a file and posts the files to the server.

  The disk is a map from paths to texts. \<open>algo.hash\<close>, \<open>JSON.decode\<close>, \<open>JSON.stringify\<close>,
  \<open>JSON.encode\<close>, the dates and the server are parameters. The process is started again after
  \<open>pipy.restart()\<close> with the files as they then are (\<open>boot\<close>).
\<close>

subsection \<open>Configuration: \<open>rest.js\<close>\<close>

type_synonym json_obj = "(string \<times> json) list"

record iot_device =
  dv_device :: "json option"
  dv_config :: "json option"
  dv_uuid :: "json option"
  dv_name :: "json option"
  dv_actived :: "json option"
  dv_drive :: "json option"
  dv_init :: "json option"
  dv_script :: "json option"
  dv_jwt :: "json option"

definition no_device :: iot_device where
  "no_device = \<lparr>dv_device = None, dv_config = None, dv_uuid = None, dv_name = None, dv_actived = None,
     dv_drive = None, dv_init = None, dv_script = None, dv_jwt = Some JNull\<rparr>"

text \<open>The variables of the script, the disk, and whether \<open>pipy.restart()\<close> was called.\<close>

record iot_proc =
  ip_init :: json_obj
  ip_workerHash :: nat
  ip_configHash :: nat
  ip_device :: iot_device
  ip_disk :: "string obj"
  ip_restart :: bool

definition compare_object :: "json_obj \<Rightarrow> json option \<Rightarrow> bool" where
  "compare_object obj1 obj2 = list_all (\<lambda>(key, v). same_json (Some v) (obj_get obj1 key)) (entries obj2)"

definition merge_object :: "json_obj \<Rightarrow> json option \<Rightarrow> json_obj" where
  "merge_object obj1 obj2 = foldl (\<lambda>ob (key, v). obj_set key v ob) obj1 (entries obj2)"

text \<open>The directory of the files, from \<open>initCfg.workDir\<close>, which has to be text.\<close>

definition work_path :: "json_obj \<Rightarrow> js_error + string" where
  "work_path init =
     (case obj_get init ''workDir'' of
        Some (JStr dir) \<Rightarrow> Inr (if ends_with ''/'' dir then dir else dir @ ''/'')
      | v \<Rightarrow> Inl TypeError)"

definition file_text :: "string obj \<Rightarrow> string \<Rightarrow> string" where
  "file_text disk path = or_else (obj_get disk path) []"

definition save_file :: "string \<Rightarrow> string \<Rightarrow> iot_proc \<Rightarrow> js_error + iot_proc" where
  "save_file name content p =
     bind_res (work_path (ip_init p)) (\<lambda>path. Inr (p\<lparr>ip_disk := obj_set (path @ name) content (ip_disk p)\<rparr>))"

text \<open>The attributes of the device in the answer of the server.\<close>

definition first_data :: "json \<Rightarrow> json option" where
  "first_data cfg = json_at (json_get (Some cfg) ''data'') 0"

definition read_device :: "json \<Rightarrow> iot_device \<Rightarrow> iot_device" where
  "read_device cfg d =
     (let attrs = json_get (first_data cfg) ''attributes''; drive = json_get (json_get attrs ''drive'') ''data'' in
      d\<lparr>dv_device := json_get (first_data cfg) ''id'', dv_config := json_get attrs ''config'',
        dv_uuid := json_get attrs ''uuid'', dv_name := json_get attrs ''name'', dv_actived := json_get attrs ''actived'',
        dv_drive := json_get drive ''id'', dv_init := json_get (json_get attrs ''config'') ''init'',
        dv_script := json_get (json_get drive ''attributes'') ''script''\<rparr>)"

text \<open>A new script for the worker, where it is text that is not empty, and new settings.\<close>

definition update_script :: "(string \<Rightarrow> nat) \<Rightarrow> iot_proc \<Rightarrow> js_error + iot_proc" where
  "update_script hash p =
     (case dv_script (ip_device p) of
        Some (JStr script) \<Rightarrow>
          if script \<noteq> [] \<and> hash script \<noteq> ip_workerHash p then
            bind_res (save_file ''worker.js'' script
                (p\<lparr>ip_device := (ip_device p)\<lparr>dv_actived := Some (JBool False)\<rparr>\<rparr>))
              (\<lambda>p1. Inr (p1\<lparr>ip_restart := True\<rparr>))
          else Inr p
      | v \<Rightarrow> Inr p)"

definition update_init :: "(json \<Rightarrow> string) \<Rightarrow> iot_proc \<Rightarrow> js_error + iot_proc" where
  "update_init stringify p =
     (if compare_object (ip_init p) (dv_init (ip_device p)) then Inr p
      else (let init = merge_object (ip_init p) (dv_init (ip_device p)) in
        bind_res (save_file ''init.json'' (stringify (JObj init))
            (p\<lparr>ip_init := init, ip_device := (ip_device p)\<lparr>dv_actived := Some (JBool False)\<rparr>\<rparr>))
          (\<lambda>p1. Inr (p1\<lparr>ip_restart := True\<rparr>))))"

definition update_saved :: "(string \<Rightarrow> nat) \<Rightarrow> (json \<Rightarrow> string) \<Rightarrow> json \<Rightarrow> iot_proc \<Rightarrow> js_error + iot_proc" where
  "update_saved hash stringify cfg p =
     (if hash (stringify cfg) \<noteq> ip_configHash p then
        bind_res (save_file ''config.json'' (stringify cfg) p)
          (\<lambda>p1. Inr (p1\<lparr>ip_configHash := hash (stringify cfg)\<rparr>))
      else Inr p)"

definition update_config :: "(string \<Rightarrow> nat) \<Rightarrow> (json \<Rightarrow> string) \<Rightarrow> json \<Rightarrow> iot_proc \<Rightarrow> js_error + iot_proc" where
  "update_config hash stringify cfg p =
     bind_res (update_script hash (p\<lparr>ip_device := read_device cfg (ip_device p)\<rparr>)) (\<lambda>p1.
     bind_res (update_init stringify p1) (update_saved hash stringify cfg))"

text \<open>The start: \<open>base\<close> is the directory of the scripts, from which \<open>pipy.load\<close> reads.\<close>

definition boot ::
    "(string \<Rightarrow> nat) \<Rightarrow> (json \<Rightarrow> string) \<Rightarrow> (string \<Rightarrow> json option) \<Rightarrow> string \<Rightarrow> string obj \<Rightarrow> js_error + iot_proc" where
  "boot hash stringify decode base disk =
     (let init = entries (decode (file_text disk (base @ ''init.json''))) in
      bind_res (work_path init) (\<lambda>path.
        let config = decode (or_default (obj_get disk (path @ ''config.json'')) ''{}'');
            p = \<lparr>ip_init = init, ip_workerHash = hash (file_text disk (path @ ''worker.js'')),
              ip_configHash = hash (file_text disk (path @ ''config.json'')),
              ip_device = no_device, ip_disk = disk, ip_restart = False\<rparr>
        in if json_positive (json_get (Option.bind config first_data) ''id'')
           then update_config hash stringify (the config) p else Inr p))"

text \<open>What a configuration asks for.\<close>

definition init_of :: "json \<Rightarrow> json option" where
  "init_of cfg = dv_init (read_device cfg no_device)"

definition script_of :: "json \<Rightarrow> json option" where
  "script_of cfg = dv_script (read_device cfg no_device)"

lemma read_device_simps [simp]:
  "dv_init (read_device cfg d) = init_of cfg" "dv_script (read_device cfg d) = script_of cfg"
  "read_device cfg (read_device cfg d) = read_device cfg d"
  "dv_actived (read_device cfg d) = json_get (json_get (first_data cfg) ''attributes'') ''actived''"
  by (simp_all add: read_device_def init_of_def script_of_def Let_def)

text \<open>The variables agree with the files; the files agree with a configuration.\<close>

definition in_step :: "(string \<Rightarrow> nat) \<Rightarrow> (string \<Rightarrow> json option) \<Rightarrow> string \<Rightarrow> iot_proc \<Rightarrow> bool" where
  "in_step hash decode base p \<longleftrightarrow> work_path (ip_init p) = Inr base \<and>
     ip_workerHash p = hash (file_text (ip_disk p) (base @ ''worker.js'')) \<and>
     ip_configHash p = hash (file_text (ip_disk p) (base @ ''config.json'')) \<and>
     decode (file_text (ip_disk p) (base @ ''init.json'')) = Some (JObj (ip_init p))"

definition wanted_script :: "(string \<Rightarrow> nat) \<Rightarrow> json \<Rightarrow> nat \<Rightarrow> bool" where
  "wanted_script hash cfg worker \<longleftrightarrow> (\<forall>s. script_of cfg = Some (JStr s) \<longrightarrow> s \<noteq> [] \<longrightarrow> hash s = worker)"

lemma update_same: "obj_get ob k = Some v \<Longrightarrow> obj_set k v ob = ob"
  by (induction ob) auto

lemma merge_same: "compare_object ob upd \<Longrightarrow> merge_object ob upd = ob"
proof -
  have "list_all (\<lambda>(key, v). same_json (Some v) (obj_get ob key)) es \<Longrightarrow> foldl (\<lambda>ob (key, v). obj_set key v ob) ob es = ob" for es
    by (induction es) (auto simp: same_json_iff update_same)
  then show "compare_object ob upd \<Longrightarrow> merge_object ob upd = ob" by (simp add: compare_object_def merge_object_def)
qed

lemma merged_get:
  "distinct (map fst es) \<Longrightarrow> obj_get (foldl (\<lambda>ob (key, v). obj_set key v ob) ob es) k =
     (case map_of es k of Some v \<Rightarrow> Some v | None \<Rightarrow> obj_get ob k)"
proof (induction es arbitrary: ob)
  case (Cons e es)
  have "fst e = k \<Longrightarrow> map_of es k = None" using Cons.prems by (auto simp: map_of_eq_None_iff)
  then show ?case using Cons.IH Cons.prems by (cases e; cases "map_of es k") auto
qed simp

lemma compare_merged:
  assumes "distinct (map fst (entries upd))" "list_all (\<lambda>(k, v). flat v) (entries upd)"
  shows "compare_object (merge_object ob upd) upd"
proof -
  have "same_json (Some v) (obj_get (merge_object ob upd) k)" if "(k, v) \<in> set (entries upd)" for k v
  proof -
    have "map_of (entries upd) k = Some v" using that assms(1) by simp
    then show ?thesis using assms that by (auto simp: merge_object_def merged_get same_json_iff list_all_iff)
  qed
  then show ?thesis by (auto simp: compare_object_def list_all_iff)
qed

text \<open>A configuration that is in force changes nothing.\<close>

lemma update_config_in_force:
  assumes "wanted_script hash cfg (ip_workerHash p)" "compare_object (ip_init p) (init_of cfg)"
    and "ip_configHash p = hash (stringify cfg)"
  shows "update_config hash stringify cfg p = Inr (p\<lparr>ip_device := read_device cfg (ip_device p)\<rparr>)"
proof -
  have "update_script hash (p\<lparr>ip_device := read_device cfg (ip_device p)\<rparr>) = Inr (p\<lparr>ip_device := read_device cfg (ip_device p)\<rparr>)"
    using assms(1) by (auto simp: update_script_def wanted_script_def split: option.split json.split)
  then show ?thesis using assms(2,3) by (simp add: update_config_def update_init_def update_saved_def)
qed

lemma file_text_set [simp]:
  "file_text (obj_set path t disk) path' = (if path' = path then t else file_text disk path')"
  by (simp add: file_text_def)

lemma save_file_ok:
  "work_path (ip_init p) = Inr base \<Longrightarrow> save_file name t p = Inr (p\<lparr>ip_disk := obj_set (base @ name) t (ip_disk p)\<rparr>)"
  by (simp add: save_file_def)

lemma update_script_effect:
  assumes "work_path (ip_init p) = Inr base" "ip_workerHash p = hash (file_text (ip_disk p) (base @ ''worker.js''))"
  obtains p1 where "update_script hash p = Inr p1" "ip_init p1 = ip_init p" "ip_configHash p1 = ip_configHash p"
    "dv_init (ip_device p1) = dv_init (ip_device p)" "ip_restart p \<longrightarrow> ip_restart p1"
    "\<forall>name. name \<noteq> ''worker.js'' \<longrightarrow> file_text (ip_disk p1) (base @ name) = file_text (ip_disk p) (base @ name)"
    "\<forall>s. dv_script (ip_device p) = Some (JStr s) \<longrightarrow> s \<noteq> [] \<longrightarrow> hash s = hash (file_text (ip_disk p1) (base @ ''worker.js''))"
    "\<not> ip_restart p1 \<longrightarrow> p1 = p"
proof (cases "\<exists>s. dv_script (ip_device p) = Some (JStr s) \<and> s \<noteq> [] \<and> hash s \<noteq> ip_workerHash p")
  case True
  then obtain s where s: "dv_script (ip_device p) = Some (JStr s)" "s \<noteq> []" "hash s \<noteq> ip_workerHash p"
    by (elim exE conjE)
  let ?p1 = "p\<lparr>ip_device := (ip_device p)\<lparr>dv_actived := Some (JBool False)\<rparr>,
    ip_disk := obj_set (base @ ''worker.js'') s (ip_disk p), ip_restart := True\<rparr>"
  have "update_script hash p = Inr ?p1" using s assms(1) by (simp add: update_script_def save_file_def)
  then show ?thesis by (rule that) (use s in simp_all)
next
  case False
  have "update_script hash p = Inr p"
    using False by (auto simp: update_script_def split: option.split json.split)
  then show ?thesis by (rule that) (use False assms(2) in auto)
qed

lemma update_init_effect:
  assumes "work_path (merge_object (ip_init p) (dv_init (ip_device p))) = Inr base"
    and "decode (stringify (JObj (merge_object (ip_init p) (dv_init (ip_device p))))) =
      Some (JObj (merge_object (ip_init p) (dv_init (ip_device p))))"
    and "decode (file_text (ip_disk p) (base @ ''init.json'')) = Some (JObj (ip_init p))"
  obtains p1 where "update_init stringify p = Inr p1" "ip_init p1 = merge_object (ip_init p) (dv_init (ip_device p))"
    "ip_configHash p1 = ip_configHash p" "ip_restart p \<longrightarrow> ip_restart p1"
    "decode (file_text (ip_disk p1) (base @ ''init.json'')) = Some (JObj (ip_init p1))"
    "\<forall>name. name \<noteq> ''init.json'' \<longrightarrow> file_text (ip_disk p1) (base @ name) = file_text (ip_disk p) (base @ name)"
    "\<not> ip_restart p1 \<longrightarrow> p1 = p"
proof (cases "compare_object (ip_init p) (dv_init (ip_device p))")
  case True
  then have "update_init stringify p = Inr p" by (simp add: update_init_def)
  then show ?thesis by (rule that) (use True assms(3) in \<open>simp_all add: merge_same\<close>)
next
  case False
  let ?init = "merge_object (ip_init p) (dv_init (ip_device p))"
  let ?p1 = "p\<lparr>ip_init := ?init, ip_device := (ip_device p)\<lparr>dv_actived := Some (JBool False)\<rparr>,
    ip_disk := obj_set (base @ ''init.json'') (stringify (JObj ?init)) (ip_disk p), ip_restart := True\<rparr>"
  have "update_init stringify p = Inr ?p1"
    using False assms(1) by (simp add: update_init_def save_file_def Let_def)
  then show ?thesis by (rule that) (use assms(2) in simp_all)
qed

lemma update_saved_effect:
  assumes "work_path (ip_init p) = Inr base" "ip_configHash p = hash (file_text (ip_disk p) (base @ ''config.json''))"
  obtains p1 where "update_saved hash stringify cfg p = Inr p1" "ip_init p1 = ip_init p" "ip_restart p1 = ip_restart p"
    "ip_device p1 = ip_device p" "ip_workerHash p1 = ip_workerHash p"
    "ip_configHash p1 = hash (stringify cfg)" "hash (file_text (ip_disk p1) (base @ ''config.json'')) = hash (stringify cfg)"
    "\<forall>name. name \<noteq> ''config.json'' \<longrightarrow> file_text (ip_disk p1) (base @ name) = file_text (ip_disk p) (base @ name)"
proof (cases "hash (stringify cfg) = ip_configHash p")
  case True
  then have "update_saved hash stringify cfg p = Inr p" by (simp add: update_saved_def)
  then show ?thesis by (rule that) (use True assms(2) in simp_all)
next
  case False
  let ?p1 = "p\<lparr>ip_disk := obj_set (base @ ''config.json'') (stringify cfg) (ip_disk p), ip_configHash := hash (stringify cfg)\<rparr>"
  have "update_saved hash stringify cfg p = Inr ?p1" using False assms(1) by (simp add: update_saved_def save_file_def)
  then show ?thesis by (rule that) simp_all
qed

text \<open>Settings that the gateway can compare: no value is an array or an object, and the working
  directory stays.\<close>

definition plain_init :: "string \<Rightarrow> json_obj \<Rightarrow> json \<Rightarrow> bool" where
  "plain_init base init cfg \<longleftrightarrow>
     distinct (map fst (entries (init_of cfg))) \<and> list_all (\<lambda>(k, v). flat v) (entries (init_of cfg)) \<and>
     work_path (merge_object init (init_of cfg)) = Inr base"

definition files_match :: "(string \<Rightarrow> nat) \<Rightarrow> (json \<Rightarrow> string) \<Rightarrow> (string \<Rightarrow> json option) \<Rightarrow> string \<Rightarrow> json \<Rightarrow> iot_proc \<Rightarrow> bool" where
  "files_match hash stringify decode base cfg p \<longleftrightarrow>
     work_path (ip_init p) = Inr base \<and> decode (file_text (ip_disk p) (base @ ''init.json'')) = Some (JObj (ip_init p)) \<and>
     compare_object (ip_init p) (init_of cfg) \<and> ip_configHash p = hash (stringify cfg) \<and>
     hash (file_text (ip_disk p) (base @ ''config.json'')) = hash (stringify cfg) \<and>
     wanted_script hash cfg (hash (file_text (ip_disk p) (base @ ''worker.js'')))"

lemma update_config_effect:
  assumes "in_step hash decode base p" "plain_init base (ip_init p) cfg"
    and "decode (stringify (JObj (merge_object (ip_init p) (init_of cfg)))) = Some (JObj (merge_object (ip_init p) (init_of cfg)))"
  obtains p1 where "update_config hash stringify cfg p = Inr p1" "files_match hash stringify decode base cfg p1"
    "\<not> ip_restart p1 \<longrightarrow> in_step hash decode base p1 \<and> ip_device p1 = read_device cfg (ip_device p)"
proof -
  let ?p0 = "p\<lparr>ip_device := read_device cfg (ip_device p)\<rparr>"
  have p: "work_path (ip_init ?p0) = Inr base" "ip_workerHash ?p0 = hash (file_text (ip_disk ?p0) (base @ ''worker.js''))"
    "ip_configHash p = hash (file_text (ip_disk p) (base @ ''config.json''))"
    "decode (file_text (ip_disk p) (base @ ''init.json'')) = Some (JObj (ip_init p))"
    using assms(1) by (simp_all add: in_step_def)
  obtain p1 where p1: "update_script hash ?p0 = Inr p1" "ip_init p1 = ip_init p" "ip_configHash p1 = ip_configHash p"
    "dv_init (ip_device p1) = init_of cfg"
    "\<forall>name. name \<noteq> ''worker.js'' \<longrightarrow> file_text (ip_disk p1) (base @ name) = file_text (ip_disk p) (base @ name)"
    "\<forall>s. script_of cfg = Some (JStr s) \<longrightarrow> s \<noteq> [] \<longrightarrow> hash s = hash (file_text (ip_disk p1) (base @ ''worker.js''))"
    "\<not> ip_restart p1 \<longrightarrow> p1 = ?p0"
    by (rule update_script_effect [where hash = hash and p = ?p0 and base = base, OF p(1,2)]) simp
  have m: "work_path (merge_object (ip_init p1) (dv_init (ip_device p1))) = Inr base"
    "decode (stringify (JObj (merge_object (ip_init p1) (dv_init (ip_device p1))))) =
      Some (JObj (merge_object (ip_init p1) (dv_init (ip_device p1))))"
    "decode (file_text (ip_disk p1) (base @ ''init.json'')) = Some (JObj (ip_init p1))"
    using assms(2,3) p(4) p1(5) [rule_format, of "''init.json''"] by (simp_all add: plain_init_def p1(2,4))
  obtain p2 where p2': "update_init stringify p1 = Inr p2" "ip_init p2 = merge_object (ip_init p1) (dv_init (ip_device p1))"
    "ip_configHash p2 = ip_configHash p1" "ip_restart p1 \<longrightarrow> ip_restart p2"
    "decode (file_text (ip_disk p2) (base @ ''init.json'')) = Some (JObj (ip_init p2))"
    "\<forall>name. name \<noteq> ''init.json'' \<longrightarrow> file_text (ip_disk p2) (base @ name) = file_text (ip_disk p1) (base @ name)"
    "\<not> ip_restart p2 \<longrightarrow> p2 = p1"
    by (rule update_init_effect [where p = p1 and base = base and decode = decode and stringify = stringify, OF m])
  note p2 = p2' [unfolded p1(2-4)]
  have c: "work_path (ip_init p2) = Inr base" "ip_configHash p2 = hash (file_text (ip_disk p2) (base @ ''config.json''))"
    using assms(2) p(3) p1(5) [rule_format, of "''config.json''"] p2(6) [rule_format, of "''config.json''"]
    by (simp_all add: plain_init_def p2(2,3))
  obtain p3 where p3: "update_saved hash stringify cfg p2 = Inr p3" "ip_init p3 = ip_init p2" "ip_restart p3 = ip_restart p2"
    "ip_device p3 = ip_device p2" "ip_workerHash p3 = ip_workerHash p2"
    "ip_configHash p3 = hash (stringify cfg)" "hash (file_text (ip_disk p3) (base @ ''config.json'')) = hash (stringify cfg)"
    "\<forall>name. name \<noteq> ''config.json'' \<longrightarrow> file_text (ip_disk p3) (base @ name) = file_text (ip_disk p2) (base @ name)"
    by (rule update_saved_effect [where p = p2 and base = base and hash = hash and stringify = stringify and cfg = cfg, OF c])
  have "update_config hash stringify cfg p = Inr p3" by (simp add: update_config_def p1(1) p2(1) p3(1))
  moreover have fm: "files_match hash stringify decode base cfg p3"
    using assms(2) c(1) compare_merged [of "init_of cfg" "ip_init p"] p1(6) p2(5) p3(7)
      p2(6) [rule_format, of "''worker.js''"] p3(8) [rule_format, of "''worker.js''"] p3(8) [rule_format, of "''init.json''"]
    by (simp add: files_match_def plain_init_def wanted_script_def p2(2) p3(2,6))
  moreover have "\<not> ip_restart p3 \<longrightarrow> in_step hash decode base p3 \<and> ip_device p3 = read_device cfg (ip_device p)"
  proof
    assume "\<not> ip_restart p3"
    then have same: "p2 = p1" "p1 = ?p0" using p1(7) p2(4,7) p3(3) by auto
    have "ip_workerHash p3 = hash (file_text (ip_disk p3) (base @ ''worker.js''))"
      using p(2) p3(5) p3(8) [rule_format, of "''worker.js''"] same by simp
    then show "in_step hash decode base p3 \<and> ip_device p3 = read_device cfg (ip_device p)"
      using fm p3(4) same by (simp add: in_step_def files_match_def)
  qed
  ultimately show ?thesis by (rule that)
qed


definition ex_cfg :: json where
  "ex_cfg = JObj [(''data'', JArr [JObj [(''id'', JNum 1), (''attributes'', JObj [(''actived'', JBool True),
     (''config'', JObj [(''init'', JObj [(''postInterval'', JStr ''1s'')])]),
     (''drive'', JObj [(''data'', JObj [(''attributes'', JObj [(''script'', JStr ''w'')])])])])]])]"

definition ex_init :: "string \<Rightarrow> json_obj" where
  "ex_init s = [(''workDir'', JStr ''/w''), (''postInterval'', JStr s)]"

definition ex_stringify :: "json \<Rightarrow> string" where
  "ex_stringify v = (if v = ex_cfg then ''c'' else if v = JObj (ex_init ''1s'') then ''i'' else ''j'')"

definition ex_decode :: "string \<Rightarrow> json option" where
  "ex_decode t = (if t = ''c'' then Some ex_cfg else if t = ''i'' then Some (JObj (ex_init ''1s''))
     else if t = ''j'' then Some (JObj (ex_init ''5s'')) else None)"

definition ex_hash :: "string \<Rightarrow> nat" where
  "ex_hash t = (if t = ''c'' then 1 else if t = ''w'' then 2 else 0)"

definition ex_proc :: iot_proc where
  "ex_proc = \<lparr>ip_init = ex_init ''5s'', ip_workerHash = 0, ip_configHash = 0, ip_device = no_device,
     ip_disk = [(''/w/init.json'', ''j'')], ip_restart = False\<rparr>"


text \<open>The first run of it does restart.\<close>

lemma example_restarts:
  "(case update_config ex_hash ex_stringify ex_cfg ex_proc of Inl e \<Rightarrow> False | Inr p1 \<Rightarrow> ip_restart p1)"
  by code_simp

text \<open>Settings with an array or an object are never equal to the file's: every answer of the
  server restarts the gateway, which never becomes active.\<close>

lemma update_saved_keeps:
  "update_saved hash stringify cfg p = Inr p1 \<Longrightarrow> ip_restart p1 = ip_restart p \<and> ip_device p1 = ip_device p"
  by (auto simp: update_saved_def save_file_def bind_res_Inr_iff split: if_splits)

lemma nested_init_restarts:
  assumes "(k, v) \<in> set (entries (init_of cfg))" "\<not> flat v" "update_config hash stringify cfg p = Inr p1"
  shows "ip_restart p1 \<and> dv_actived (ip_device p1) = Some (JBool False)"
proof -
  obtain p2 p3 where p23: "update_script hash (p\<lparr>ip_device := read_device cfg (ip_device p)\<rparr>) = Inr p2"
    "update_init stringify p2 = Inr p3" "update_saved hash stringify cfg p3 = Inr p1"
    using assms(3) by (auto simp: update_config_def bind_res_Inr_iff)
  have "dv_init (ip_device p2) = init_of cfg"
    using p23(1) by (auto simp: update_script_def save_file_def bind_res_Inr_iff split: option.splits json.splits if_splits)
  then have "\<not> compare_object (ip_init p2) (dv_init (ip_device p2))"
    using assms(1,2) by (auto simp: compare_object_def list_all_iff same_json_iff)
  then have "ip_restart p3 \<and> dv_actived (ip_device p3) = Some (JBool False)"
    using p23(2) by (auto simp: update_init_def save_file_def bind_res_Inr_iff Let_def)
  then show ?thesis using update_saved_keeps [OF p23(3)] by simp
qed

subsection \<open>The answers of the server: \<open>rest.js\<close>\<close>

text \<open>A body is decoded when it begins as an object does.\<close>

definition decode_body :: "(string \<Rightarrow> json option) \<Rightarrow> string option \<Rightarrow> json option" where
  "decode_body decode body =
     (case body of None \<Rightarrow> None | Some t \<Rightarrow> if starts_with ''{'' t then decode t else None)"

text \<open>Whether the request is replayed, and the device afterwards.\<close>

definition login_answer :: "(string \<Rightarrow> json option) \<Rightarrow> string option \<Rightarrow> iot_device \<Rightarrow> bool \<times> iot_device" where
  "login_answer decode body d =
     (let jwt = json_get (decode_body decode body) ''jwt'' in (\<not> json_truthy jwt, d\<lparr>dv_jwt := jwt\<rparr>))"

definition query_answer ::
    "(string \<Rightarrow> nat) \<Rightarrow> (json \<Rightarrow> string) \<Rightarrow> (string \<Rightarrow> json option) \<Rightarrow> nat \<Rightarrow> string option \<Rightarrow> iot_proc \<Rightarrow>
     js_error + bool \<times> iot_proc" where
  "query_answer hash stringify decode status body p =
     (let resp = decode_body decode body in
      if status = 401 then Inr (True, p\<lparr>ip_device := (ip_device p)\<lparr>dv_jwt := Some JNull\<rparr>\<rparr>)
      else if json_positive (json_get (Option.bind resp first_data) ''id'')
      then bind_res (update_config hash stringify (the resp) p) (\<lambda>p1. Inr (False, p1))
      else Inr (False, p))"

text \<open>The requests. \<open>str\<close> is the text of a value in a template.\<close>

definition login_request :: "(json option \<Rightarrow> string) \<Rightarrow> json_obj \<Rightarrow> message" where
  "login_request str init =
     \<lparr>ms_head = \<lparr>hd_method = ''POST'', hd_path = str (obj_get init ''loginUri''),
        hd_headers = [(''Content-Type'', One ''application/json'')], hd_status = 0\<rparr>,
      ms_body = ''{\"identifier\": \"'' @ str (obj_get init ''loginUser'') @ ''\",\"password\":\"'' @
        str (obj_get init ''loginPassword'') @ ''\"}''\<rparr>"

definition query_request :: "(json option \<Rightarrow> string) \<Rightarrow> json_obj \<Rightarrow> json option \<Rightarrow> message" where
  "query_request str init jwt =
     \<lparr>ms_head = \<lparr>hd_method = ''GET'', hd_path = str (obj_get init ''queryUri'') @ str (obj_get init ''uuid''),
        hd_headers = [(''Authorization'', One (''Bearer '' @ str jwt))], hd_status = 0\<rparr>, ms_body = []\<rparr>"

text \<open>One attempt at a query: without a token a login comes first, which is tried again on its own
  until it gives one. The answers are the server's.\<close>

definition query_attempt ::
    "(string \<Rightarrow> nat) \<Rightarrow> (json \<Rightarrow> string) \<Rightarrow> (string \<Rightarrow> json option) \<Rightarrow> (json option \<Rightarrow> string) \<Rightarrow>
     (message \<Rightarrow> nat \<times> string option) \<Rightarrow> iot_proc \<Rightarrow> js_error + bool \<times> iot_proc" where
  "query_attempt hash stringify decode str server p =
     (let (again, d) = (if json_truthy (dv_jwt (ip_device p)) then (False, ip_device p)
            else login_answer decode (snd (server (login_request str (ip_init p)))) (ip_device p));
          p1 = p\<lparr>ip_device := d\<rparr>
      in if again then Inr (True, p1)
         else (let (status, body) = server (query_request str (ip_init p1) (dv_jwt d))
           in query_answer hash stringify decode status body p1))"

text \<open>No configuration is taken without a token: an attempt that ends has one.\<close>

lemma save_file_jwt: "save_file name t p = Inr p1 \<Longrightarrow> ip_device p1 = ip_device p"
  by (auto simp: save_file_def bind_res_Inr_iff)

lemma update_script_jwt: "update_script hash p = Inr p1 \<Longrightarrow> dv_jwt (ip_device p1) = dv_jwt (ip_device p)"
  by (auto simp: update_script_def bind_res_Inr_iff dest!: save_file_jwt split: option.splits json.splits if_splits)

lemma update_init_jwt: "update_init stringify p = Inr p1 \<Longrightarrow> dv_jwt (ip_device p1) = dv_jwt (ip_device p)"
  by (auto simp: update_init_def Let_def bind_res_Inr_iff dest!: save_file_jwt split: if_splits)

lemma update_keeps_jwt:
  assumes "update_config hash stringify cfg p = Inr p1"
  shows "dv_jwt (ip_device p1) = dv_jwt (ip_device p)"
proof -
  obtain p2 p3 where p23: "update_script hash (p\<lparr>ip_device := read_device cfg (ip_device p)\<rparr>) = Inr p2"
    "update_init stringify p2 = Inr p3" "update_saved hash stringify cfg p3 = Inr p1"
    using assms by (auto simp: update_config_def bind_res_Inr_iff)
  have "dv_jwt (ip_device p1) = dv_jwt (read_device cfg (ip_device p))"
    using update_script_jwt [OF p23(1)] update_init_jwt [OF p23(2)] update_saved_keeps [OF p23(3)] by simp
  then show ?thesis by (simp add: read_device_def Let_def)
qed

lemma query_answer_jwt:
  assumes "query_answer hash stringify decode status body p = Inr (False, p1)"
  shows "dv_jwt (ip_device p1) = dv_jwt (ip_device p)"
proof -
  consider "p1 = p" | cfg where "update_config hash stringify cfg p = Inr p1"
    using assms by (auto simp: query_answer_def Let_def bind_res_Inr_iff split: if_splits)
  then show ?thesis by cases (simp, rule update_keeps_jwt)
qed

lemma query_done_has_token:
  assumes "query_attempt hash stringify decode str server p = Inr (False, p1)"
  shows "json_truthy (dv_jwt (ip_device p1))"
proof -
  obtain again d where l: "(if json_truthy (dv_jwt (ip_device p)) then (False, ip_device p)
      else login_answer decode (snd (server (login_request str (ip_init p)))) (ip_device p)) = (again, d)"
    by (cases "if json_truthy (dv_jwt (ip_device p)) then (False, ip_device p)
      else login_answer decode (snd (server (login_request str (ip_init p)))) (ip_device p)")
  obtain status body where s: "server (query_request str (ip_init p) (dv_jwt d)) = (status, body)"
    by (cases "server (query_request str (ip_init p) (dv_jwt d))")
  have q: "\<not> again" "query_answer hash stringify decode status body (p\<lparr>ip_device := d\<rparr>) = Inr (False, p1)"
    using assms s unfolding query_attempt_def l by (simp_all add: Let_def split: if_splits)
  have "json_truthy (dv_jwt d)"
    using l q(1) by (auto simp: login_answer_def Let_def split: if_splits)
  then show ?thesis using query_answer_jwt [OF q(2)] by simp
qed

definition post_request :: "(json option \<Rightarrow> string) \<Rightarrow> json_obj \<Rightarrow> json option \<Rightarrow> string \<Rightarrow> message" where
  "post_request str init jwt content =
     \<lparr>ms_head = \<lparr>hd_method = ''POST'', hd_path = str (obj_get init ''postUri''),
        hd_headers = [(''Content-Type'', One ''application/json''), (''Authorization'', One (''Bearer '' @ str jwt))],
        hd_status = 0\<rparr>, ms_body = content\<rparr>"

definition post_answer ::
    "(string \<Rightarrow> json option) \<Rightarrow> (json option \<Rightarrow> string) \<Rightarrow> (message \<Rightarrow> nat \<times> string option) \<Rightarrow> json_obj \<Rightarrow>
     json option \<Rightarrow> string \<Rightarrow> string" where
  "post_answer decode str server init jwt content =
     (if json_truthy jwt then
        (let (status, body) = server (post_request str init jwt content);
             resp = decode_body decode body
         in if status = 200 \<and> json_positive (json_get (json_get resp ''data'') ''id'') then ''OK''
            else if status = 401 then ''FAIL/401'' else ''FAIL'')
      else ''FAIL/jwt'')"

subsection \<open>Collecting and posting: \<open>worker.js\<close>\<close>

text \<open>What the driver of the device is told.\<close>

definition modbus_records :: "(json option \<Rightarrow> string) \<Rightarrow> json option \<Rightarrow> js_error + string" where
  "modbus_records str recs =
     (if \<not> json_truthy recs then Inr []
      else (case recs of
          Some (JArr es) \<Rightarrow> Inr (concat (map (\<lambda>e. str (json_get (Some e) ''fc'') @ '' '' @ str (json_get (Some e) ''addr'') @
            '' '' @ str (json_get (Some e) ''type'') @ [CHR 0x0A]) es))
        | v \<Rightarrow> Inl TypeError))"

definition json_or :: "json option \<Rightarrow> json \<Rightarrow> json" where
  "json_or v d = (if json_truthy v then the v else d)"

definition collect_settings :: "(json option \<Rightarrow> string) \<Rightarrow> iot_device \<Rightarrow> js_error + json \<times> json \<times> json \<times> string" where
  "collect_settings str d =
     bind_res (modbus_records str (json_get (dv_config d) ''records'')) (\<lambda>recs. Inr
       (json_or (json_get (dv_config d) ''deviceName'') (JStr ''/dev/ttyUSB0''),
        json_or (json_get (dv_config d) ''slaveID'') (JNum 1), json_or (json_get (dv_config d) ''baud'') (JNum 9600), recs))"

text \<open>A field that is assigned \<open>undefined\<close> is left out of the text.\<close>

definition put_field :: "string \<Rightarrow> json option \<Rightarrow> json_obj \<Rightarrow> json_obj" where
  "put_field k v ob = (case v of None \<Rightarrow> obj_del k ob | Some w \<Rightarrow> obj_set k w ob)"

definition reading_text ::
    "(string \<Rightarrow> json option) \<Rightarrow> (rat \<Rightarrow> string) \<Rightarrow> (json \<Rightarrow> string) \<Rightarrow> iot_device \<Rightarrow> string option \<Rightarrow> string option" where
  "reading_text decode date encode d body =
     (let reading = decode_body decode body; ts = json_get reading ''ts'' in
      if json_positive ts then
        Some (encode (JObj [(''data'', JObj
          (put_field ''drive'' (dv_drive d) (put_field ''device'' (dv_device d)
            (put_field ''name'' (dv_name d) (put_field ''uuid'' (dv_uuid d)
              (obj_del ''ts'' (obj_set ''created_at'' (JStr (date (the (loose_num ts) * 1000)))
                (obj_del ''id'' (entries reading)))))))))]))
      else None)"

text \<open>The data directory: names to contents. A name is the time of the reading.\<close>

definition collect :: "string \<Rightarrow> string option \<Rightarrow> string obj \<Rightarrow> string obj" where
  "collect now t store = (case t of None \<Rightarrow> store | Some t \<Rightarrow> obj_set now t store)"

definition text_cmp :: "string \<Rightarrow> string \<Rightarrow> int" where
  "text_cmp a b = (if str_less a b then -1 else if str_less b a then 1 else 0)"

definition pending :: "string obj \<Rightarrow> string list" where
  "pending store = filter (\<lambda>s. \<not> ends_with ''/'' s) (js_sort text_cmp (map fst store))"

text \<open>The newest ten.\<close>

definition batch :: "string obj \<Rightarrow> string list" where
  "batch store = (let files = pending store in drop (if 10 < length files then length files - 10 else 0) files)"

text \<open>One file: removed when the answer is \<open>OK\<close>. The second component keeps what was acknowledged.\<close>

definition send_file :: "(string \<Rightarrow> string) \<Rightarrow> string \<Rightarrow> string obj \<times> string list \<Rightarrow> string obj \<times> string list" where
  "send_file answer name st =
     (case obj_get (fst st) name of
        None \<Rightarrow> st
      | Some t \<Rightarrow> if answer t = ''OK'' then (obj_del name (fst st), snd st @ [t]) else st)"

definition post_batch :: "(string \<Rightarrow> string) \<Rightarrow> string obj \<times> string list \<Rightarrow> string obj \<times> string list" where
  "post_batch answer st = foldl (\<lambda>st name. send_file answer name st) st (batch (fst st))"

text \<open>The tasks of \<open>main.js\<close>: nothing is collected or posted until the device is active.\<close>

datatype iot_event = Collect iot_device string "string option" | Post iot_device "message \<Rightarrow> nat \<times> string option"

definition iot_step ::
    "(string \<Rightarrow> json option) \<Rightarrow> (json option \<Rightarrow> string) \<Rightarrow> (rat \<Rightarrow> string) \<Rightarrow> (json \<Rightarrow> string) \<Rightarrow> json_obj \<Rightarrow>
     iot_event \<Rightarrow> string obj \<times> string list \<Rightarrow> string obj \<times> string list" where
  "iot_step decode str date encode init ev st =
     (case ev of
        Collect d now body \<Rightarrow>
          if json_truthy (dv_actived d) then (collect now (reading_text decode date encode d body) (fst st), snd st)
          else st
      | Post d server \<Rightarrow>
          if json_truthy (dv_actived d) then post_batch (post_answer decode str server init (dv_jwt d)) st
          else st)"

definition iot_run ::
    "(string \<Rightarrow> json option) \<Rightarrow> (json option \<Rightarrow> string) \<Rightarrow> (rat \<Rightarrow> string) \<Rightarrow> (json \<Rightarrow> string) \<Rightarrow> json_obj \<Rightarrow>
     iot_event list \<Rightarrow> string obj \<times> string list \<Rightarrow> string obj \<times> string list" where
  "iot_run decode str date encode init evs st = foldl (\<lambda>st ev. iot_step decode str date encode init ev st) st evs"

subsection \<open>No reading is lost\<close>

definition times :: "iot_event list \<Rightarrow> string list" where
  "times evs = concat (map (\<lambda>ev. case ev of Collect d now body \<Rightarrow> [now] | Post d server \<Rightarrow> []) evs)"

lemma times_snoc [simp]: "times (evs @ evs') = times evs @ times evs'"
  by (simp add: times_def)

text \<open>What a run has collected, with the names of the files.\<close>

definition collected ::
    "(string \<Rightarrow> json option) \<Rightarrow> (rat \<Rightarrow> string) \<Rightarrow> (json \<Rightarrow> string) \<Rightarrow> iot_event list \<Rightarrow> (string \<times> string) set" where
  "collected decode date encode evs =
     {(now, t). \<exists>d body. Collect d now body \<in> set evs \<and> json_truthy (dv_actived d) \<and>
        reading_text decode date encode d body = Some t}"

lemma collected_times: "(now, t) \<in> collected decode date encode evs \<Longrightarrow> now \<in> set (times evs)"
proof -
  assume "(now, t) \<in> collected decode date encode evs"
  then obtain d body where "Collect d now body \<in> set evs" unfolding collected_def by blast
  then show "now \<in> set (times evs)" unfolding times_def by force
qed

text \<open>Sending keeps every content on one of the two sides.\<close>

definition kept :: "string obj \<times> string list \<Rightarrow> string \<Rightarrow> string \<Rightarrow> bool" where
  "kept st now t \<longleftrightarrow> obj_get (fst st) now = Some t \<or> t \<in> set (snd st)"

lemma kept_send: "kept st now t \<Longrightarrow> kept (send_file answer name st) now t"
  by (auto simp: kept_def send_file_def split: option.split)

lemma kept_post: "kept st now t \<Longrightarrow> kept (post_batch answer st) now t"
proof -
  have "kept st now t \<Longrightarrow> kept (foldl (\<lambda>st name. send_file answer name st) st names) now t" for names
    by (induction names arbitrary: st) (simp_all add: kept_send)
  then show "kept st now t \<Longrightarrow> kept (post_batch answer st) now t" by (simp add: post_batch_def)
qed

lemma kept_collect: "now \<noteq> now' \<Longrightarrow> kept st now t \<Longrightarrow> kept (collect now' v (fst st), snd st) now t"
  by (auto simp: kept_def collect_def split: option.split)

interpretation store: history_machine "iot_step decode str date encode init" "\<lambda>evs. distinct (times evs)"
    "\<lambda>evs st. \<forall>now t. (now, t) \<in> collected decode date encode evs \<longrightarrow> kept st now t" for decode str date encode init
proof
  fix evs ev st
  assume d: "distinct (times (evs @ [ev]))"
    and inv: "\<forall>now t. (now, t) \<in> collected decode date encode evs \<longrightarrow> kept st now t"
  show "\<forall>now t. (now, t) \<in> collected decode date encode (evs @ [ev]) \<longrightarrow>
      kept (iot_step decode str date encode init ev st) now t"
  proof (intro allI impI)
    fix now t assume col: "(now, t) \<in> collected decode date encode (evs @ [ev])"
    show "kept (iot_step decode str date encode init ev st) now t"
    proof (cases "(now, t) \<in> collected decode date encode evs")
      case True
      then have k: "kept st now t" using inv by blast
      have tm: "now \<in> set (times evs)" by (rule collected_times [OF True])
      show ?thesis
      proof (cases ev)
        case (Collect d' now' body)
        have "now \<noteq> now'" using d tm by (auto simp: Collect) (simp add: times_def)
        then show ?thesis using kept_collect k by (simp add: Collect iot_step_def)
      qed (use k in \<open>simp add: iot_step_def kept_post\<close>)
    next
      case False
      then obtain d' body where ev: "ev = Collect d' now body" "json_truthy (dv_actived d')"
        "reading_text decode date encode d' body = Some t"
        using col unfolding collected_def by auto
      then show ?thesis by (simp add: iot_step_def kept_def collect_def)
    qed
  qed
qed simp

lemma acked_post: "t \<in> set (snd (post_batch answer st)) \<Longrightarrow> t \<in> set (snd st) \<or> answer t = ''OK''"
proof -
  have "t \<in> set (snd (foldl (\<lambda>st name. send_file answer name st) st names)) \<Longrightarrow> t \<in> set (snd st) \<or> answer t = ''OK''" for names
  proof (induction names arbitrary: st)
    case (Cons name names)
    have "t \<in> set (snd (send_file answer name st)) \<Longrightarrow> t \<in> set (snd st) \<or> answer t = ''OK''"
      by (auto simp: send_file_def split: option.splits if_splits)
    then show ?case using Cons.IH [of "send_file answer name st"] Cons.prems by auto
  qed simp
  then show "t \<in> set (snd (post_batch answer st)) \<Longrightarrow> ?thesis" by (simp add: post_batch_def)
qed

definition accepted ::
    "(string \<Rightarrow> json option) \<Rightarrow> (json option \<Rightarrow> string) \<Rightarrow> json_obj \<Rightarrow> iot_event list \<Rightarrow> string \<Rightarrow> bool" where
  "accepted decode str init evs t \<longleftrightarrow>
     (\<exists>d server. Post d server \<in> set evs \<and> post_answer decode str server init (dv_jwt d) t = ''OK'')"

interpretation acks: history_machine "iot_step decode str date encode init" "\<lambda>evs. True"
    "\<lambda>evs st. \<forall>t. t \<in> set (snd st) \<longrightarrow> accepted decode str init evs t" for decode str date encode init
proof
  fix evs ev and st :: "string obj \<times> string list"
  assume inv: "\<forall>t. t \<in> set (snd st) \<longrightarrow> accepted decode str init evs t"
  have more: "accepted decode str init evs t \<Longrightarrow> accepted decode str init (evs @ [ev]) t" for t
    by (auto simp: accepted_def)
  show "\<forall>t. t \<in> set (snd (iot_step decode str date encode init ev st)) \<longrightarrow> accepted decode str init (evs @ [ev]) t"
  proof (intro allI impI)
    fix t assume t: "t \<in> set (snd (iot_step decode str date encode init ev st))"
    show "accepted decode str init (evs @ [ev]) t"
    proof (cases ev)
      case (Post d server)
      then have "t \<in> set (snd st) \<or> post_answer decode str server init (dv_jwt d) t = ''OK''"
        using t acked_post by (auto simp: iot_step_def split: if_splits)
      then show ?thesis using inv more Post by (auto simp: accepted_def)
    qed (use t inv more in \<open>auto simp: iot_step_def split: if_splits\<close>)
  qed
qed simp

text \<open>C39: No reading is lost: after any sequence of readings at different times and of posts,
  however the server answered, every reading that was collected is still in its file, unless
  the server accepted its very content in an answer with status 200 and an id.\<close>
theorem no_reading_lost:
  assumes "distinct (times evs)" "Collect d now body \<in> set evs" "json_truthy (dv_actived d)"
    and "reading_text decode date encode d body = Some t"
  shows "obj_get (fst (iot_run decode str date encode init evs ([], []))) now = Some t \<or>
     (\<exists>d' server. Post d' server \<in> set evs \<and> json_truthy (dv_jwt d') \<and>
        (let (status, answer) = server (post_request str init (dv_jwt d') t) in
         status = 200 \<and> json_positive (json_get (json_get (decode_body decode answer) ''data'') ''id'')))"
proof -
  let ?st = "iot_run decode str date encode init evs ([], [])"
  have "(now, t) \<in> collected decode date encode evs" using assms(2-4) by (auto simp: collected_def)
  then have "kept ?st now t"
    using store.inv_run [where decode = decode and date = date and encode = encode and s = "([], [])" and es = evs and str = str and init = init] assms(1)
    by (simp add: iot_run_def collected_def)
  moreover have "\<forall>t. t \<in> set (snd ?st) \<longrightarrow> accepted decode str init evs t"
    using acks.inv_run [where decode = decode and date = date and encode = encode and s = "([], [])" and es = evs and str = str and init = init] by (simp add: iot_run_def)
  ultimately have "obj_get (fst ?st) now = Some t \<or> accepted decode str init evs t"
    unfolding kept_def by blast
  moreover have "post_answer decode str server init jwt t = ''OK'' \<Longrightarrow> json_truthy jwt \<and>
      (let (status, answer) = server (post_request str init jwt t) in
       status = 200 \<and> json_positive (json_get (json_get (decode_body decode answer) ''data'') ''id''))" for server jwt
    by (auto simp: post_answer_def Let_def split: if_splits prod.splits)
  ultimately show ?thesis unfolding accepted_def by blast
qed

definition ex_reading :: "string \<Rightarrow> json option" where
  "ex_reading t = (if t = ''{r}'' then Some (JObj [(''id'', JNum 7), (''ts'', JNum 3), (''records'', JObj [(''temp'', JNum 205)])])
     else if t = ''{ok}'' then Some (JObj [(''data'', JObj [(''id'', JNum 1)])]) else None)"

definition ex_worker :: iot_device where
  "ex_worker = no_device\<lparr>dv_actived := Some (JBool True), dv_name := Some (JStr ''kb''), dv_jwt := Some (JStr ''t'')\<rparr>"

text \<open>A server that fails does not take the reading away.\<close>

lemma no_reading_lost_witness:
  "obj_get (fst (iot_run ex_reading (\<lambda>v. ''x'') (\<lambda>n. ''d'') (\<lambda>v. if v = JNull then ''n'' else ''o'') []
      [Collect ex_worker ''1'' (Some ''{r}''), Post ex_worker (\<lambda>m. (500, None))] ([], []))) ''1'' = Some ''o'' \<or>
   (\<exists>d' server. Post d' server \<in> set [Collect ex_worker ''1'' (Some ''{r}''), Post ex_worker (\<lambda>m. (500, None))] \<and>
      json_truthy (dv_jwt d') \<and>
      (let (status, answer) = server (post_request (\<lambda>v. ''x'') [] (dv_jwt d') ''o'') in
       status = 200 \<and> json_positive (json_get (json_get (decode_body ex_reading answer) ''data'') ''id'')))"
proof (rule no_reading_lost)
  show "distinct (times [Collect ex_worker ''1'' (Some ''{r}''), Post ex_worker (\<lambda>m. (500, None))])"
    by (simp add: times_def)
  show "Collect ex_worker ''1'' (Some ''{r}'') \<in> set [Collect ex_worker ''1'' (Some ''{r}''), Post ex_worker (\<lambda>m. (500, None))]"
    by simp
  show "json_truthy (dv_actived ex_worker)" by code_simp
  show "reading_text ex_reading (\<lambda>n. ''d'') (\<lambda>v. if v = JNull then ''n'' else ''o'') ex_worker (Some ''{r}'') = Some ''o''"
    by code_simp
qed

subsection \<open>The store drains\<close>

lemma set_pending: "set (pending store) = {n \<in> fst ` set store. \<not> ends_with ''/'' n}"
  by (auto simp: pending_def)

lemma batch_parts: "set (batch store) \<subseteq> set (pending store)" "length (batch store) = min 10 (length (pending store))"
  by (auto simp: batch_def Let_def dest: in_set_dropD)

text \<open>While every content is accepted, exactly the files that were sent are gone.\<close>

definition all_ok :: "(string \<Rightarrow> string) \<Rightarrow> string obj \<Rightarrow> bool" where
  "all_ok answer store \<longleftrightarrow> distinct (map fst store) \<and> (\<forall>n t. obj_get store n = Some t \<longrightarrow> answer t = ''OK'')"

lemma send_file_ok:
  assumes "all_ok answer (fst st)"
  shows "all_ok answer (fst (send_file answer name st)) \<and>
     fst ` set (fst (send_file answer name st)) = fst ` set (fst st) - {name}"
proof (cases "obj_get (fst st) name")
  case None
  then have "send_file answer name st = st" by (simp add: send_file_def)
  moreover have "name \<notin> fst ` set (fst st)" using None by (simp add: map_of_eq_None_iff)
  ultimately show ?thesis using assms by simp
next
  case (Some t)
  then have "send_file answer name st = (obj_del name (fst st), snd st @ [t])"
    using assms by (simp add: send_file_def all_ok_def)
  moreover have "fst ` set (obj_del name (fst st)) = fst ` set (fst st) - {name}"
    using arg_cong [OF delete_keys [of name "fst st"], of set] by simp
  ultimately show ?thesis using assms by (simp add: all_ok_def distinct_removeAll delete_keys)
qed

lemma send_files_ok:
  "all_ok answer (fst st) \<Longrightarrow> all_ok answer (fst (foldl (\<lambda>st name. send_file answer name st) st names)) \<and>
     fst ` set (fst (foldl (\<lambda>st name. send_file answer name st) st names)) = fst ` set (fst st) - set names"
proof (induction names arbitrary: st)
  case (Cons name names)
  show ?case using Cons.IH [of "send_file answer name st"] send_file_ok [OF Cons.prems, of name] by auto
qed simp

lemma post_batch_ok:
  assumes "all_ok answer (fst st)"
  shows "all_ok answer (fst (post_batch answer st)) \<and>
     length (pending (fst (post_batch answer st))) = length (pending (fst st)) - 10"
proof -
  let ?st = "post_batch answer st" and ?b = "batch (fst st)" and ?p = "pending (fst st)"
  have ok: "all_ok answer (fst ?st)" "fst ` set (fst ?st) = fst ` set (fst st) - set ?b"
    using send_files_ok [OF assms, of ?b] by (simp_all add: post_batch_def)
  have d: "distinct ?p" "distinct ?b" using assms by (simp_all add: all_ok_def pending_def batch_def Let_def distinct_js_sort)
  have "set (pending (fst ?st)) = set ?p - set ?b" unfolding set_pending ok(2) by auto
  moreover have "distinct (pending (fst ?st))" using ok(1) by (simp add: all_ok_def pending_def distinct_js_sort)
  ultimately have "length (pending (fst ?st)) = card (set ?p - set ?b)" using distinct_card by metis
  also have "\<dots> = card (set ?p) - card (set ?b)" by (rule card_Diff_subset) (simp_all add: batch_parts)
  also have "\<dots> = length ?p - 10" using d batch_parts(2) [of "fst st"] by (simp add: distinct_card)
  finally show ?thesis using ok(1) by simp
qed

text \<open>C40: The store drains: when the server accepts what it is sent, ten files leave the store with
  every post, so that after one post for every ten files nothing is pending.\<close>
theorem store_drains:
  assumes "distinct (map fst store)" "json_truthy (dv_actived d)"
    and "\<And>n t. obj_get store n = Some t \<Longrightarrow> post_answer decode str server init (dv_jwt d) t = ''OK''"
  shows "length (pending (fst (iot_run decode str date encode init (replicate k (Post d server)) (store, acked)))) =
     length (pending store) - 10 * k"
proof -
  have "all_ok (post_answer decode str server init (dv_jwt d)) (fst st) \<Longrightarrow>
     length (pending (fst (iot_run decode str date encode init (replicate k (Post d server)) st))) =
     length (pending (fst st)) - 10 * k" for st
  proof (induction k arbitrary: st)
    case (Suc k)
    let ?st = "post_batch (post_answer decode str server init (dv_jwt d)) st"
    have "iot_run decode str date encode init (replicate (Suc k) (Post d server)) st =
        iot_run decode str date encode init (replicate k (Post d server)) ?st"
      using assms(2) by (simp add: iot_run_def iot_step_def)
    then show ?case using post_batch_ok [OF Suc.prems] Suc.IH [of ?st] by simp
  qed (simp add: iot_run_def)
  from this [of "(store, acked)"] show ?thesis using assms(1,3) by (simp add: all_ok_def)
qed

lemma store_drains_witness:
  "length (pending (fst (iot_run ex_reading (\<lambda>v. ''x'') (\<lambda>n. ''d'') (\<lambda>v. ''o'') []
     (replicate 1 (Post ex_worker (\<lambda>m. (200, Some ''{ok}'')))) ([(''b'', ''o''), (''a'', ''o'')], [])))) =
   length (pending [(''b'', ''o''), (''a'', ''o'')]) - 10 * 1"
proof (rule store_drains)
  have ok: "post_answer ex_reading (\<lambda>v. ''x'') (\<lambda>m. (200, Some ''{ok}'')) [] (dv_jwt ex_worker) ''o'' = ''OK''"
    by code_simp
  show "post_answer ex_reading (\<lambda>v. ''x'') (\<lambda>m. (200, Some ''{ok}'')) [] (dv_jwt ex_worker) t = ''OK''"
    if "obj_get [(''b'', ''o''), (''a'', ''o'')] n = Some t" for n t
    using that ok by (auto split: if_splits)
  show "json_truthy (dv_actived ex_worker)" by code_simp
qed simp

end
