(* ===== verification/Pjs_Route.thy ===== *)
theory Pjs_Route
  imports Http "HOL-Library.Sublist"
begin

text \<open>
  \<open>pjs/config.js\<close>, \<open>pjs/main.js\<close> and \<open>pjs/http/route.js\<close>, the first version of the gateway:
  the route tables of the ports, the chain of a listener, the domain and the route of a
  request, and the limit of its body. \<open>RegExp\<close> is a parameter: \<open>regex p s\<close> tests whether the
  pattern \<open>p\<close> is found in \<open>s\<close>.
\<close>

subsection \<open>Configuration\<close>

text \<open>A size is a number or a text such as \<open>10m\<close>.\<close>

datatype size_value = SizeNum rat | SizeText string

definition times_js :: "num_js \<Rightarrow> rat \<Rightarrow> num_js" where
  "times_js v k = map_option (\<lambda>x. x * k) v"

definition non_negative :: "size_value \<Rightarrow> rat" where
  "non_negative v =
     (let n = (case v of
          SizeNum x \<Rightarrow> Some x
        | SizeText s \<Rightarrow>
            (let l = to_lower s; cut = take (length l - 1) l in
             if ends_with ''m'' l then times_js (to_number cut) 1000000
             else if ends_with ''k'' l then times_js (to_number cut) 1000
             else to_number s))
      in case n of Some x \<Rightarrow> if 0 \<le> x then x else 0 | None \<Rightarrow> 0)"

type_synonym dictionary = "string obj obj"

text \<open>A rule of a domain; the path is its type and text, the gRPC method its type, service and method.\<close>

record pj_rule =
  pr_path :: "(string \<times> string) option"
  pr_headers :: dictionary
  pr_methods :: "string list option"
  pr_params :: dictionary
  pr_method :: "(string \<times> string option \<times> string option) option"
  pr_services :: "num_js obj"
  pr_serverRoot :: "string option"
  pr_maxBody :: "size_value option"

record pj_domain =
  pd_type :: "string option"
  pd_rules :: "pj_rule list"
  pd_maxBody :: "size_value option"

text \<open>
  A key of the tables names several hosts, or several ports, with commas; their entries
  share one object. An expanded table maps a name to the key whose object it has.
\<close>

definition expand_keys :: "string list \<Rightarrow> string obj" where
  "expand_keys keys =
     foldl (\<lambda>ob key. foldl (\<lambda>ob name. obj_set (trim name) key ob) ob (split_on CHR '','' key)) [] keys"

record pj_config =
  pc_rules :: "pj_domain obj obj"
  pc_maxBody :: "size_value option"
  pc_stripPort :: bool

definition port_rules :: "pj_config \<Rightarrow> string \<Rightarrow> pj_domain obj option" where
  "port_rules conf port =
     Option.bind (obj_get (expand_keys (map fst (pc_rules conf))) port) (obj_get (pc_rules conf))"

subsection \<open>Listeners\<close>

datatype pj_chain = HTTPRoute | HTTPSRoute | TLSPassthrough | TLSTerminate | TCPRoute | UDPRoute

record pj_port =
  po_listen :: "nat option"
  po_port :: "nat option"
  po_protocol :: "string option"
  po_tlsMode :: "string option"

definition listen_port :: "pj_port \<Rightarrow> nat" where
  "listen_port l = or_else_nat (po_listen l) (or_else_nat (po_port l) 0)"

definition listen_udp :: "pj_port \<Rightarrow> bool" where
  "listen_udp l \<longleftrightarrow> map_option to_lower (po_protocol l) = Some ''udp''"

definition launch :: "pj_port \<Rightarrow> pj_chain option" where
  "launch l =
     (if po_protocol l = Some ''HTTP'' then Some HTTPRoute
      else if po_protocol l = Some ''HTTPS'' then Some HTTPSRoute
      else if po_protocol l = Some ''TLS'' \<and> po_tlsMode l = Some ''Passthrough'' then Some TLSPassthrough
      else if po_protocol l = Some ''TLS'' \<and> po_tlsMode l = Some ''Terminate'' then Some TLSTerminate
      else if po_protocol l = Some ''TCP'' then Some TCPRoute
      else if po_protocol l = Some ''UDP'' then Some UDPRoute
      else None)"

text \<open>
  The start of the program: the tasks, the variables of the ports by number, where a later
  listener of a port takes the place of an earlier one, and the file with the process id.
\<close>

datatype start_task = WritePid string string | CountMeta | ScrapeUsage num_js | ListenOn nat bool | CheckHealth

definition start_tasks :: "string option \<Rightarrow> string \<Rightarrow> num_js \<Rightarrow> pj_port list \<Rightarrow> start_task list" where
  "start_tasks pidFile pid scrapeInterval listeners =
     (if truthy pidFile then [WritePid (the pidFile) pid] else []) @ [CountMeta] @
     (if num_gt scrapeInterval 0 then [ScrapeUsage scrapeInterval] else []) @
     map (\<lambda>l. ListenOn (listen_port l) (listen_udp l)) listeners @ [CheckHealth]"

definition exit_unlinks :: "string option \<Rightarrow> string list" where
  "exit_unlinks pidFile = (if truthy pidFile then [the pidFile] else [])"

definition listener_arrays :: "pj_port list \<Rightarrow> pj_port obj" where
  "listener_arrays listeners = foldl (\<lambda>ob l. obj_set (nat_str (listen_port l)) l ob) [] listeners"

subsection \<open>Domains\<close>

text \<open>
  The names of a port in lower case and the objects with a wildcard. The wildcard of an
  object is an attribute of the object: a second wildcard of the same key overwrites it.
\<close>

record domain_match =
  dm_domains :: "string obj"
  dm_stars :: "string list"
  dm_name :: "string obj"
  dm_starName :: "string obj"

definition add_domain_name :: "domain_match \<Rightarrow> string \<times> string \<Rightarrow> domain_match" where
  "add_domain_name m e =
     (let domain = fst e; key = snd e; lowercaseDomain = to_lower domain;
          m1 = m\<lparr>dm_name := obj_set key domain (dm_name m)\<rparr>
      in if starts_with ''*'' domain then
           m1\<lparr>dm_starName := obj_set key (drop 1 lowercaseDomain) (dm_starName m1), dm_stars := dm_stars m1 @ [key]\<rparr>
         else m1\<lparr>dm_domains := obj_set lowercaseDomain key (dm_domains m1)\<rparr>)"

definition make_match_domain :: "string obj \<Rightarrow> domain_match" where
  "make_match_domain hosts =
     foldl add_domain_name \<lparr>dm_domains = [], dm_stars = [], dm_name = [], dm_starName = []\<rparr> hosts"

definition match_domain :: "domain_match \<Rightarrow> string \<Rightarrow> string option" where
  "match_domain m domain =
     (case obj_get (dm_domains m) domain of
        Some key \<Rightarrow> Some key
      | None \<Rightarrow> find (\<lambda>key. ends_with (the (obj_get (dm_starName m) key)) domain) (dm_stars m))"

subsection \<open>Rules\<close>

text \<open>The parameters of a query; one without an equals sign is undefined.\<close>

definition get_parameters :: "string \<Rightarrow> string option obj" where
  "get_parameters path =
     (case split_on CHR ''?'' path of
        x # qsa # ys \<Rightarrow>
          (let qs = hd (split_on CHR ''#'' qsa) in
           if qsa = [] \<or> qs = [] then []
           else foldl (\<lambda>ob p. case split_on CHR ''='' p of
                    k # v # vs \<Rightarrow> obj_set k (Some v) ob
                  | ks \<Rightarrow> obj_set (hd ks) None ob) [] (split_on CHR ''&'' qs))
      | xs \<Rightarrow> [])"

definition dict_test ::
    "(string \<Rightarrow> string \<Rightarrow> bool) \<Rightarrow> string \<times> string obj \<Rightarrow> (string \<Rightarrow> header_val option) \<Rightarrow> bool" where
  "dict_test regex d look =
     (if fst d = ''Exact'' then list_all (\<lambda>(k, v). look k = Some (One v)) (snd d)
      else if fst d = ''Regex'' then
        list_all (\<lambda>(k, v). regex v (case look k of None \<Rightarrow> [] | Some h \<Rightarrow> header_text h)) (snd d)
      else False)"

definition dictionary_matches ::
    "(string \<Rightarrow> string \<Rightarrow> bool) \<Rightarrow> dictionary \<Rightarrow> (string \<Rightarrow> header_val option) \<Rightarrow> bool" where
  "dictionary_matches regex ds look \<longleftrightarrow> list_all (\<lambda>d. dict_test regex d look) ds"

definition path_prefix :: "string \<Rightarrow> string \<Rightarrow> bool" where
  "path_prefix path pre \<longleftrightarrow>
     starts_with pre path \<and>
     (ends_with ''/'' pre \<or> length path \<le> length pre \<or> path ! length pre = CHR ''/'')"

definition pj_path_test :: "(string \<Rightarrow> string \<Rightarrow> bool) \<Rightarrow> (string \<times> string) option \<Rightarrow> string \<Rightarrow> bool" where
  "pj_path_test regex p path =
     (case p of
        None \<Rightarrow> True
      | Some (ty, text) \<Rightarrow>
          if ty = ''Regex'' then regex text path
          else if ty = ''Exact'' then path = text
          else if ty = ''Prefix'' then path_prefix path text
          else ty = [])"

definition http_matches :: "(string \<Rightarrow> string \<Rightarrow> bool) \<Rightarrow> pj_rule \<Rightarrow> head \<Rightarrow> bool" where
  "http_matches regex rule h \<longleftrightarrow>
     (case pr_methods rule of None \<Rightarrow> True | Some ms \<Rightarrow> hd_method h \<in> set ms) \<and>
     pj_path_test regex (pr_path rule) (hd (split_on CHR ''?'' (hd_path h))) \<and>
     dictionary_matches regex (pr_headers rule) (obj_get (hd_headers h)) \<and>
     dictionary_matches regex (pr_params rule)
       (\<lambda>k. map_option One (Option.bind (obj_get (get_parameters (hd_path h)) k) (\<lambda>v. v)))"

definition part_is :: "string option \<Rightarrow> nat \<Rightarrow> string list \<Rightarrow> bool" where
  "part_is v n parts \<longleftrightarrow> \<not> truthy v \<or> (n < length parts \<and> v = Some (parts ! n))"

definition grpc_matches :: "(string \<Rightarrow> string \<Rightarrow> bool) \<Rightarrow> pj_rule \<Rightarrow> head \<Rightarrow> bool" where
  "grpc_matches regex rule h \<longleftrightarrow>
     dictionary_matches regex (pr_headers rule) (obj_get (hd_headers h)) \<and>
     (case pr_method rule of
        Some (ty, service, meth) \<Rightarrow>
          if ty = ''Exact'' then
            starts_with ''/grpc.reflection.'' (hd_path h) \<or>
            (part_is service 1 (split_on CHR ''/'' (hd_path h)) \<and> part_is meth 2 (split_on CHR ''/'' (hd_path h)))
          else True
      | None \<Rightarrow> True)"

definition rule_matches :: "(string \<Rightarrow> string \<Rightarrow> bool) \<Rightarrow> string option \<Rightarrow> pj_rule \<Rightarrow> head \<Rightarrow> bool" where
  "rule_matches regex ty rule h \<longleftrightarrow>
     (if \<not> truthy ty \<or> ty = Some ''HTTP'' \<or> ty = Some ''HTTP2'' then http_matches regex rule h
      else ty = Some ''GRPC'' \<and> grpc_matches regex rule h)"

definition route_matches :: "(string \<Rightarrow> string \<Rightarrow> bool) \<Rightarrow> pj_domain \<Rightarrow> head \<Rightarrow> pj_rule option" where
  "route_matches regex d h = find (\<lambda>rule. rule_matches regex (pd_type d) rule h) (pd_rules d)"

definition backend_weights :: "pj_rule \<Rightarrow> num_js obj" where
  "backend_weights rule = filter (\<lambda>(k, v). num_gt v 0) (pr_services rule)"

subsection \<open>The route of a request\<close>

record route_state =
  rt_host :: "string option"
  rt_domain :: "pj_domain option"
  rt_route :: "pj_rule option"

definition no_route :: route_state where
  "no_route = \<lparr>rt_host = None, rt_domain = None, rt_route = None\<rparr>"

definition domain_of :: "pj_domain obj \<Rightarrow> string \<Rightarrow> pj_domain option" where
  "domain_of rules host =
     Option.bind (match_domain (make_match_domain (expand_keys (map fst rules))) (to_lower host)) (obj_get rules)"

definition handle_message ::
    "(string \<Rightarrow> string \<Rightarrow> bool) \<Rightarrow> pj_config \<Rightarrow> string \<Rightarrow> string option \<Rightarrow> head \<Rightarrow> route_state \<Rightarrow> route_state" where
  "handle_message regex conf port host h st =
     (if \<not> truthy host then st
      else case port_rules conf port of
        None \<Rightarrow> st
      | Some rules \<Rightarrow>
          (let d = domain_of rules (the host) in
           st\<lparr>rt_host := host, rt_domain := d, rt_route := Option.bind d (\<lambda>d. route_matches regex d h)\<rparr>))"

definition route_start ::
    "(string \<Rightarrow> string \<Rightarrow> bool) \<Rightarrow> pj_config \<Rightarrow> string \<Rightarrow> string option \<Rightarrow> head \<Rightarrow> route_state" where
  "route_start regex conf port sni h =
     (let host = one_of (obj_get (hd_headers h) ''host'');
          st1 = handle_message regex conf port host h no_route;
          st2 = (if rt_domain st1 = None \<and> truthy sni then handle_message regex conf port sni h st1 else st1)
      in if rt_domain st2 = None \<and> pc_stripPort conf
         then handle_message regex conf port (map_option (\<lambda>x. hd (split_on CHR '':'' x)) host) h st2 else st2)"

text \<open>The limit of the body, 0 for none; it is looked up only for domains that spell out \<open>HTTP\<close>.\<close>

definition max_body :: "pj_config \<Rightarrow> pj_domain \<Rightarrow> pj_rule \<Rightarrow> rat" where
  "max_body conf d rule =
     (case pr_maxBody rule of Some v \<Rightarrow> non_negative v
      | None \<Rightarrow> (case pd_maxBody d of Some v \<Rightarrow> non_negative v
      | None \<Rightarrow> (case pc_maxBody conf of Some v \<Rightarrow> non_negative v | None \<Rightarrow> 1000000)))"

definition body_limit :: "pj_config \<Rightarrow> route_state \<Rightarrow> rat" where
  "body_limit conf st =
     (case (rt_domain st, rt_route st) of
        (Some d, Some rule) \<Rightarrow> if pd_type d = Some ''HTTP'' then max_body conf d rule else 0
      | _ \<Rightarrow> 0)"

text \<open>The data of a body: what has arrived, whether to go on, what is passed on.\<close>

definition limit_data :: "rat \<Rightarrow> rat \<times> bool \<times> string list \<Rightarrow> string \<Rightarrow> rat \<times> bool \<times> string list" where
  "limit_data m st dat =
     (let (n, go, kept) = st; n1 = n + of_nat (length dat) in
      if m < n1 then (n1, False, kept) else (n1, go, kept @ [dat]))"

definition limit_body :: "rat \<Rightarrow> string list \<Rightarrow> message + string list" where
  "limit_body m chunks =
     (if 0 < m then
        (let (n, go, kept) = foldl (limit_data m) (0, True, []) chunks in
         if go then Inr kept else Inl (reply 413 [] ''Request Entity Too Large''))
      else Inr chunks)"

subsection \<open>Prefixes are whole segments\<close>

lemma split_append_sep: "split_on c (a @ c # b) = split_on c a @ split_on c b"
proof (induction a)
  case (Cons x a)
  then show ?case by (cases "split_on c a") auto
qed simp

lemma join_append:
  "xs \<noteq> [] \<Longrightarrow> ys \<noteq> [] \<Longrightarrow> join_with [c] (xs @ ys) = join_with [c] xs @ c # join_with [c] ys"
proof (induction xs)
  case (Cons x xs)
  show ?case
  proof (cases xs)
    case Nil
    then show ?thesis using Cons.prems(2) by (cases ys) simp_all
  next
    case (Cons y zs)
    then show ?thesis using Cons.IH Cons.prems(2) by simp
  qed
qed simp

lemma strict_prefix_split: "strict_prefix (split_on c q) (split_on c path) \<longleftrightarrow> (\<exists>r. path = q @ c # r)"
proof
  assume "strict_prefix (split_on c q) (split_on c path)"
  then obtain zs where zs: "split_on c path = split_on c q @ zs" "zs \<noteq> []" by (auto elim: strict_prefixE')
  have "path = join_with [c] (split_on c q @ zs)" using join_split [of c path] zs(1) by simp
  then have "path = q @ c # join_with [c] zs" using zs(2) by (simp add: join_append)
  then show "\<exists>r. path = q @ c # r" by blast
next
  assume "\<exists>r. path = q @ c # r"
  then obtain r where "path = q @ c # r" by (elim exE)
  then show "strict_prefix (split_on c q) (split_on c path)"
    by (simp add: split_append_sep strict_prefix_def)
qed

lemma prefix_split: "prefix (split_on c q) (split_on c path) \<longleftrightarrow> path = q \<or> (\<exists>r. path = q @ c # r)"
proof -
  have "split_on c q = split_on c path \<longleftrightarrow> path = q"
  proof
    assume "split_on c q = split_on c path"
    then have "join_with [c] (split_on c q) = join_with [c] (split_on c path)" by simp
    then show "path = q" by simp
  qed simp
  then show ?thesis using strict_prefix_split [of c q path] by (auto simp: strict_prefix_def)
qed

lemma prefix_by_segments_iff: "\<not> ends_with ''/'' pre \<Longrightarrow>
    path_prefix path pre \<longleftrightarrow> prefix (split_on CHR ''/'' pre) (split_on CHR ''/'' path)"
proof -
  assume no: "\<not> ends_with ''/'' pre"
  have "path_prefix path pre \<longleftrightarrow> path = pre \<or> (\<exists>r. path = pre @ CHR ''/'' # r)"
  proof
    assume "path_prefix path pre"
    then obtain r where r: "path = pre @ r" "length path \<le> length pre \<or> path ! length pre = CHR ''/''"
      using no by (auto simp: path_prefix_def starts_with_iff)
    show "path = pre \<or> (\<exists>r. path = pre @ CHR ''/'' # r)" using r by (cases r) auto
  qed (auto simp: path_prefix_def starts_with_iff)
  then show ?thesis by (simp add: prefix_split)
qed

text \<open>The prefix match compares whole segments: it accepts a path exactly when the segments
  of the prefix begin the segments of the path; a prefix with a slash at its end asks for
  at least one more segment, which may be empty.\<close>
theorem prefix_by_segments:
  "path_prefix path pre \<longleftrightarrow>
     (if ends_with ''/'' pre then strict_prefix (split_on CHR ''/'' (butlast pre)) (split_on CHR ''/'' path)
      else prefix (split_on CHR ''/'' pre) (split_on CHR ''/'' path))"
proof (cases "ends_with ''/'' pre")
  case True
  then obtain q where "pre = q @ ''/''" by (auto simp: ends_with_iff)
  then show ?thesis
    by (auto simp: path_prefix_def ends_with_iff starts_with_iff strict_prefix_split)
next
  case False
  then show ?thesis by (simp add: prefix_by_segments_iff)
qed

subsection \<open>Domains\<close>

definition wildcards :: "string obj \<Rightarrow> string \<Rightarrow> string list" where
  "wildcards hosts key = filter (starts_with ''*'') (map fst (filter (\<lambda>e. snd e = key) hosts))"

definition domain_match_ok :: "string obj \<Rightarrow> domain_match \<Rightarrow> bool" where
  "domain_match_ok hosts m \<longleftrightarrow>
     (\<forall>name key. obj_get (dm_domains m) name = Some key \<longrightarrow>
        (\<exists>host. (host, key) \<in> set hosts \<and> \<not> starts_with ''*'' host \<and> to_lower host = name)) \<and>
     (\<forall>host key. (host, key) \<in> set hosts \<and> \<not> starts_with ''*'' host \<longrightarrow> obj_get (dm_domains m) (to_lower host) \<noteq> None) \<and>
     (\<forall>key. key \<in> set (dm_stars m) \<longleftrightarrow> wildcards hosts key \<noteq> []) \<and>
     (\<forall>key. wildcards hosts key \<noteq> [] \<longrightarrow>
        obj_get (dm_starName m) key = Some (drop 1 (to_lower (last (wildcards hosts key)))))"

lemma wildcards_snoc:
  "wildcards (hosts @ [e]) key =
     wildcards hosts key @ (if snd e = key \<and> starts_with ''*'' (fst e) then [fst e] else [])"
  by (simp add: wildcards_def)

lemma add_domain_ok: "domain_match_ok hosts m \<Longrightarrow> domain_match_ok (hosts @ [e]) (add_domain_name m e)"
proof (cases "starts_with ''*'' (fst e)")
  case True
  assume "domain_match_ok hosts m"
  then show ?thesis
    using True unfolding domain_match_ok_def wildcards_snoc add_domain_name_def
    by (cases e) (auto simp: Let_def)
next
  case False
  assume "domain_match_ok hosts m"
  then show ?thesis
    using False unfolding domain_match_ok_def wildcards_snoc add_domain_name_def
    by (cases e) (auto simp: Let_def)
qed

lemma make_match_domain_ok: "domain_match_ok hosts (make_match_domain hosts)"
proof (induction hosts rule: rev_induct)
  case Nil
  then show ?case by (simp add: domain_match_ok_def make_match_domain_def wildcards_def)
next
  case (snoc e hosts)
  then show ?case using add_domain_ok by (simp add: make_match_domain_def)
qed

text \<open>A request goes to a domain that names its host: the exact name if any domain has it,
  otherwise a wildcard that covers the host. Of the wildcards of one key only the last one
  counts.\<close>
theorem host_found_covers:
  assumes "match_domain (make_match_domain hosts) name = Some key"
  shows "if \<exists>host key. (host, key) \<in> set hosts \<and> \<not> starts_with ''*'' host \<and> to_lower host = name
    then \<exists>host. (host, key) \<in> set hosts \<and> \<not> starts_with ''*'' host \<and> to_lower host = name
    else wildcards hosts key \<noteq> [] \<and> ends_with (drop 1 (to_lower (last (wildcards hosts key)))) name"
proof -
  note ok = make_match_domain_ok [of hosts, unfolded domain_match_ok_def]
  let ?m = "make_match_domain hosts"
  show ?thesis
  proof (cases "obj_get (dm_domains ?m) name")
    case None
    then have no: "\<not> (\<exists>host key. (host, key) \<in> set hosts \<and> \<not> starts_with ''*'' host \<and> to_lower host = name)"
      using ok by blast
    have "find (\<lambda>key. ends_with (the (obj_get (dm_starName ?m) key)) name) (dm_stars ?m) = Some key"
      using assms None by (simp add: match_domain_def)
    from find_Some_in [OF this] have "key \<in> set (dm_stars ?m)" "ends_with (the (obj_get (dm_starName ?m) key)) name"
      by blast+
    then show ?thesis using ok no by auto
  next
    case (Some k)
    then have "k = key" using assms by (simp add: match_domain_def)
    then have "\<exists>host. (host, key) \<in> set hosts \<and> \<not> starts_with ''*'' host \<and> to_lower host = name"
      using ok Some by blast
    then show ?thesis by auto
  qed
qed

lemma host_found_covers_witness:
  "wildcards [(''*.b.com'', ''*.b.com''), (''a.com'', ''a.com'')] ''*.b.com'' \<noteq> [] \<and>
   ends_with (drop 1 (to_lower (last (wildcards [(''*.b.com'', ''*.b.com''), (''a.com'', ''a.com'')] ''*.b.com'')))) ''x.b.com''"
proof -
  have "match_domain (make_match_domain [(''*.b.com'', ''*.b.com''), (''a.com'', ''a.com'')]) ''x.b.com'' = Some ''*.b.com''"
    by code_simp
  from host_found_covers [OF this] show ?thesis
    by (auto simp: to_lower_def lower_char_def lower_table_def starts_with_def split: if_splits)
qed

text \<open>A wildcard that shares its key with a later one matches nothing.\<close>

lemma shared_wildcard_lost:
  "match_domain (make_match_domain (expand_keys [''*.a.com,*.b.com''])) ''x.b.com'' = Some ''*.a.com,*.b.com''"
  "match_domain (make_match_domain (expand_keys [''*.a.com,*.b.com''])) ''x.a.com'' = None"
  by code_simp+

subsection \<open>Routing\<close>

text \<open>The names under which a request is looked up, in order.\<close>

definition host_candidates :: "pj_config \<Rightarrow> string option \<Rightarrow> head \<Rightarrow> string list" where
  "host_candidates conf sni h =
     (let host = one_of (obj_get (hd_headers h) ''host'') in
      map the (filter truthy
        ([host, sni] @ (if pc_stripPort conf then [map_option (\<lambda>x. hd (split_on CHR '':'' x)) host] else []))))"

definition route_outcome :: "route_state \<Rightarrow> pj_domain option \<times> pj_rule option" where
  "route_outcome st = (rt_domain st, rt_route st)"

lemma handle_message_result:
  assumes "port_rules conf port = Some rules" "rt_domain st = None \<Longrightarrow> rt_route st = None"
  shows "rt_domain st = None \<Longrightarrow> route_outcome (handle_message regex conf port host h st) =
     (let d = (if truthy host then domain_of rules (the host) else None) in (d, Option.bind d (\<lambda>d. route_matches regex d h)))"
  using assms by (simp add: handle_message_def route_outcome_def Let_def)

text \<open>C31: The first name that has a domain decides, of the host header, the name of the TLS
  handshake and, where it is configured, the host without its port: the route is the first
  rule of that domain that fits, and when none fits no other name is tried.\<close>
theorem first_host_decides:
  assumes "port_rules conf port = Some rules"
  shows "route_outcome (route_start regex conf port sni h) =
     (case find (\<lambda>host. domain_of rules host \<noteq> None) (host_candidates conf sni h) of
        None \<Rightarrow> (None, None)
      | Some host \<Rightarrow> (domain_of rules host,
          find (\<lambda>rule. rule_matches regex (pd_type (the (domain_of rules host))) rule h)
            (pd_rules (the (domain_of rules host)))))"
proof -
  let ?host = "one_of (obj_get (hd_headers h) ''host'')"
  let ?bare = "map_option (\<lambda>x. hd (split_on CHR '':'' x)) ?host"
  define look where "look v = (if truthy v then domain_of rules (the v) else None)" for v
  define result where "result d = (d, Option.bind d (\<lambda>d. route_matches regex d h))" for d
  have tried: "route_outcome (handle_message regex conf port v h st) = (if truthy v then result (look v) else route_outcome st)"
    for v st
    using assms by (simp add: handle_message_def route_outcome_def look_def result_def Let_def)
  have dom: "rt_domain st = fst (route_outcome st)" for st by (simp add: route_outcome_def)
  have none: "route_outcome no_route = result None" by (simp add: route_outcome_def no_route_def result_def)
  have fst_result [simp]: "fst (result d) = d" for d by (simp add: result_def)
  have run: "route_outcome (route_start regex conf port sni h) =
     result (case look ?host of Some d \<Rightarrow> Some d | None \<Rightarrow> (case look sni of Some d \<Rightarrow> Some d
       | None \<Rightarrow> if pc_stripPort conf then look ?bare else None))"
    unfolding route_start_def Let_def dom
    by (simp add: tried none if_distrib [of route_outcome] if_distrib [of fst] look_def cong: if_cong split: option.split)
  show ?thesis
    unfolding run
    by (auto simp: host_candidates_def look_def result_def route_matches_def Let_def split: option.splits if_splits)
qed

definition ex_pj_rule :: pj_rule where
  "ex_pj_rule = \<lparr>pr_path = Some (''Prefix'', ''/api''), pr_headers = [], pr_methods = None, pr_params = [(''Exact'', [(''v'', ''2'')])],
     pr_method = None, pr_services = [], pr_serverRoot = None, pr_maxBody = Some (SizeText ''2k'')\<rparr>"

definition ex_config :: pj_config where
  "ex_config = \<lparr>pc_rules = [(''80, 8080'', [(''a.com'', \<lparr>pd_type = None, pd_rules = [ex_pj_rule], pd_maxBody = None\<rparr>)])],
     pc_maxBody = None, pc_stripPort = True\<rparr>"

definition ex_pj_head :: head where
  "ex_pj_head = \<lparr>hd_method = ''GET'', hd_path = ''/api/x?v=2'', hd_headers = [(''host'', One ''A.com:8080'')], hd_status = 0\<rparr>"

lemma first_host_decides_witness:
  "route_outcome (route_start (\<lambda>p s. False) ex_config ''8080'' None ex_pj_head) =
     (Some \<lparr>pd_type = None, pd_rules = [ex_pj_rule], pd_maxBody = None\<rparr>, Some ex_pj_rule)"
proof -
  let ?d = "\<lparr>pd_type = None, pd_rules = [ex_pj_rule], pd_maxBody = None\<rparr>"
  have "port_rules ex_config ''8080'' = Some [(''a.com'', ?d)]" by code_simp
  from first_host_decides [OF this, of "\<lambda>p s. False" None ex_pj_head]
  have run: "route_outcome (route_start (\<lambda>p s. False) ex_config ''8080'' None ex_pj_head) =
     (case find (\<lambda>host. domain_of [(''a.com'', ?d)] host \<noteq> None) (host_candidates ex_config None ex_pj_head) of
        None \<Rightarrow> (None, None)
      | Some host \<Rightarrow> (domain_of [(''a.com'', ?d)] host,
          find (\<lambda>rule. rule_matches (\<lambda>p s. False) (pd_type (the (domain_of [(''a.com'', ?d)] host))) rule ex_pj_head)
            (pd_rules (the (domain_of [(''a.com'', ?d)] host)))))" .
  have hosts: "host_candidates ex_config None ex_pj_head = [''A.com:8080'', ''A.com'']" by code_simp
  have no: "domain_of [(''a.com'', ?d)] ''A.com:8080'' = None" by code_simp
  have yes: "domain_of [(''a.com'', ?d)] ''A.com'' = Some ?d" by code_simp
  have fits: "rule_matches (\<lambda>p s. False) None ex_pj_rule ex_pj_head" by code_simp
  show ?thesis unfolding run hosts by (simp add: no yes fits)
qed

subsection \<open>The limit of the body\<close>

lemma non_negative_nonneg: "0 \<le> non_negative v"
  by (simp add: non_negative_def Let_def split: option.split)

lemma limit_data_step:
  "limit_data m (n, go, kept) c =
     (if m < n + of_nat (length c) then (n + of_nat (length c), False, kept)
      else (n + of_nat (length c), go, kept @ [c]))"
  by (simp add: limit_data_def Let_def)

lemma limit_data_over: "m < n \<Longrightarrow> \<exists>n'. foldl (limit_data m) (n, False, kept) chunks = (n', False, kept)"
proof (induction chunks arbitrary: n)
  case (Cons c chunks)
  have "m < n + of_nat (length c)" using Cons.prems by (simp add: add_strict_increasing2 add.commute)
  from Cons.IH [OF this] show ?case using \<open>m < n + of_nat (length c)\<close> by (simp add: limit_data_step)
qed simp

lemma limit_data_run:
  "\<exists>n' kept'. foldl (limit_data m) (n, True, kept) chunks =
     (if m < n + of_nat (sum_list (map length chunks)) \<and> chunks \<noteq> [] then (n', False, kept') else (n', True, kept @ chunks))"
proof (induction chunks arbitrary: n kept)
  case (Cons c chunks)
  show ?case
  proof (cases "m < n + of_nat (length c)")
    case True
    then have all: "m < n + of_nat (sum_list (map length (c # chunks)))"
      by (simp add: order.strict_trans2)
    obtain n' where "foldl (limit_data m) (n + of_nat (length c), False, kept) chunks = (n', False, kept)"
      using limit_data_over [OF True, of kept chunks] by (elim exE)
    with all show ?thesis
      using True by (simp add: limit_data_step)
  next
    case False
    then show ?thesis
      using Cons.IH [of "n + of_nat (length c)" "kept @ [c]"]
      by (cases "chunks = []") (auto simp: limit_data_step add.assoc)
  qed
qed simp

text \<open>A body is passed on unchanged as long as it is not longer than the limit; a longer one
  gets the status 413 and nothing of it is passed on.\<close>
theorem body_limited:
  "limit_body m chunks =
     (if 0 < m \<and> m < of_nat (sum_list (map length chunks)) then Inl (reply 413 [] ''Request Entity Too Large'')
      else Inr chunks)"
proof (cases "chunks = []")
  case True
  then show ?thesis by (simp add: limit_body_def)
next
  case False
  obtain n' kept' where "foldl (limit_data m) (0, True, []) chunks =
     (if m < 0 + of_nat (sum_list (map length chunks)) \<and> chunks \<noteq> [] then (n', False, kept') else (n', True, [] @ chunks))"
    using limit_data_run [of m 0 "[]" chunks] by (elim exE)
  then show ?thesis using False by (simp add: limit_body_def)
qed

text \<open>A domain without a route type is routed as HTTP, but its bodies are not limited.\<close>

lemma default_type_unlimited:
  assumes "rt_domain st = Some d" "pd_type d = None"
  shows "limit_body (body_limit conf st) chunks = Inr chunks"
  using assms by (simp add: body_limit_def limit_body_def split: option.split)

end
