(* ===== verification/Pjs_Forward.thy ===== *)
theory Pjs_Forward
  imports Pjs_Route Session
begin

text \<open>
  \<open>pjs/http/service.js\<close>, \<open>pjs/http/default.js\<close> and \<open>pjs/http/forward.js\<close>, with \<open>failover\<close> of
  \<open>pjs/lib/utils.js\<close>: the service of a request, its target with sticky cookies, the retries
  and the change to the failover targets. The load balancers of \<open>algo\<close> are parameters: what
  a balancer lends for one request is an input.
\<close>

subsection \<open>The service of a request\<close>

record auth_conf =
  ac_enabled :: bool
  ac_type :: "string option"

text \<open>\<open>authorized\<close>: there is a consumer, and it has passed the authorization of headers.\<close>

definition unauthorized :: "auth_conf \<Rightarrow> bool \<Rightarrow> bool" where
  "unauthorized a authorized \<longleftrightarrow> ac_enabled a \<and> \<not> authorized"

definition unauthorized_message :: "auth_conf \<Rightarrow> message" where
  "unauthorized_message a =
     (if ac_type a = Some ''Basic'' then reply 401 [(''WWW-Authenticate'', One ''Basic realm=fgw'')] [] else reply 401 [] [])"

definition forwarded_for :: "string \<Rightarrow> headers \<Rightarrow> headers" where
  "forwarded_for remote hs =
     (let xff = obj_get hs ''x-forwarded-for'' in
      obj_set ''x-forwarded-for'' (One (if header_truthy xff then header_text (the xff) @ '', '' @ remote else remote)) hs)"

datatype service_way = Unauthorized message | ServeFiles string | ToService string headers | NoService headers

text \<open>\<open>lent\<close> is the name that the balancer of the rule lends, \<open>known\<close> the configured services.\<close>

definition service_of :: "(string \<Rightarrow> bool) \<Rightarrow> string option \<Rightarrow> string option" where
  "service_of known lent = (if truthy lent \<and> known (the lent) then lent else None)"

definition service_start ::
    "(string \<Rightarrow> bool) \<Rightarrow> auth_conf \<Rightarrow> bool \<Rightarrow> string option \<Rightarrow> string option \<Rightarrow> string \<Rightarrow> headers \<Rightarrow> service_way" where
  "service_start known a authorized serverRoot lent remote hs =
     (let svc = (if truthy serverRoot then None else service_of known lent);
          hs1 = (if svc = None then hs else forwarded_for remote hs)
      in if unauthorized a authorized then Unauthorized (unauthorized_message a)
         else if truthy serverRoot then ServeFiles (the serverRoot)
         else case svc of Some name \<Rightarrow> ToService name hs1 | None \<Rightarrow> NoService hs1)"

definition default_message :: "headers \<Rightarrow> message" where
  "default_message hs =
     (if header_truthy (obj_get hs ''x-forwarded-for'') then reply 502 [] ''Proxy Error'' else reply 404 [] ''Not found'')"

subsection \<open>The configuration of a service\<close>

record pj_endpoint =
  en_weight :: num_js
  en_host :: "string option"
  en_cert :: "string option"
  en_useSSL :: bool

record pj_service =
  sv_name :: string
  sv_algorithm :: "string option"
  sv_endpoints :: "pj_endpoint obj"
  sv_cookie :: "string option"
  sv_expires :: "nat option"
  sv_retries :: "nat option"
  sv_retryOn :: "string option"
  sv_backoff :: num_js
  sv_cert :: "string option"
  sv_mtls :: bool

text \<open>The endpoints and weights for the balancer; endpoints of weight 0 are left out only when
  the algorithm is spelled out as round robin.\<close>

definition balanced_endpoints :: "pj_service \<Rightarrow> num_js obj" where
  "balanced_endpoints s =
     filter (\<lambda>(k, w). sv_algorithm s \<noteq> Some ''RoundRobinLoadBalancer'' \<or> num_gt w 0)
       (map (\<lambda>(k, v). (k, en_weight v)) (sv_endpoints s))"

datatype balancer_kind = ByHash | LeastWork | OfName string

definition balancer_kind :: "pj_service \<Rightarrow> balancer_kind" where
  "balancer_kind s =
     (if sv_algorithm s = Some ''HashingLoadBalancer'' then ByHash
      else if sv_algorithm s = Some ''LeastConnectionLoadBalancer'' then LeastWork
      else OfName (or_else (sv_algorithm s) ''RoundRobinLoadBalancer''))"

definition failover_endpoints :: "pj_service \<Rightarrow> num_js obj option" where
  "failover_endpoints s =
     (let obj = map (\<lambda>(k, v). (k, Some 1)) (filter (\<lambda>(k, v). en_weight v = Some 0) (sv_endpoints s)) in
      if obj = [] then None else Some obj)"

text \<open>\<open>code | 0\<close>: the integer part of a number text, 0 for anything else.\<close>

definition int_of_text :: "string \<Rightarrow> int" where
  "int_of_text s = (case to_number s of None \<Rightarrow> 0 | Some x \<Rightarrow> if x < 0 then - \<lfloor>- x\<rfloor> else \<lfloor>x\<rfloor>)"

definition code_covers :: "string \<Rightarrow> nat \<Rightarrow> bool" where
  "code_covers code status =
     (if ends_with ''xx'' code then
        (let d = int_of_text (take 1 code) * 100 in d \<le> int status \<and> int status < d + 100)
      else int status = int_of_text code)"

definition retry_status :: "pj_service \<Rightarrow> nat option \<Rightarrow> bool" where
  "retry_status s status =
     (case status of None \<Rightarrow> False
      | Some n \<Rightarrow> list_ex (\<lambda>code. code_covers code n) (split_on CHR '','' (or_else (sv_retryOn s) ''5xx'')))"

definition backoff_base :: "pj_service \<Rightarrow> num_js" where
  "backoff_base s = (if num_gt (sv_backoff s) 1 then Some 1 else sv_backoff s)"

text \<open>
  The delay before a replay, in seconds: doubled with every retry up to ten times the base.
  The power is cut to 32 bits, so that it is negative at the 32nd retry and 0 afterwards.
\<close>

definition int32 :: "int \<Rightarrow> int" where
  "int32 x = (x + 2 ^ 31) mod 2 ^ 32 - 2 ^ 31"

definition replay_delay :: "pj_service \<Rightarrow> nat \<Rightarrow> num_js" where
  "replay_delay s n =
     map_option (\<lambda>b. b * of_int (min 10 (if n = 0 then 0 else int32 (2 ^ (n - 1))))) (backoff_base s)"

definition http_version :: "string option \<Rightarrow> nat" where
  "http_version ty = (if ty = Some ''GRPC'' \<or> ty = Some ''HTTP2'' then 2 else 1)"

text \<open>For whom a target is borrowed: one request, one stream of the route, or the connection.\<close>

datatype borrow_scope = OneRequest | OneSession | OneConnection

definition borrow_scope :: "bool \<Rightarrow> bool option \<Rightarrow> nat \<Rightarrow> borrow_scope" where
  "borrow_scope http1PerRequest http2PerRequest version =
     (if version = 2 then (if or_default http2PerRequest True then OneRequest else OneConnection)
      else if http1PerRequest then OneSession else OneConnection)"

subsection \<open>Retries\<close>

record fwd_state =
  fw_count :: nat
  fw_onFailover :: bool
  fw_failover :: bool
  fw_retry :: nat
  fw_success :: nat
  fw_limit :: nat

definition start_forward :: "pj_service \<Rightarrow> fwd_state" where
  "start_forward s =
     \<lparr>fw_count = 0, fw_onFailover = False, fw_failover = (failover_endpoints s \<noteq> None),
      fw_retry = 0, fw_success = 0, fw_limit = 0\<rparr>"

definition retry_limit :: "pj_service \<Rightarrow> nat" where
  "retry_limit s = or_default (sv_retries s) 0"

definition should_retry :: "pj_service \<Rightarrow> nat option \<Rightarrow> fwd_state \<Rightarrow> bool \<times> fwd_state" where
  "should_retry s status st =
     (let (again, st1) =
        (if retry_status s status then
           (if fw_count st < retry_limit s
            then (True, st\<lparr>fw_count := fw_count st + 1, fw_retry := fw_retry st + 1\<rparr>)
            else (False, st\<lparr>fw_limit := fw_limit st + 1\<rparr>))
         else (False, if 0 < fw_count st then st\<lparr>fw_success := fw_success st + 1\<rparr> else st))
      in if \<not> again \<and> fw_failover st1 \<and> (case status of None \<Rightarrow> True | Some n \<Rightarrow> n = 0 \<or> 499 < n)
         then (True, st1\<lparr>fw_onFailover := True, fw_failover := False, fw_count := 0\<rparr>)
         else (again, st1))"

text \<open>
  An attempt is answered with a status, or finds no target. Without a target the failover
  targets are next, with the count of retries as it is; when there are none, the rest of the
  chain answers, with the status that \<open>NoTarget\<close> carries.
\<close>

datatype attempt = Answered "nat option" | NoTarget nat

definition attempt_step :: "pj_service \<Rightarrow> attempt \<Rightarrow> fwd_state \<Rightarrow> bool \<times> fwd_state" where
  "attempt_step s a st =
     (case a of
        Answered status \<Rightarrow> should_retry s status st
      | NoTarget status \<Rightarrow>
          if fw_failover st then (True, st\<lparr>fw_onFailover := True, fw_failover := False\<rparr>)
          else should_retry s (Some status) st)"

text \<open>
  The replays: \<open>resp i\<close> is the outcome of the \<open>i\<close>th attempt. Without retries and failover
  targets there is no replay and the first response is passed on.
\<close>

function forward_run :: "pj_service \<Rightarrow> (nat \<Rightarrow> attempt) \<Rightarrow> nat \<Rightarrow> fwd_state \<Rightarrow> nat \<times> fwd_state" where
  "forward_run s resp i st =
     (if fst (attempt_step s (resp i) st) then forward_run s resp (Suc i) (snd (attempt_step s (resp i) st))
      else (i, snd (attempt_step s (resp i) st)))"
  by pat_completeness auto

definition attempts_left :: "pj_service \<Rightarrow> fwd_state \<Rightarrow> nat" where
  "attempts_left s st = (if fw_failover st then Suc (retry_limit s) else 0) + (retry_limit s - fw_count st)"

lemma should_retry_decreases:
  "fst (should_retry s status st) \<Longrightarrow> attempts_left s (snd (should_retry s status st)) < attempts_left s st"
  by (auto simp: should_retry_def attempts_left_def Let_def split: if_splits)

lemma attempt_step_decreases:
  "fst (attempt_step s a st) \<Longrightarrow> attempts_left s (snd (attempt_step s a st)) < attempts_left s st"
proof (cases a)
  case (Answered status)
  then show "fst (attempt_step s a st) \<Longrightarrow> ?thesis" using should_retry_decreases by (simp add: attempt_step_def)
next
  case (NoTarget status)
  show "fst (attempt_step s a st) \<Longrightarrow> ?thesis"
  proof (cases "fw_failover st")
    case True
    then show ?thesis using NoTarget by (simp add: attempt_step_def attempts_left_def)
  next
    case False
    assume "fst (attempt_step s a st)"
    then show ?thesis using NoTarget False should_retry_decreases by (simp add: attempt_step_def)
  qed
qed

termination forward_run
  by (relation "measure (\<lambda>(s, resp, i, st). attempts_left s st)") (auto simp: attempt_step_decreases)

declare forward_run.simps [simp del]

definition forward_request :: "pj_service \<Rightarrow> (nat \<Rightarrow> attempt) \<Rightarrow> nat \<times> fwd_state" where
  "forward_request s resp =
     (if retry_limit s \<noteq> 0 \<or> fw_failover (start_forward s) then forward_run s resp 0 (start_forward s)
      else (0, start_forward s))"

text \<open>An attempt that is not good enough for the client, while anything else can be tried.\<close>

definition failed :: "attempt \<Rightarrow> bool" where
  "failed a = (case a of NoTarget status \<Rightarrow> True | Answered None \<Rightarrow> True | Answered (Some n) \<Rightarrow> n = 0 \<or> 499 < n)"

definition bad_status :: "attempt \<Rightarrow> bool" where
  "bad_status a = (case a of NoTarget n \<Rightarrow> 499 < n | Answered None \<Rightarrow> True | Answered (Some n) \<Rightarrow> n = 0 \<or> 499 < n)"

definition retryable :: "pj_service \<Rightarrow> attempt \<Rightarrow> bool" where
  "retryable s a = (case a of NoTarget n \<Rightarrow> retry_status s (Some n) | Answered status \<Rightarrow> retry_status s status)"

lemma attempt_step_again: "fst (attempt_step s a st) \<Longrightarrow> failed a \<or> retryable s a"
  by (auto simp: attempt_step_def should_retry_def failed_def retryable_def Let_def split: attempt.splits option.splits if_splits)

lemma attempt_step_flags:
  "fw_failover st \<or> fw_onFailover st \<Longrightarrow>
   fw_failover (snd (attempt_step s a st)) \<or> fw_onFailover (snd (attempt_step s a st))"
  by (auto simp: attempt_step_def should_retry_def Let_def split: attempt.splits if_splits)

lemma attempt_step_gives_up:
  assumes "\<not> fst (attempt_step s a st)"
  shows "bad_status a \<Longrightarrow> \<not> fw_failover (snd (attempt_step s a st))"
    and "retryable s a \<Longrightarrow> retry_limit s \<le> fw_count (snd (attempt_step s a st))"
  using assms
  by (auto simp: attempt_step_def should_retry_def bad_status_def retryable_def Let_def
      split: attempt.splits option.splits if_splits)

lemma forward_run_step:
  assumes "forward_run s resp i st = (j, st1)"
  obtains "\<not> fst (attempt_step s (resp i) st)" "j = i" "st1 = snd (attempt_step s (resp i) st)"
  | "fst (attempt_step s (resp i) st)" "forward_run s resp (Suc i) (snd (attempt_step s (resp i) st)) = (j, st1)"
proof (cases "fst (attempt_step s (resp i) st)")
  case True
  then show thesis using that(2) assms by (simp add: forward_run.simps [of s resp i])
next
  case False
  then have "forward_run s resp i st = (i, snd (attempt_step s (resp i) st))" by (simp add: forward_run.simps [of s resp i])
  then have "j = i" "st1 = snd (attempt_step s (resp i) st)" using assms by auto
  then show thesis using that(1) False by simp
qed

lemma forward_run_bound: "forward_run s resp i st = (j, st1) \<Longrightarrow> i \<le> j \<and> j \<le> i + attempts_left s st"
proof (induction s resp i st rule: forward_run.induct)
  case (1 s resp i st)
  from 1(2) show ?case
  proof (cases rule: forward_run_step)
    case 2
    then show ?thesis using 1(1) [OF 2] attempt_step_decreases [OF 2(1)] by linarith
  qed simp
qed

lemma forward_run_before:
  "forward_run s resp i st = (j, st1) \<Longrightarrow> i \<le> k \<Longrightarrow> k < j \<Longrightarrow> failed (resp k) \<or> retryable s (resp k)"
proof (induction s resp i st rule: forward_run.induct)
  case (1 s resp i st)
  from 1(2) show ?case
  proof (cases rule: forward_run_step)
    case 1
    then show ?thesis using \<open>i \<le> k\<close> \<open>k < j\<close> by simp
  next
    case 2
    show ?thesis
    proof (cases "k = i")
      case True
      then show ?thesis using attempt_step_again [OF 2(1)] by simp
    next
      case False
      then show ?thesis using 1(1) [OF 2] 1(3,4) by simp
    qed
  qed
qed

lemma forward_run_last:
  "forward_run s resp i st = (j, st1) \<Longrightarrow> fw_failover st \<or> fw_onFailover st \<or> \<not> I \<Longrightarrow>
   \<exists>st0. \<not> fst (attempt_step s (resp j) st0) \<and> st1 = snd (attempt_step s (resp j) st0) \<and>
     (fw_failover st0 \<or> fw_onFailover st0 \<or> \<not> I)"
proof (induction s resp i st rule: forward_run.induct)
  case (1 s resp i st)
  from 1(2) show ?case
  proof (cases rule: forward_run_step)
    case 1
    then show ?thesis using 1 \<open>fw_failover st \<or> fw_onFailover st \<or> \<not> I\<close> by blast
  next
    case 2
    have "fw_failover (snd (attempt_step s (resp i) st)) \<or> fw_onFailover (snd (attempt_step s (resp i) st)) \<or> \<not> I"
      using attempt_step_flags [of st s "resp i"] 1(3) by argo
    from 1(1) [OF 2 this] show ?thesis .
  qed
qed

text \<open>Replaying a request ends: there are at most \<open>NumRetries\<close> retries on the targets of the
  service and, where it has failover targets, one change to them and as many retries there;
  and only attempts that failed or that ask for a retry are replayed.\<close>
lemma replays_bounded:
  assumes "forward_request s resp = (j, st)"
  shows "j \<le> (if failover_endpoints s = None then retry_limit s else 2 * retry_limit s + 1) \<and>
     (\<forall>k < j. failed (resp k) \<or> retryable s (resp k))"
proof (cases "retry_limit s \<noteq> 0 \<or> fw_failover (start_forward s)")
  case True
  then have run: "forward_run s resp 0 (start_forward s) = (j, st)" using assms by (simp add: forward_request_def)
  have "attempts_left s (start_forward s) = (if failover_endpoints s = None then retry_limit s else 2 * retry_limit s + 1)"
    by (simp add: attempts_left_def start_forward_def)
  then show ?thesis using forward_run_bound [OF run] forward_run_before [OF run] by simp
next
  case False
  then show ?thesis using assms by (simp add: forward_request_def)
qed


definition ex_service :: pj_service where
  "ex_service = \<lparr>sv_name = ''s'', sv_algorithm = None,
     sv_endpoints = [(''a:1'', \<lparr>en_weight = Some 1, en_host = None, en_cert = None, en_useSSL = False\<rparr>),
                     (''b:1'', \<lparr>en_weight = Some 0, en_host = None, en_cert = None, en_useSSL = False\<rparr>)],
     sv_cookie = Some ''sid'', sv_expires = None, sv_retries = Some 1, sv_retryOn = Some ''5xx,429'', sv_backoff = Some 1,
     sv_cert = None, sv_mtls = False\<rparr>"

lemma ex_statuses: "retry_status ex_service (Some 503)" "\<not> retry_status ex_service (Some 200)"
  by code_simp+

lemma ex_failover: "failover_endpoints ex_service \<noteq> None" "retry_limit ex_service = 1"
  by (simp_all add: failover_endpoints_def ex_service_def retry_limit_def)

lemma ex_run:
  "forward_request ex_service (\<lambda>i. Answered (Some (if i < 3 then 503 else 200))) =
     (3, \<lparr>fw_count = 1, fw_onFailover = True, fw_failover = False, fw_retry = 2, fw_success = 1, fw_limit = 1\<rparr>)"
  "forward_request ex_service (\<lambda>i. Answered (Some 503)) =
     (3, \<lparr>fw_count = 1, fw_onFailover = True, fw_failover = False, fw_retry = 2, fw_success = 0, fw_limit = 2\<rparr>)"
  using ex_failover
  by (simp_all add: forward_request_def start_forward_def forward_run.simps attempt_step_def should_retry_def ex_statuses)


subsection \<open>The target\<close>

definition add_cookie :: "string obj \<Rightarrow> string \<Rightarrow> string obj" where
  "add_cookie ob p =
     (case split_on CHR ''='' p of k # v # vs \<Rightarrow> obj_set (trim k) (trim v) ob | ks \<Rightarrow> ob)"

definition get_cookies :: "string \<Rightarrow> string obj" where
  "get_cookies cookie = (if cookie = [] then [] else foldl add_cookie [] (split_on CHR '';'' cookie))"

text \<open>\<open>hash\<close> is \<open>algo.hash\<close>, its number as text.\<close>

definition hash_table :: "(string \<Rightarrow> string) \<Rightarrow> pj_service \<Rightarrow> string obj" where
  "hash_table hash s = foldl (\<lambda>ob k. obj_set (hash k) k ob) [] (map fst (sv_endpoints s))"

text \<open>The target that a sticky cookie names: only for a first attempt, and only while it is healthy.\<close>

definition cookie_target ::
    "(string \<Rightarrow> string) \<Rightarrow> pj_service \<Rightarrow> (string \<Rightarrow> bool) \<Rightarrow> bool \<Rightarrow> headers \<Rightarrow> string option" where
  "cookie_target hash s bad isRetry hs =
     (if \<not> truthy (sv_cookie s) \<or> isRetry then None
      else (case Option.bind (one_of (obj_get hs ''cookie'')) (\<lambda>c. obj_get (get_cookies c) (the (sv_cookie s))) of
          None \<Rightarrow> None
        | Some v \<Rightarrow> (case obj_get (hash_table hash s) v of
            None \<Rightarrow> None
          | Some k \<Rightarrow> if bad k then None else Some k)))"

text \<open>\<open>lent\<close> is what the load balancer lends, \<open>previous\<close> the target of the attempt before.\<close>

definition choose_target ::
    "(string \<Rightarrow> string) \<Rightarrow> pj_service \<Rightarrow> (string \<Rightarrow> bool) \<Rightarrow> bool \<Rightarrow> headers \<Rightarrow> string option \<Rightarrow> string option \<Rightarrow>
     string option" where
  "choose_target hash s bad isRetry hs lent previous =
     (case cookie_target hash s bad isRetry hs of
        Some t \<Rightarrow> Some t
      | None \<Rightarrow> if lent = None then previous else lent)"

text \<open>The cookie for the response, when none decided; \<open>until\<close> is the date of its end.\<close>

definition sticky_cookie ::
    "(string \<Rightarrow> string) \<Rightarrow> pj_service \<Rightarrow> string \<Rightarrow> bool \<Rightarrow> string \<Rightarrow> string option" where
  "sticky_cookie hash s until decided target =
     (if decided \<or> \<not> truthy (sv_cookie s) \<or> obj_get (sv_endpoints s) target = None \<or> hash target = ''0'' then None
      else Some (the (sv_cookie s) @ ''='' @ hash target @ ''; path=/; expires='' @ until @
                 ''; max-age='' @ nat_str (or_else_nat (sv_expires s) 3600)))"

definition add_set_cookie :: "string \<Rightarrow> headers \<Rightarrow> headers" where
  "add_set_cookie c hs =
     obj_set ''set-cookie''
       (Many (case obj_get hs ''set-cookie'' of
          None \<Rightarrow> [c] | Some (One v) \<Rightarrow> if v = [] then [c] else [v, c] | Some (Many vs) \<Rightarrow> vs @ [c])) hs"

text \<open>The head of a forwarded request and the TLS towards its target.\<close>

definition forwarded_head :: "pj_service \<Rightarrow> bool \<Rightarrow> string \<Rightarrow> head \<Rightarrow> head" where
  "forwarded_head s preserveHost target h =
     (let host = Option.bind (obj_get (sv_endpoints s) target) en_host in
      if truthy host then h\<lparr>hd_headers := obj_set ''host'' (One (the host)) (hd_headers h)\<rparr>
      else if \<not> preserveHost then h\<lparr>hd_headers := obj_set ''host'' (One target) (hd_headers h)\<rparr>
      else h)"

definition preserve_host :: "bool option \<Rightarrow> bool option \<Rightarrow> bool option \<Rightarrow> bool" where
  "preserve_host route domain conf \<longleftrightarrow> \<not> (route = Some False \<or> domain = Some False \<or> conf = Some False)"

definition target_tls :: "pj_service \<Rightarrow> string \<Rightarrow> bool \<Rightarrow> string option \<times> bool" where
  "target_tls s target useSSL =
     (let attrs = obj_get (sv_endpoints s) target;
          own = Option.bind attrs en_cert;
          cert = (if truthy own then own else sv_cert s)
      in if truthy cert then (if sv_mtls s then (cert, useSSL) else (None, True))
         else (cert, (case attrs of None \<Rightarrow> False | Some e \<Rightarrow> en_useSSL e)))"

definition show_status :: "bool \<Rightarrow> string option \<Rightarrow> head \<Rightarrow> head" where
  "show_status enabled upstreamError h =
     (if enabled \<and> 399 < hd_status h \<and> upstreamError \<noteq> Some ''ConnectionRefused''
      then h\<lparr>hd_headers := obj_set ''X-FGW-Upstream-Status'' (One (nat_str (hd_status h))) (hd_headers h)\<rparr> else h)"

subsection \<open>Sticky cookies come back\<close>

definition pair_ok :: "string \<times> string \<Rightarrow> bool" where
  "pair_ok p \<longleftrightarrow> fst p \<noteq> [] \<and> snd p \<noteq> [] \<and>
     CHR '';'' \<notin> set (fst p) \<and> CHR '';'' \<notin> set (snd p) \<and> CHR ''='' \<notin> set (fst p) \<and> CHR ''='' \<notin> set (snd p) \<and>
     list_all (\<lambda>c. \<not> is_space c) (fst p) \<and> list_all (\<lambda>c. \<not> is_space c) (snd p)"

definition cookie_line :: "(string \<times> string) list \<Rightarrow> string" where
  "cookie_line ps = join_with ''; '' (map (\<lambda>p. fst p @ CHR ''='' # snd p) ps)"

lemma split_one: "c \<notin> set s \<Longrightarrow> split_on c s = [s]"
  by (induction s) auto

lemma trim_word: "s \<noteq> [] \<Longrightarrow> list_all (\<lambda>c. \<not> is_space c) s \<Longrightarrow> trim s = s"
  by (rule trim_id) (simp_all add: list_all_iff)

lemma add_cookie_pair:
  assumes "pair_ok p"
  shows "add_cookie ob (fst p @ CHR ''='' # snd p) = obj_set (fst p) (snd p) ob"
    "add_cookie ob (CHR '' '' # fst p @ CHR ''='' # snd p) = obj_set (fst p) (snd p) ob"
proof -
  note p = assms [unfolded pair_ok_def]
  have one: "split_on CHR ''='' (fst p) = [fst p]" "split_on CHR ''='' (snd p) = [snd p]"
    "split_on CHR ''='' (CHR '' '' # fst p) = [CHR '' '' # fst p]"
    using p by (intro split_one; simp)+
  have eq: "split_on CHR ''='' (fst p @ CHR ''='' # snd p) = [fst p, snd p]"
    "split_on CHR ''='' ((CHR '' '' # fst p) @ CHR ''='' # snd p) = [CHR '' '' # fst p, snd p]"
    unfolding split_append_sep one by simp_all
  have trims: "trim (fst p) = fst p" "trim (snd p) = snd p"
    using p by (intro trim_word; simp)+
  show "add_cookie ob (fst p @ CHR ''='' # snd p) = obj_set (fst p) (snd p) ob"
    unfolding add_cookie_def eq(1) by (simp add: trims)
  show "add_cookie ob (CHR '' '' # fst p @ CHR ''='' # snd p) = obj_set (fst p) (snd p) ob"
    using eq(2) by (simp add: add_cookie_def trims trim_space)
qed

lemma get_cookies_rest:
  assumes "\<forall>p \<in> set ps. pair_ok p" "ps \<noteq> []" "sp = [] \<or> sp = '' ''"
  shows "foldl add_cookie ob (split_on CHR '';'' (sp @ cookie_line ps)) = foldl (\<lambda>ob p. obj_set (fst p) (snd p) ob) ob ps"
  using assms
proof (induction ps arbitrary: ob sp)
  case (Cons p ps)
  let ?p = "fst p @ CHR ''='' # snd p"
  have p: "pair_ok p" and ps: "\<forall>p \<in> set ps. pair_ok p" using Cons.prems(1) by simp_all
  have one: "split_on CHR '';'' (sp @ ?p) = [sp @ ?p]"
    using p Cons.prems(3) by (intro split_one) (elim disjE; simp add: pair_ok_def)
  have add: "add_cookie ob (sp @ ?p) = obj_set (fst p) (snd p) ob" for ob
    using add_cookie_pair [OF p] Cons.prems(3) by (elim disjE) simp_all
  show ?case
  proof (cases "ps = []")
    case True
    then show ?thesis using one add by (simp add: cookie_line_def)
  next
    case False
    then have "sp @ cookie_line (p # ps) = (sp @ ?p) @ CHR '';'' # ('' '' @ cookie_line ps)"
      by (cases ps) (simp_all add: cookie_line_def)
    then have "split_on CHR '';'' (sp @ cookie_line (p # ps)) = (sp @ ?p) # split_on CHR '';'' ('' '' @ cookie_line ps)"
      using one by (simp only: split_append_sep) simp
    then show ?thesis using Cons.IH [OF ps False, of "'' ''"] add by simp
  qed
qed simp

lemma foldl_obj_set:
  "distinct (map fst ps) \<Longrightarrow> obj_get (foldl (\<lambda>ob p. obj_set (fst p) (snd p) ob) ob ps) k =
     (case map_of ps k of Some v \<Rightarrow> Some v | None \<Rightarrow> obj_get ob k)"
proof (induction ps arbitrary: ob)
  case (Cons p ps)
  have "fst p = k \<Longrightarrow> map_of ps k = None" using Cons.prems by (auto simp: map_of_eq_None_iff)
  then show ?case using Cons.IH Cons.prems by (cases p; cases "map_of ps k") auto
qed simp

lemma get_cookies_line:
  assumes "\<forall>p \<in> set ps. pair_ok p" "distinct (map fst ps)" "(k, v) \<in> set ps"
  shows "obj_get (get_cookies (cookie_line ps)) k = Some v"
proof -
  have ne: "ps \<noteq> []" using assms(3) by auto
  then have "cookie_line ps \<noteq> []" by (cases ps; cases "tl ps") (simp_all add: cookie_line_def)
  then show ?thesis
    using get_cookies_rest [OF assms(1) ne, of "[]" "[]"] assms(2,3) by (simp add: get_cookies_def foldl_obj_set)
qed

lemma hash_table_get:
  assumes "inj_on hash (fst ` set (sv_endpoints s))" "obj_get (sv_endpoints s) k \<noteq> None"
  shows "obj_get (hash_table hash s) (hash k) = Some k"
proof -
  have tab: "obj_get (foldl (\<lambda>ob k. obj_set (hash k) k ob) ob ks) (hash k) = (if k \<in> set ks then Some k else obj_get ob (hash k))"
    if "inj_on hash (insert k (set ks))" for ob ks
    using that
  proof (induction ks arbitrary: ob)
    case (Cons x ks)
    have "inj_on hash (insert k (set ks))" using Cons.prems by (rule inj_on_subset) auto
    moreover have "hash x = hash k \<longleftrightarrow> x = k" using Cons.prems by (auto simp: inj_on_def)
    ultimately show ?case using Cons.IH by auto
  qed simp
  have k: "k \<in> set (map fst (sv_endpoints s))" using assms(2) by (simp add: map_of_eq_None_iff)
  then have "insert k (set (map fst (sv_endpoints s))) = fst ` set (sv_endpoints s)" by (simp add: insert_absorb)
  then have "inj_on hash (insert k (set (map fst (sv_endpoints s))))" using assms(1) by simp
  from tab [OF this, of "[]"] show ?thesis using k by (simp add: hash_table_def)
qed



text \<open>A cookie keeps the targets of weight 0, which only serve as failover, in use: they have hashes too.\<close>

lemma cookie_reaches_failover:
  "choose_target id ex_service (\<lambda>t. False) False [(''cookie'', One ''sid=b:1'')] (Some ''a:1'') None = Some ''b:1''"
  by code_simp

text \<open>Codes after a comma and a space: the digit before \<open>xx\<close> is read from the space.\<close>

lemma spaced_codes_ignored:
  "\<not> retry_status (ex_service\<lparr>sv_retryOn := Some ''5xx, 4xx''\<rparr>) (Some 404)"
  by code_simp

end
