(* ===== verification/Pjs_Auth.thy ===== *)
theory Pjs_Auth
  imports Pjs_Forward Json
begin

text \<open>
  Authorization by a subrequest (\<open>pjs/http/sr-auth.js\<close>): the token of a request is sent to a
  server with the method and the path; the request goes on only when the server agrees. The
  server is a parameter, as are the decoder of its answer's body and the text that a JSON value
  gets in a header or after \<open>+\<close>.
\<close>

subsection \<open>The token\<close>

text \<open>The part of a path after the first question mark, up to the next one.\<close>

definition query_part :: "string \<Rightarrow> string option" where
  "query_part path = (case split_on CHR ''?'' path of p # q # qs \<Rightarrow> Some q | ps \<Rightarrow> None)"

definition get_args :: "string option \<Rightarrow> string obj option" where
  "get_args arg = (if truthy arg then Some (foldl add_cookie [] (split_on CHR ''&'' (the arg))) else None)"

text \<open>Without an authorization header the argument \<open>jwt\<close> of the path is taken, then the cookie. A
  repeated cookie header is an array, which has no \<open>split\<close>.\<close>

definition fetch_jwt_token :: "head \<Rightarrow> js_error + header_val option" where
  "fetch_jwt_token h =
     (let bearer = obj_get (hd_headers h) ''authorization'' in
      if header_truthy bearer then
        Inr (Some (case the bearer of
            One s \<Rightarrow> One (if starts_with ''Bearer '' s \<or> starts_with ''bearer '' s then drop 7 s else s)
          | Many vs \<Rightarrow> Many vs))
      else
        (let jwt = (case get_args (query_part (hd_path h)) of None \<Rightarrow> None | Some args \<Rightarrow> obj_get args ''jwt'') in
         if truthy jwt then Inr (map_option One jwt)
         else (case obj_get (hd_headers h) ''cookie'' of
             None \<Rightarrow> Inr (map_option One jwt)
           | Some (Many vs) \<Rightarrow> Inl TypeError
           | Some (One c) \<Rightarrow> Inr (map_option One (if c = [] then jwt else obj_get (get_cookies c) ''jwt'')))))"

subsection \<open>The subrequest\<close>

record acl_query =
  aq_uri :: string
  aq_method :: string
  aq_token :: header_val

definition path_part :: "string \<Rightarrow> string" where
  "path_part path = (case split_on CHR ''?'' path of [] \<Rightarrow> [] | p # ps \<Rightarrow> p)"

definition async_acl :: "string \<Rightarrow> string \<Rightarrow> header_val \<Rightarrow> acl_query" where
  "async_acl action req_uri req_token = \<lparr>aq_uri = req_uri, aq_method = action, aq_token = req_token\<rparr>"

text \<open>The answer: a status, unless the connection failed, and the decoded body.\<close>

record acl_reply =
  ar_status :: "nat option"
  ar_json :: "json option"

definition agrees :: "acl_reply \<Rightarrow> bool" where
  "agrees r \<longleftrightarrow> loose_num (json_get (ar_json r) ''code'') = Some 200 \<and>
     json_truthy (json_get (json_get (ar_json r) ''data'') ''auth'')"

datatype auth_way = Chained head | Refused message

definition acl_decision :: "(json option \<Rightarrow> string) \<Rightarrow> acl_reply \<Rightarrow> header_val \<Rightarrow> head \<Rightarrow> auth_way" where
  "acl_decision str r jwt h =
     (if ar_status r \<noteq> Some 200 then Refused (reply 403 [] ''request to acl-server failed'')
      else if 0 < keys_count (ar_json r) then
        (if agrees r then
           (let d = json_get (ar_json r) ''data'' in
            Chained (h\<lparr>hd_headers :=
              obj_set ''ai-jwt-token'' jwt
                (obj_set ''tenantcode'' (One (str (json_get d ''tenantCode'')))
                  (obj_set ''username'' (One (str (json_get d ''userName''))) (hd_headers h)))\<rparr>))
         else Refused (reply 403 [] (''status/auth error: '' @ str (json_get (ar_json r) ''code''))))
      else Refused (reply 403 [] ''json decode error''))"

text \<open>\<open>enabled\<close> is the switch of the route and \<open>addr\<close> the address of the server.\<close>

definition sr_auth ::
    "(json option \<Rightarrow> string) \<Rightarrow> (string \<Rightarrow> acl_query \<Rightarrow> acl_reply) \<Rightarrow> bool \<Rightarrow> string option \<Rightarrow> head \<Rightarrow>
     js_error + auth_way" where
  "sr_auth str server enabled addr h =
     (if enabled \<and> truthy addr then
        bind_res (fetch_jwt_token h) (\<lambda>jwt.
          if header_truthy jwt then
            Inr (acl_decision str
              (server (the addr) (async_acl (hd_method h) (path_part (hd_path h)) (the jwt))) (the jwt) h)
          else Inr (Refused (reply 403 [] ''no jwt'')))
      else Inr (Chained h))"

lemma agrees_keys: "agrees r \<Longrightarrow> 0 < keys_count (ar_json r)"
  by (cases "ar_json r" rule: keys_count.cases) (auto simp: agrees_def)

definition identified :: "(json option \<Rightarrow> string) \<Rightarrow> acl_reply \<Rightarrow> header_val \<Rightarrow> headers \<Rightarrow> headers" where
  "identified str r jwt hs =
     (let d = json_get (ar_json r) ''data'' in
      obj_set ''ai-jwt-token'' jwt
        (obj_set ''tenantcode'' (One (str (json_get d ''tenantCode'')))
          (obj_set ''username'' (One (str (json_get d ''userName''))) hs)))"

lemma acl_decision_Chained:
  "acl_decision str r jwt h = Chained h' \<longleftrightarrow>
     ar_status r = Some 200 \<and> agrees r \<and> h' = h\<lparr>hd_headers := identified str r jwt (hd_headers h)\<rparr>"
  using agrees_keys [of r] by (auto simp: acl_decision_def identified_def Let_def)

lemma acl_decision_Refused: "acl_decision str r jwt h = Refused m \<Longrightarrow> hd_status (ms_head m) = 403"
  by (auto simp: acl_decision_def Let_def reply_def split: if_splits)

text \<open>C37: Behind a subrequest authorization a request passes exactly when it has a token that was
  put to the server with the method and the path of the request and the server agreed; it
  then carries the identity that the server named, whatever the client sent under these
  headers. Every refusal has status 403.\<close>
theorem authorized_by_server:
  assumes "truthy addr"
  shows "(sr_auth str server True addr h = Inr (Chained h') \<longleftrightarrow>
       (\<exists>jwt. fetch_jwt_token h = Inr (Some jwt) \<and> header_truthy (Some jwt) \<and>
          (let r = server (the addr) \<lparr>aq_uri = path_part (hd_path h), aq_method = hd_method h, aq_token = jwt\<rparr> in
           ar_status r = Some 200 \<and> agrees r \<and> h' = h\<lparr>hd_headers := identified str r jwt (hd_headers h)\<rparr>))) \<and>
     (sr_auth str server True addr h = Inr (Refused m) \<longrightarrow> hd_status (ms_head m) = 403)"
proof
  show "sr_auth str server True addr h = Inr (Chained h') \<longleftrightarrow>
       (\<exists>jwt. fetch_jwt_token h = Inr (Some jwt) \<and> header_truthy (Some jwt) \<and>
          (let r = server (the addr) \<lparr>aq_uri = path_part (hd_path h), aq_method = hd_method h, aq_token = jwt\<rparr> in
           ar_status r = Some 200 \<and> agrees r \<and> h' = h\<lparr>hd_headers := identified str r jwt (hd_headers h)\<rparr>))"
  proof (cases "fetch_jwt_token h")
    case (Inr jwt)
    then show ?thesis using assms
      by (cases jwt) (auto simp: sr_auth_def acl_decision_Chained async_acl_def Let_def)
  qed (simp add: sr_auth_def assms)
  show "sr_auth str server True addr h = Inr (Refused m) \<longrightarrow> hd_status (ms_head m) = 403"
    using assms acl_decision_Refused [of str _ _ h m]
    by (auto simp: sr_auth_def bind_res_Inr_iff reply_def split: if_splits)
qed

definition ex_server :: "string \<Rightarrow> acl_query \<Rightarrow> acl_reply" where
  "ex_server addr q =
     (if aq_token q = One ''abc'' \<and> aq_uri q = ''/v1/chat''
      then \<lparr>ar_status = Some 200, ar_json = Some (JObj [(''code'', JNum 200),
        (''data'', JObj [(''auth'', JBool True), (''userName'', JStr ''ann''), (''tenantCode'', JStr ''t1'')])])\<rparr>
      else \<lparr>ar_status = Some 200, ar_json = Some (JObj [(''code'', JNum 401)])\<rparr>)"

lemma authorized_by_server_witness:
  "sr_auth (\<lambda>v. case v of Some (JStr s) \<Rightarrow> s | w \<Rightarrow> ''undefined'') ex_server True (Some ''acl:80'')
     \<lparr>hd_method = ''POST'', hd_path = ''/v1/chat?jwt=abc&x=1'', hd_headers = [(''username'', One ''root'')], hd_status = 0\<rparr> =
   Inr (Chained \<lparr>hd_method = ''POST'', hd_path = ''/v1/chat?jwt=abc&x=1'',
     hd_headers = [(''username'', One ''ann''), (''tenantcode'', One ''t1''), (''ai-jwt-token'', One ''abc'')], hd_status = 0\<rparr>)"
proof (rule authorized_by_server [THEN conjunct1, THEN iffD2])
  show "\<exists>jwt. fetch_jwt_token \<lparr>hd_method = ''POST'', hd_path = ''/v1/chat?jwt=abc&x=1'', hd_headers = [(''username'', One ''root'')], hd_status = 0\<rparr> = Inr (Some jwt) \<and>
     header_truthy (Some jwt) \<and>
     (let r = ex_server (the (Some ''acl:80'')) \<lparr>aq_uri = path_part (hd_path \<lparr>hd_method = ''POST'', hd_path = ''/v1/chat?jwt=abc&x=1'', hd_headers = [(''username'', One ''root'')], hd_status = 0\<rparr>),
            aq_method = hd_method \<lparr>hd_method = ''POST'', hd_path = ''/v1/chat?jwt=abc&x=1'', hd_headers = [(''username'', One ''root'')], hd_status = 0\<rparr>, aq_token = jwt\<rparr> in
      ar_status r = Some 200 \<and> agrees r \<and>
      \<lparr>hd_method = ''POST'', hd_path = ''/v1/chat?jwt=abc&x=1'',
        hd_headers = [(''username'', One ''ann''), (''tenantcode'', One ''t1''), (''ai-jwt-token'', One ''abc'')], hd_status = 0\<rparr> =
      \<lparr>hd_method = ''POST'', hd_path = ''/v1/chat?jwt=abc&x=1'', hd_headers = [(''username'', One ''root'')], hd_status = 0\<rparr>
        \<lparr>hd_headers := identified (\<lambda>v. case v of Some (JStr s) \<Rightarrow> s | w \<Rightarrow> ''undefined'') r jwt
          (hd_headers \<lparr>hd_method = ''POST'', hd_path = ''/v1/chat?jwt=abc&x=1'', hd_headers = [(''username'', One ''root'')], hd_status = 0\<rparr>)\<rparr>)"
    by (rule exI [of _ "One ''abc''"]) code_simp
qed simp

text \<open>Without an address the switch of a route has no effect: every request passes.\<close>

lemma no_server_no_check: "\<not> truthy addr \<Longrightarrow> sr_auth str server True addr h = Inr (Chained h)"
  by (simp add: sr_auth_def)

end
