(* ===== verification/Pjs_Plugins.thy ===== *)
theory Pjs_Plugins
  imports Pjs_Forward "HOL-Library.Word"
begin

text \<open>
  The plugins of the first version: cross-origin requests (\<open>pjs/plugins/cors.js\<close>) and traffic
  mirroring (\<open>pjs/plugins/traffic-mirror.js\<close>). Regular expressions, the text of a number in a
  header and random numbers are parameters.
\<close>

subsection \<open>CORS: the configuration\<close>

text \<open>A time with a unit: text for seconds, a number for the others, 0 when nothing fits.\<close>

datatype ttl = TtlText string | TtlNum rat

definition cut_unit :: "char \<Rightarrow> string \<Rightarrow> string option" where
  "cut_unit c s = (case index_of c s of Some (Suc n) \<Rightarrow> Some (replace_first [c] [] s) | x \<Rightarrow> None)"

fun unit_time :: "(char \<times> rat) list \<Rightarrow> string \<Rightarrow> rat" where
  "unit_time [] s = 0"
| "unit_time ((c, f) # us) s =
     (case Option.bind (cut_unit c s) to_number of
        Some x \<Rightarrow> if x \<noteq> 0 then x * f else unit_time us s
      | None \<Rightarrow> unit_time us s)"

definition cache_ttl :: "string option \<Rightarrow> ttl" where
  "cache_ttl val =
     (case val of
        None \<Rightarrow> TtlNum 0
      | Some s \<Rightarrow> (case cut_unit CHR ''s'' s of
            Some t \<Rightarrow> TtlText t
          | None \<Rightarrow> TtlNum (unit_time [(CHR ''m'', 60), (CHR ''h'', 3600), (CHR ''d'', 86400)] s)))"

definition ttl_positive :: "ttl \<Rightarrow> bool" where
  "ttl_positive t = (case t of TtlText s \<Rightarrow> num_gt (to_number s) 0 | TtlNum x \<Rightarrow> 0 < x)"

definition ttl_text :: "(rat \<Rightarrow> string) \<Rightarrow> ttl \<Rightarrow> string" where
  "ttl_text show_num t = (case t of TtlText s \<Rightarrow> s | TtlNum x \<Rightarrow> show_num x)"

record origin_conf =
  og_exact :: "string option"
  og_prefix :: "string option"
  og_regex :: "string option"

datatype origin_test = IsExact string | HasPrefix string | FitsRegex string

text \<open>An entry without any of the three makes a call of \<open>undefined\<close>.\<close>

definition origin_match :: "origin_conf list option \<Rightarrow> js_error + origin_test list" where
  "origin_match origin =
     map_res (\<lambda>o'.
       if truthy (og_exact o') then Inr (IsExact (the (og_exact o')))
       else if truthy (og_prefix o') then Inr (HasPrefix (the (og_prefix o')))
       else if truthy (og_regex o') then Inr (FitsRegex (the (og_regex o')))
       else Inl TypeError) (or_default origin [])"

record cors_conf =
  co_credentials :: bool
  co_expose :: "string list option"
  co_methods :: "string list option"
  co_headers :: "string list option"
  co_maxAge :: "string option"
  co_origins :: "origin_conf list option"

definition no_cors :: cors_conf where
  "no_cors = \<lparr>co_credentials = False, co_expose = None, co_methods = None, co_headers = None, co_maxAge = None, co_origins = None\<rparr>"

definition joined :: "string \<Rightarrow> string list option \<Rightarrow> headers" where
  "joined k v = (case v of None \<Rightarrow> [] | Some vs \<Rightarrow> [(k, One (join_with '','' vs))])"

definition origin_headers :: "cors_conf \<Rightarrow> headers" where
  "origin_headers c =
     (if co_credentials c then [(''access-control-allow-credentials'', One ''true'')] else []) @
     joined ''access-control-expose-headers'' (co_expose c)"

definition options_headers :: "(rat \<Rightarrow> string) \<Rightarrow> cors_conf \<Rightarrow> headers" where
  "options_headers show_num c =
     joined ''access-control-allow-methods'' (co_methods c) @ joined ''access-control-allow-headers'' (co_headers c) @
     (if truthy (co_maxAge c) \<and> ttl_positive (cache_ttl (co_maxAge c))
      then [(''access-control-max-age'', One (ttl_text show_num (cache_ttl (co_maxAge c))))] else [])"

subsection \<open>CORS: requests\<close>

text \<open>A repeated origin header is an array, which has no \<open>startsWith\<close>.\<close>

definition test_origin :: "(string \<Rightarrow> string \<Rightarrow> bool) \<Rightarrow> header_val \<Rightarrow> origin_test \<Rightarrow> js_error + bool" where
  "test_origin regex url t =
     (case t of
        IsExact s \<Rightarrow> Inr (url = One s)
      | HasPrefix s \<Rightarrow> (case url of One u \<Rightarrow> Inr (starts_with s u) | Many us \<Rightarrow> Inl TypeError)
      | FitsRegex s \<Rightarrow> Inr (regex s (header_text url)))"

fun any_origin :: "(string \<Rightarrow> string \<Rightarrow> bool) \<Rightarrow> header_val \<Rightarrow> origin_test list \<Rightarrow> js_error + bool" where
  "any_origin regex url [] = Inr False"
| "any_origin regex url (t # ts) = bind_res (test_origin regex url t) (\<lambda>b. if b then Inr True else any_origin regex url ts)"

datatype cors_way = Preflight message | AddHeaders headers | PassThrough

definition spread :: "headers \<Rightarrow> headers \<Rightarrow> headers" where
  "spread new hs = foldl (\<lambda>hs (k, v). obj_set k v hs) hs new"

definition cors_request ::
    "(string \<Rightarrow> string \<Rightarrow> bool) \<Rightarrow> (rat \<Rightarrow> string) \<Rightarrow> cors_conf option \<Rightarrow> head \<Rightarrow> js_error + cors_way" where
  "cors_request regex show_num conf h =
     (let c = or_default conf no_cors; origin = obj_get (hd_headers h) ''origin'' in
      bind_res (origin_match (co_origins c)) (\<lambda>tests.
        if \<not> header_truthy origin then Inr PassThrough
        else bind_res (any_origin regex (the origin) tests) (\<lambda>ok. Inr (
          if \<not> ok then PassThrough
          else if hd_method h = ''OPTIONS'' then
            Preflight (reply 200 (obj_set ''access-control-allow-origin'' (the origin)
              (spread (options_headers show_num c) (origin_headers c))) [])
          else AddHeaders (origin_headers c @ [(''access-control-allow-origin'', the origin)])))))"

definition cors_response :: "cors_way \<Rightarrow> headers \<Rightarrow> headers" where
  "cors_response way hs = (case way of AddHeaders new \<Rightarrow> spread new hs | w \<Rightarrow> hs)"

text \<open>Which origins a configuration allows.\<close>

definition allowed :: "(string \<Rightarrow> string \<Rightarrow> bool) \<Rightarrow> cors_conf \<Rightarrow> string \<Rightarrow> bool" where
  "allowed regex c u \<longleftrightarrow> (\<exists>o' \<in> set (or_default (co_origins c) []).
     if truthy (og_exact o') then u = the (og_exact o')
     else if truthy (og_prefix o') then starts_with (the (og_prefix o')) u
     else truthy (og_regex o') \<and> regex (the (og_regex o')) u)"

lemma any_origin_iff:
  "any_origin regex (One u) ts = Inr (list_ex (\<lambda>t. test_origin regex (One u) t = Inr True) ts)"
proof (induction ts)
  case (Cons t ts)
  have "\<exists>b. test_origin regex (One u) t = Inr b" by (cases t) (simp_all add: test_origin_def)
  then obtain b where "test_origin regex (One u) t = Inr b" by (elim exE)
  then show ?case using Cons.IH by simp
qed simp

lemma origin_match_allowed:
  "origin_match (co_origins c) = Inr tests \<Longrightarrow>
     list_ex (\<lambda>t. test_origin regex (One u) t = Inr True) tests = allowed regex c u"
proof -
  let ?f = "\<lambda>o'. if truthy (og_exact o') then Inr (IsExact (the (og_exact o')))
       else if truthy (og_prefix o') then Inr (HasPrefix (the (og_prefix o')))
       else if truthy (og_regex o') then Inr (FitsRegex (the (og_regex o'))) else Inl TypeError"
  have main: "map_res ?f os = Inr tests \<Longrightarrow> list_ex (\<lambda>t. test_origin regex (One u) t = Inr True) tests =
     (\<exists>o' \<in> set os. if truthy (og_exact o') then u = the (og_exact o')
     else if truthy (og_prefix o') then starts_with (the (og_prefix o')) u
     else truthy (og_regex o') \<and> regex (the (og_regex o')) u)" for os
  proof (induction os arbitrary: tests)
    case (Cons o' os)
    then obtain t ts where "?f o' = Inr t" "map_res ?f os = Inr ts" "tests = t # ts" by (auto simp: bind_res_Inr_iff)
    then show ?case using Cons.IH [of ts] by (auto simp: test_origin_def split: if_splits)
  qed simp
  show "origin_match (co_origins c) = Inr tests \<Longrightarrow> ?thesis"
    unfolding origin_match_def allowed_def by (rule main)
qed

lemma spread_snoc: "spread (new @ [(k, v)]) hs = obj_set k v (spread new hs)"
  by (simp add: spread_def)

text \<open>Only allowed origins are told that they are: with a configuration that can be read, a
  request of an origin passes unchanged exactly when no entry covers it. Otherwise the
  preflight is answered without the service and every other answer is marked, both with the
  very origin of the request.\<close>
theorem cors_only_allowed:
  assumes "obj_get (hd_headers h) ''origin'' = Some (One u)" "u \<noteq> []"
    and "cors_request regex show_num (Some c) h = Inr way"
  shows "(way = PassThrough \<longleftrightarrow> \<not> allowed regex c u) \<and>
     (allowed regex c u \<longrightarrow>
        (if hd_method h = ''OPTIONS''
         then \<exists>m. way = Preflight m \<and> obj_get (hd_headers (ms_head m)) ''access-control-allow-origin'' = Some (One u)
         else obj_get (cors_response way hs) ''access-control-allow-origin'' = Some (One u)))"
proof -
  obtain tests where tests: "origin_match (co_origins c) = Inr tests"
    using assms(3) by (auto simp: cors_request_def Let_def bind_res_Inr_iff)
  have "any_origin regex (One u) tests = Inr (allowed regex c u)"
    by (simp add: any_origin_iff origin_match_allowed [OF tests])
  then show ?thesis using assms tests
    by (auto simp: cors_request_def Let_def cors_response_def spread_snoc reply_def split: if_splits)
qed

definition ex_cors :: cors_conf where
  "ex_cors = no_cors\<lparr>co_maxAge := Some ''5m'', co_methods := Some [''GET'', ''PUT''],
     co_origins := Some [\<lparr>og_exact = None, og_prefix = Some ''https://a.'', og_regex = None\<rparr>]\<rparr>"

lemma cors_only_allowed_witness:
  "allowed (\<lambda>r s. False) ex_cors ''https://a.b'' \<and>
   (\<exists>m. Preflight (reply 200 [(''access-control-allow-methods'', One ''GET,PUT''), (''access-control-max-age'', One ''300''),
       (''access-control-allow-origin'', One ''https://a.b'')] []) = Preflight m \<and>
     obj_get (hd_headers (ms_head m)) ''access-control-allow-origin'' = Some (One ''https://a.b''))"
proof -
  let ?h = "no_head\<lparr>hd_method := ''OPTIONS'', hd_headers := [(''origin'', One ''https://a.b'')]\<rparr>"
  have "cors_request (\<lambda>r s. False) (\<lambda>x. nat_str (nat \<lfloor>x\<rfloor>)) (Some ex_cors) ?h =
    Inr (Preflight (reply 200 [(''access-control-allow-methods'', One ''GET,PUT''), (''access-control-max-age'', One ''300''),
       (''access-control-allow-origin'', One ''https://a.b'')] []))"
    by code_simp
  moreover have "allowed (\<lambda>r s. False) ex_cors ''https://a.b''" by code_simp
  ultimately show ?thesis
    using cors_only_allowed [of ?h "''https://a.b''" "\<lambda>r s. False" "\<lambda>x. nat_str (nat \<lfloor>x\<rfloor>)" ex_cors] by simp
qed

text \<open>An entry that names no origin makes every request fail.\<close>

lemma empty_origin_raises:
  "o' \<in> set (or_default (co_origins c) []) \<Longrightarrow> \<not> truthy (og_exact o') \<Longrightarrow> \<not> truthy (og_prefix o') \<Longrightarrow>
   \<not> truthy (og_regex o') \<Longrightarrow> cors_request regex show_num (Some c) h = Inl TypeError"
proof -
  let ?f = "\<lambda>o'. if truthy (og_exact o') then Inr (IsExact (the (og_exact o')))
       else if truthy (og_prefix o') then Inr (HasPrefix (the (og_prefix o')))
       else if truthy (og_regex o') then Inr (FitsRegex (the (og_regex o'))) else Inl TypeError"
  assume o: "o' \<in> set (or_default (co_origins c) [])" "\<not> truthy (og_exact o')" "\<not> truthy (og_prefix o')" "\<not> truthy (og_regex o')"
  have "o' \<in> set os \<Longrightarrow> map_res ?f os = Inl TypeError" for os
  proof (induction os)
    case (Cons a os)
    show ?case
    proof (cases "?f a")
      case (Inl e)
      then have "e = TypeError" by (auto split: if_splits)
      then show ?thesis using Inl by simp
    next
      case (Inr t)
      then have "a \<noteq> o'" using o(2-4) by auto
      then show ?thesis using Cons Inr by simp
    qed
  qed simp
  then have "origin_match (co_origins c) = Inl TypeError" using o(1) unfolding origin_match_def by blast
  then show ?thesis by (simp add: cors_request_def Let_def)
qed

subsection \<open>Traffic mirroring\<close>

record mirror_conf =
  mi_percentage :: num_js
  mi_service :: "string option"
  mi_host :: "string option"

text \<open>The service that gets the copies: as configured, but without retries.\<close>

definition mirror_service :: "pj_service obj \<Rightarrow> string option \<Rightarrow> pj_service option" where
  "mirror_service services name =
     map_option (\<lambda>s. s\<lparr>sv_name := the name, sv_retries := Some 0, sv_retryOn := None, sv_backoff := None\<rparr>)
       (Option.bind name (obj_get services))"

text \<open>A random number below \<open>2 ^ 63\<close>, halved from 64 bits, is compared with the range of the fraction.\<close>

definition sampling_range :: "rat \<Rightarrow> rat" where
  "sampling_range fraction = (if 0 < fraction then fraction else 0) * 2 ^ 63"

definition mirror_range :: "mirror_conf \<Rightarrow> rat" where
  "mirror_range c = (case mi_percentage c of None \<Rightarrow> 0 | Some f \<Rightarrow> if 0 < f then sampling_range f else 0)"

definition random_int63 :: "64 word \<Rightarrow> rat" where
  "random_int63 bits = of_nat (unat bits) / 2"

definition sampled_service :: "mirror_conf option \<Rightarrow> pj_service obj \<Rightarrow> 64 word \<Rightarrow> pj_service option" where
  "sampled_service conf services bits =
     (case conf of
        None \<Rightarrow> None
      | Some c \<Rightarrow> (case mirror_service services (mi_service c) of
            None \<Rightarrow> None
          | Some s \<Rightarrow> if random_int63 bits < mirror_range c then Some s else None))"

definition mirror_message :: "mirror_conf \<Rightarrow> message \<Rightarrow> message" where
  "mirror_message c msg =
     (if truthy (mi_host c)
      then msg\<lparr>ms_head := (ms_head msg)\<lparr>hd_headers := obj_set ''host'' (One (the (mi_host c))) (hd_headers (ms_head msg))\<rparr>\<rparr>
      else msg)"

text \<open>What is sent where: the copies, and the request that goes on.\<close>

definition mirror_request ::
    "mirror_conf option \<Rightarrow> pj_service obj \<Rightarrow> 64 word \<Rightarrow> message \<Rightarrow> (pj_service \<times> message) list \<times> message" where
  "mirror_request conf services bits msg =
     (case sampled_service conf services bits of
        None \<Rightarrow> ([], msg)
      | Some s \<Rightarrow> ([(s, mirror_message (the conf) msg)], msg))"

text \<open>The share of the 64-bit numbers for which a request is copied is the configured fraction.\<close>

lemma mirror_sampled:
  assumes "mi_percentage c = Some f" "mirror_service services (mi_service c) = Some s"
  shows "fst (mirror_request (Some c) services bits msg) =
     (if of_nat (unat bits) < f * 2 ^ 64 then [(s, mirror_message c msg)] else [])"
proof (cases "0 < f")
  case True
  then have "random_int63 bits < mirror_range c \<longleftrightarrow> rat_of_nat (unat bits) < f * 2 ^ 64"
    using assms(1) by (simp add: random_int63_def mirror_range_def sampling_range_def field_simps)
  then show ?thesis using assms(2) by (simp add: mirror_request_def sampled_service_def)
next
  case False
  have "0 \<le> rat_of_nat n" for n by simp
  from this [of "unat bits"] have pos: "0 \<le> rat_of_nat (unat bits)" .
  moreover have "f * 2 ^ 64 \<le> 0" using False by (simp add: mult_nonpos_nonneg)
  ultimately have "\<not> rat_of_nat (unat bits) < f * 2 ^ 64" by linarith
  moreover have "\<not> random_int63 bits < mirror_range c"
    using assms(1) False pos by (simp add: random_int63_def mirror_range_def not_less del: of_nat_unat)
  ultimately show ?thesis using assms(2) by (simp add: mirror_request_def sampled_service_def)
qed

lemma mirror_all:
  assumes "mi_percentage c = Some f" "1 \<le> f" "mirror_service services (mi_service c) = Some s"
  shows "mirror_request (Some c) services bits msg = ([(s, mirror_message c msg)], msg)"
proof -
  have "unat bits < 2 ^ 64" using unsigned_less [of bits, where 'a = nat] by simp
  then have "rat_of_nat (unat bits) < 2 ^ 64" by (metis of_nat_less_iff of_nat_numeral of_nat_power)
  also have "\<dots> \<le> f * 2 ^ 64" using assms(2) by simp
  finally have "fst (mirror_request (Some c) services bits msg) = [(s, mirror_message c msg)]"
    by (simp add: mirror_sampled [OF assms(1,3)])
  then show ?thesis by (auto simp: mirror_request_def split: option.splits)
qed

end
