(* ===== verification/Pjs_Observe.thy ===== *)
theory Pjs_Observe
  imports Http Machine
begin

text \<open>
  Observation in the first version: trace headers and spans (\<open>pjs/lib/tracing.js\<close>,
  \<open>pjs/http/tracing.js\<close>), remote logging (\<open>pjs/lib/logging.js\<close>, \<open>pjs/http/logging.js\<close>), metrics
  (\<open>pjs/http/metrics.js\<close>, \<open>pjs/http/codec.js\<close>) and access logs (\<open>pjs/http/access-log.js\<close>).
  Random identifiers, dates, the conversion of a hexadecimal identifier to a number and the
  loggers are parameters.
\<close>

subsection \<open>Trace headers\<close>

record pod_env =
  pe_namespace :: string
  pe_kind :: string
  pe_name :: string
  pe_pod :: string

text \<open>The first 64 bits of a UUID, without the dashes.\<close>

definition trace_id :: "string \<Rightarrow> string" where
  "trace_id uuid = filter (\<lambda>c. c \<noteq> CHR ''-'') (take 18 uuid)"

text \<open>The limit of the sampled identifiers: \<open>None\<close> samples all.\<close>

definition limited_id :: "string option \<Rightarrow> rat option" where
  "limited_id fraction =
     (if truthy fraction then
        (case to_number (the fraction) of
           None \<Rightarrow> None
         | Some f \<Rightarrow> if f * 2 ^ 63 = 0 then None else Some (f * 2 ^ 63))
      else None)"

definition id_sampled :: "(string \<Rightarrow> num_js) \<Rightarrow> rat option \<Rightarrow> header_val option \<Rightarrow> bool" where
  "id_sampled to_int63 limit traceId =
     (case limit of
        None \<Rightarrow> True
      | Some l \<Rightarrow> (case Option.bind (map_option header_text traceId) to_int63 of None \<Rightarrow> False | Some n \<Rightarrow> n < l))"

definition span_headers :: "string \<Rightarrow> headers \<Rightarrow> headers" where
  "span_headers sid hs =
     (case obj_get hs ''x-b3-spanid'' of
        Some v \<Rightarrow> if header_truthy (Some v) then obj_set ''x-b3-spanid'' (One sid) (obj_set ''x-b3-parentspanid'' v hs) else hs
      | None \<Rightarrow> hs)"

definition trace_headers :: "string \<Rightarrow> headers \<Rightarrow> headers" where
  "trace_headers sid hs =
     (if header_truthy (obj_get hs ''x-b3-traceid'') then hs
      else (let hs1 = obj_set ''x-b3-traceid'' (One sid) hs in
        if sid \<noteq> [] then obj_set ''x-b3-spanid'' (One sid) hs1 else hs1))"

definition request_id :: "string \<Rightarrow> headers \<Rightarrow> headers" where
  "request_id uuid hs =
     (if header_truthy (obj_get hs ''x-request-id'') then hs else obj_set ''x-request-id'' (One uuid) hs)"

definition stats_headers :: "pod_env \<Rightarrow> headers \<Rightarrow> headers" where
  "stats_headers env hs =
     obj_set ''fgw-stats-pod'' (One (pe_pod env)) (obj_set ''fgw-stats-name'' (One (pe_name env))
       (obj_set ''fgw-stats-kind'' (One (pe_kind env)) (obj_set ''fgw-stats-namespace'' (One (pe_namespace env)) hs)))"

definition sampled_header :: "(string \<Rightarrow> num_js) \<Rightarrow> rat option \<Rightarrow> headers \<Rightarrow> bool \<times> headers" where
  "sampled_header to_int63 limit hs =
     (if header_truthy (obj_get hs ''x-b3-sampled'') then (obj_get hs ''x-b3-sampled'' = Some (One ''1''), hs)
      else (let s = id_sampled to_int63 limit (obj_get hs ''x-b3-traceid'') in
        (s, obj_set ''x-b3-sampled'' (One (if s then ''1'' else ''0'')) hs)))"

definition init_tracing_headers ::
    "(string \<Rightarrow> num_js) \<Rightarrow> rat option \<Rightarrow> pod_env \<Rightarrow> string \<Rightarrow> string option \<Rightarrow> headers \<Rightarrow> bool \<times> headers" where
  "init_tracing_headers to_int63 limit env uuid proto hs =
     (let hs0 = (if truthy proto then obj_set ''x-forwarded-proto'' (One (the proto)) hs else hs);
          (sampled, hs1) = sampled_header to_int63 limit (trace_headers (trace_id uuid) (span_headers (trace_id uuid) hs0))
      in (sampled, stats_headers env (request_id uuid hs1)))"

text \<open>The version of the logging library decides nothing.\<close>

definition init_logging_headers :: "pod_env \<Rightarrow> string \<Rightarrow> headers \<Rightarrow> headers" where
  "init_logging_headers env uuid hs =
     stats_headers env (request_id uuid (trace_headers (trace_id uuid)
       (span_headers (trace_id uuid) (obj_set ''x-forwarded-proto'' (One ''http'') hs))))"

subsection \<open>Spans\<close>

text \<open>A header after \<open>+\<close>. Of a span the constant fields are left out.\<close>

definition plus_text :: "header_val option \<Rightarrow> string" where
  "plus_text v = (case v of None \<Rightarrow> ''undefined'' | Some w \<Rightarrow> header_text w)"

record span_env =
  sp_ip :: string
  sp_uid :: string
  sp_name :: string

record zipkin_span =
  zs_traceId :: "header_val option"
  zs_id :: "header_val option"
  zs_parentId :: "header_val option"
  zs_name :: "header_val option"
  zs_timestamp :: rat
  zs_duration :: rat
  zs_ip :: string
  zs_service :: string
  zs_tags :: "header_val option obj"

definition make_zipkin_data ::
    "span_env \<Rightarrow> rat \<Rightarrow> string option \<Rightarrow> head \<Rightarrow> string option \<Rightarrow> zipkin_span" where
  "make_zipkin_data env now protocol h service =
     (let hs = hd_headers h; txt = (\<lambda>k. map_option (\<lambda>v. One (header_text v)) (obj_get hs k)) in
      \<lparr>zs_traceId = (if header_truthy (obj_get hs ''x-b3-traceid'') then txt ''x-b3-traceid'' else obj_get hs ''x-b3-traceid''),
       zs_id = (if header_truthy (obj_get hs ''x-b3-spanid'') then txt ''x-b3-spanid'' else obj_get hs ''x-b3-spanid''),
       zs_parentId = (if header_truthy (obj_get hs ''x-b3-parentspanid'') then obj_get hs ''x-b3-parentspanid'' else None),
       zs_name = obj_get hs ''host'', zs_timestamp = now * 1000, zs_duration = 0, zs_ip = sp_ip env, zs_service = sp_name env,
       zs_tags =
         [(''component'', Some (One ''proxy'')),
          (''http.url'', Some (One (plus_text (obj_get hs ''x-forwarded-proto'') @ ''://'' @ plus_text (obj_get hs ''host'') @ hd_path h))),
          (''http.method'', Some (One (hd_method h))), (''node_id'', Some (One (sp_uid env))),
          (''http.protocol'', map_option One protocol), (''guid:x-request-id'', obj_get hs ''x-request-id''),
          (''user_agent'', obj_get hs ''user-agent''), (''upstream_service'', map_option One service),
          (''request_size'', Some (One ''0'')), (''response_size'', Some (One ''0'')),
          (''http.status_code'', Some (One ''502'')), (''peer.address'', Some (One []))]\<rparr>)"

definition save_tracing :: "rat \<Rightarrow> zipkin_span \<Rightarrow> nat \<Rightarrow> nat \<Rightarrow> nat \<Rightarrow> string option \<Rightarrow> zipkin_span" where
  "save_tracing now z status requestSize responseSize target =
     z\<lparr>zs_tags := obj_set ''response_size'' (Some (One (nat_str responseSize)))
         (obj_set ''request_size'' (Some (One (nat_str requestSize)))
           (obj_set ''http.status_code'' (Some (One (nat_str status)))
             (obj_set ''peer.address'' (map_option One target) (zs_tags z)))),
       zs_duration := now * 1000 - zs_timestamp z\<rparr>"

text \<open>A request joins the trace it belongs to: it keeps its trace, or starts one with a fresh
  identifier; its old span becomes the parent of a fresh one; and it is sampled as the
  headers that go on to the service say, where the caller's decision, if any, is kept.\<close>
theorem trace_continued:
  assumes "init_tracing_headers to_int63 limit env uuid proto hs = (sampled, hs')" "trace_id uuid \<noteq> []"
  shows "obj_get hs' ''x-b3-traceid'' =
       (if header_truthy (obj_get hs ''x-b3-traceid'') then obj_get hs ''x-b3-traceid'' else Some (One (trace_id uuid))) \<and>
     (header_truthy (obj_get hs ''x-b3-spanid'') \<or> \<not> header_truthy (obj_get hs ''x-b3-traceid'') \<longrightarrow>
        obj_get hs' ''x-b3-spanid'' = Some (One (trace_id uuid))) \<and>
     (header_truthy (obj_get hs ''x-b3-spanid'') \<longrightarrow> obj_get hs' ''x-b3-parentspanid'' = obj_get hs ''x-b3-spanid'') \<and>
     (sampled \<longleftrightarrow> obj_get hs' ''x-b3-sampled'' = Some (One ''1'')) \<and>
     (header_truthy (obj_get hs ''x-b3-sampled'') \<longrightarrow> obj_get hs' ''x-b3-sampled'' = obj_get hs ''x-b3-sampled'')"
proof -
  define hs0 where "hs0 = (if truthy proto then obj_set ''x-forwarded-proto'' (One (the proto)) hs else hs)"
  define hs1 where "hs1 = trace_headers (trace_id uuid) (span_headers (trace_id uuid) hs0)"
  obtain hs2 where hs2: "sampled_header to_int63 limit hs1 = (sampled, hs2)" "hs' = stats_headers env (request_id uuid hs2)"
    using assms(1) by (auto simp: init_tracing_headers_def hs0_def hs1_def Let_def split: prod.splits)
  have same: "obj_get hs0 k = obj_get hs k" if "k \<noteq> ''x-forwarded-proto''" for k
    using that by (simp add: hs0_def)
  have kept: "obj_get hs' k = obj_get hs2 k"
    if "k \<notin> {''x-request-id'', ''fgw-stats-pod'', ''fgw-stats-name'', ''fgw-stats-kind'', ''fgw-stats-namespace''}" for k
    using that by (simp add: hs2(2) stats_headers_def request_id_def)
  have s: "obj_get hs2 k = obj_get hs1 k" if "k \<noteq> ''x-b3-sampled''" for k
    using that hs2(1) by (auto simp: sampled_header_def Let_def split: if_splits)
  have dec: "sampled \<longleftrightarrow> obj_get hs2 ''x-b3-sampled'' = Some (One ''1'')"
    "header_truthy (obj_get hs1 ''x-b3-sampled'') \<longrightarrow> obj_get hs2 ''x-b3-sampled'' = obj_get hs1 ''x-b3-sampled''"
    using hs2(1) by (auto simp: sampled_header_def Let_def split: if_splits)
  have hs1: "obj_get hs1 ''x-b3-sampled'' = obj_get hs ''x-b3-sampled''"
    "obj_get hs1 ''x-b3-traceid'' =
       (if header_truthy (obj_get hs ''x-b3-traceid'') then obj_get hs ''x-b3-traceid'' else Some (One (trace_id uuid)))"
    "header_truthy (obj_get hs ''x-b3-spanid'') \<longrightarrow> obj_get hs1 ''x-b3-parentspanid'' = obj_get hs ''x-b3-spanid''"
    "header_truthy (obj_get hs ''x-b3-spanid'') \<or> \<not> header_truthy (obj_get hs ''x-b3-traceid'') \<longrightarrow>
       obj_get hs1 ''x-b3-spanid'' = Some (One (trace_id uuid))"
    using assms(2) by (auto simp: hs1_def trace_headers_def span_headers_def same Let_def split: option.split)
  show ?thesis using hs1 dec by (simp add: kept s)
qed

definition ex_pod_env :: pod_env where
  "ex_pod_env = \<lparr>pe_namespace = ''default'', pe_kind = ''Deployment'', pe_name = ''fgw'', pe_pod = []\<rparr>"

lemma trace_continued_witness:
  "(let hs = [(''x-b3-traceid'', One ''t''), (''x-b3-spanid'', One ''s''), (''x-b3-sampled'', One ''0'')];
        r = init_tracing_headers (\<lambda>t. Some 0) None ex_pod_env ''12-3'' None hs
    in fst r = (obj_get (snd r) ''x-b3-sampled'' = Some (One ''1''))) \<and>
   trace_id ''12-3'' = ''123''"
proof -
  obtain sampled hs' where r: "init_tracing_headers (\<lambda>t. Some 0) None ex_pod_env ''12-3'' None
      [(''x-b3-traceid'', One ''t''), (''x-b3-spanid'', One ''s''), (''x-b3-sampled'', One ''0'')] = (sampled, hs')"
    by (cases "init_tracing_headers (\<lambda>t. Some 0) None ex_pod_env ''12-3'' None
      [(''x-b3-traceid'', One ''t''), (''x-b3-spanid'', One ''s''), (''x-b3-sampled'', One ''0'')]")
  have "trace_id ''12-3'' = ''123''" by code_simp
  then show ?thesis using trace_continued [OF r] r by simp
qed

text \<open>A request with a trace but no span gets no span of its own.\<close>

lemma trace_without_span:
  "obj_get (snd (init_tracing_headers (\<lambda>t. Some 0) None ex_pod_env ''12-3'' None [(''x-b3-traceid'', One ''t'')])) ''x-b3-spanid'' = None"
  by code_simp

text \<open>A fraction of 0 samples every request.\<close>

lemma zero_fraction_samples_all: "id_sampled to_int63 (limited_id (Some ''0'')) traceId"
proof -
  have "limited_id (Some ''0'') = None" by code_simp
  then show ?thesis by (simp add: id_sampled_def)
qed

subsection \<open>The tracing module\<close>

text \<open>The two counters and the spans that were logged.\<close>

record tracing =
  tr_sampled0 :: nat
  tr_sampled1 :: nat
  tr_logged :: "zipkin_span list"

text \<open>The context of a request: the span with the size of the request, when it is sampled.\<close>

definition tracing_request ::
    "(string \<Rightarrow> num_js) \<Rightarrow> rat option \<Rightarrow> pod_env \<Rightarrow> span_env \<Rightarrow> bool \<Rightarrow> string \<Rightarrow> rat \<Rightarrow> string option \<Rightarrow> string option \<Rightarrow>
     string option \<Rightarrow> message \<Rightarrow> tracing \<Rightarrow> message \<times> (zipkin_span \<times> nat) option \<times> tracing" where
  "tracing_request to_int63 limit env senv enabled uuid now proto protocol service msg t =
     (if enabled then
        (let (sampled, hs) = init_tracing_headers to_int63 limit env uuid proto (hd_headers (ms_head msg));
             msg' = msg\<lparr>ms_head := (ms_head msg)\<lparr>hd_headers := hs\<rparr>\<rparr>
         in if sampled then
              (msg', Some (make_zipkin_data senv now protocol (ms_head msg') service, length (ms_body msg)),
               t\<lparr>tr_sampled1 := tr_sampled1 t + 1\<rparr>)
            else (msg', None, t\<lparr>tr_sampled0 := tr_sampled0 t + 1\<rparr>))
      else (msg, None, t))"

definition tracing_response ::
    "bool \<Rightarrow> rat \<Rightarrow> string option \<Rightarrow> (zipkin_span \<times> nat) option \<Rightarrow> message \<Rightarrow> tracing \<Rightarrow> tracing" where
  "tracing_response enabled now target ctx msg t =
     (case ctx of
        Some (z, requestSize) \<Rightarrow>
          if enabled then t\<lparr>tr_logged := tr_logged t @
            [save_tracing now z (hd_status (ms_head msg)) requestSize (length (ms_body msg)) target]\<rparr>
          else t
      | None \<Rightarrow> t)"

text \<open>The span of a sampled request names the trace and the span that the service was sent, and
  its duration is the time between request and response.\<close>

lemma span_of_request:
  assumes "tracing_request to_int63 limit env senv True uuid now proto protocol service msg t = (msg', Some (z, n), t')"
    and "obj_get (hd_headers (ms_head msg')) ''x-b3-traceid'' = Some (One tid)"
  shows "tr_logged (tracing_response True later target (Some (z, n)) answer t') =
     tr_logged t @ [save_tracing later z (hd_status (ms_head answer)) (length (ms_body msg)) (length (ms_body answer)) target] \<and>
     zs_traceId z = Some (One tid) \<and>
     zs_duration (save_tracing later z (hd_status (ms_head answer)) (length (ms_body msg)) (length (ms_body answer)) target) =
       1000 * (later - now) \<and>
     tr_sampled1 t' = tr_sampled1 t + 1"
  using assms
  by (auto simp: tracing_request_def tracing_response_def make_zipkin_data_def save_tracing_def Let_def
      split: prod.splits if_splits)

subsection \<open>Connections and requests: \<open>codec.js\<close>\<close>

record codec =
  cd_accepted :: int
  cd_active :: int
  cd_handled :: int
  cd_requests :: int

datatype codec_event = StreamBegin | StreamDone | RequestBegin

definition codec_step :: "codec_event \<Rightarrow> codec \<Rightarrow> codec" where
  "codec_step ev c =
     (case ev of
        StreamBegin \<Rightarrow> c\<lparr>cd_accepted := cd_accepted c + 1, cd_active := cd_active c + 1\<rparr>
      | StreamDone \<Rightarrow> c\<lparr>cd_handled := cd_handled c + 1, cd_active := cd_active c - 1\<rparr>
      | RequestBegin \<Rightarrow> c\<lparr>cd_requests := cd_requests c + 1\<rparr>)"

interpretation codec_streams: conserving_machine codec_step "\<lambda>c. cd_accepted c - cd_active c - cd_handled c"
  by unfold_locales (simp add: codec_step_def split: codec_event.split)

lemma active_streams:
  "cd_active (foldl (\<lambda>c ev. codec_step ev c) \<lparr>cd_accepted = 0, cd_active = 0, cd_handled = 0, cd_requests = 0\<rparr> evs) =
   cd_accepted (foldl (\<lambda>c ev. codec_step ev c) \<lparr>cd_accepted = 0, cd_active = 0, cd_handled = 0, cd_requests = 0\<rparr> evs) -
   cd_handled (foldl (\<lambda>c ev. codec_step ev c) \<lparr>cd_accepted = 0, cd_active = 0, cd_handled = 0, cd_requests = 0\<rparr> evs)"
  using codec_streams.conserved [of "\<lparr>cd_accepted = 0, cd_active = 0, cd_handled = 0, cd_requests = 0\<rparr>" evs] by simp

subsection \<open>Metrics: \<open>metrics.js\<close>\<close>

text \<open>A counter has a value for every list of labels; a histogram keeps what was observed.\<close>

record http_metrics =
  hm_bandwidth :: "string list \<Rightarrow> nat"
  hm_status :: "string list \<Rightarrow> nat"
  hm_latency :: "(string list \<times> rat) list"

record metrics_ctx =
  mx_service :: string
  mx_route :: string
  mx_path :: string
  mx_domain :: string
  mx_consumer :: string
  mx_target :: string
  mx_inbound :: rat
  mx_request :: rat

definition increase :: "string list \<Rightarrow> nat \<Rightarrow> (string list \<Rightarrow> nat) \<Rightarrow> string list \<Rightarrow> nat" where
  "increase labels n f = f(labels := f labels + n)"

text \<open>The labels of a request: what is missing is the empty text.\<close>

definition metrics_labels ::
    "string \<Rightarrow> string option \<Rightarrow> string option \<Rightarrow> string option \<Rightarrow> string option \<Rightarrow> string option \<Rightarrow> rat \<Rightarrow> rat \<Rightarrow> metrics_ctx" where
  "metrics_labels service route path domain consumer target inbound request =
     \<lparr>mx_service = service, mx_route = or_else route [], mx_path = or_else path [], mx_domain = or_else domain [],
      mx_consumer = or_else consumer [], mx_target = or_else target [], mx_inbound = inbound, mx_request = request\<rparr>"

text \<open>The start and the end of a response; a tail gives the sizes of a head and a body.\<close>

definition response_metrics_start :: "metrics_ctx \<Rightarrow> (nat \<times> nat) option \<Rightarrow> nat option \<Rightarrow> (nat \<Rightarrow> string) \<Rightarrow> http_metrics \<Rightarrow> http_metrics" where
  "response_metrics_start c requestTail status show_nat m =
     (let m1 = (case requestTail of
          Some (hd_size, body_size) \<Rightarrow> m\<lparr>hm_bandwidth :=
            increase [mx_service c, ''egress'', mx_route c, mx_consumer c, ''downstream''] (hd_size + body_size) (hm_bandwidth m)\<rparr>
        | None \<Rightarrow> m)
      in case status of
           Some st \<Rightarrow> if st \<noteq> 0 then m1\<lparr>hm_status :=
             increase [mx_service c, show_nat st, mx_route c, mx_path c, mx_domain c, mx_consumer c, mx_target c] 1 (hm_status m1)\<rparr>
           else m1
         | None \<Rightarrow> m1)"

definition response_metrics_end :: "metrics_ctx \<Rightarrow> rat \<Rightarrow> (nat \<times> nat) option \<Rightarrow> http_metrics \<Rightarrow> http_metrics" where
  "response_metrics_end c now tail m =
     (let label = (\<lambda>kind. [mx_service c, mx_route c, mx_consumer c, kind, mx_target c]);
          m1 = m\<lparr>hm_latency := hm_latency m @
            [(label ''upstream'', now - mx_request c), (label ''fgw'', mx_request c - mx_inbound c),
             (label ''request'', now - mx_inbound c)]\<rparr>
      in case tail of
           Some (hd_size, body_size) \<Rightarrow> m1\<lparr>hm_bandwidth :=
             increase [mx_service c, ''ingress'', mx_route c, mx_consumer c, ''downstream''] (hd_size + body_size) (hm_bandwidth m1)\<rparr>
         | None \<Rightarrow> m1)"

text \<open>Every response adds three latencies, of which the third is the sum of the others; the two
  directions of the traffic are counted under labels of their own.\<close>

lemma latencies_add_up:
  "\<exists>l1 l2 x1 x2. hm_latency (response_metrics_end c now tail m) =
     hm_latency m @ [(l1, x1), (l2, x2), ([mx_service c, mx_route c, mx_consumer c, ''request'', mx_target c], x1 + x2)]"
  by (simp add: response_metrics_end_def Let_def split: option.split prod.split)

lemma traffic_counted:
  "hm_bandwidth (response_metrics_end c now (Some (h2, b2)) (response_metrics_start c (Some (h1, b1)) status show_nat m))
     [mx_service c, ''egress'', mx_route c, mx_consumer c, ''downstream''] =
   hm_bandwidth m [mx_service c, ''egress'', mx_route c, mx_consumer c, ''downstream''] + h1 + b1 \<and>
   hm_bandwidth (response_metrics_end c now (Some (h2, b2)) (response_metrics_start c (Some (h1, b1)) status show_nat m))
     [mx_service c, ''ingress'', mx_route c, mx_consumer c, ''downstream''] =
   hm_bandwidth m [mx_service c, ''ingress'', mx_route c, mx_consumer c, ''downstream''] + h2 + b2"
  by (simp add: response_metrics_end_def response_metrics_start_def increase_def Let_def split: option.split)

subsection \<open>Access logs: \<open>access-log.js\<close>\<close>

text \<open>The file: of the route, the domain or the whole gateway. The cache has the route as its key,
  which is \<open>None\<close> for a request without one.\<close>

definition log_file :: "string option \<Rightarrow> string option \<Rightarrow> string option \<Rightarrow> string option" where
  "log_file route domain conf =
     (let al = (if truthy route then route else if truthy domain then domain else conf) in if truthy al then al else None)"

type_synonym 'r log_cache = "('r option \<times> string option) list"

definition access_log ::
    "('r \<Rightarrow> string option) \<Rightarrow> string option \<Rightarrow> 'r option \<Rightarrow> string option \<Rightarrow> 'r log_cache \<Rightarrow> string option \<times> 'r log_cache" where
  "access_log of_route conf route domain cache =
     (case map_of cache route of
        Some f \<Rightarrow> (f, cache)
      | None \<Rightarrow> (let f = log_file (Option.bind route of_route) domain conf in (f, (route, f) # cache)))"

definition template_text :: "string option \<Rightarrow> string" where
  "template_text v = (case v of None \<Rightarrow> ''undefined'' | Some s \<Rightarrow> s)"

record log_facts =
  lf_remote :: string
  lf_consumer :: "string option"
  lf_start :: rat
  lf_host :: "string option"
  lf_path :: "string option"
  lf_requestTail :: "(nat \<times> nat) option"
  lf_status :: "nat option"
  lf_responseTail :: "(nat \<times> nat) option"
  lf_agent :: "string option"
  lf_xff :: "string option"
  lf_referer :: "string option"

definition format_fn :: "(rat \<Rightarrow> string) \<Rightarrow> (rat \<Rightarrow> string) \<Rightarrow> rat \<Rightarrow> log_facts \<Rightarrow> string" where
  "format_fn date show_num now f =
     lf_remote f @ '' \"'' @ or_else (lf_consumer f) [] @ ''\" ['' @ date (lf_start f) @ ''] '' @
     show_num (now - lf_start f) @ '' '' @ or_else (lf_host f) [] @ '' \"'' @ template_text (lf_path f) @ ''\" '' @
     template_text (map_option (nat_str \<circ> fst) (lf_requestTail f)) @ '' '' @
     template_text (map_option (nat_str \<circ> snd) (lf_requestTail f)) @ '' '' @
     template_text (map_option nat_str (lf_status f)) @ '' '' @
     nat_str (or_default (map_option fst (lf_responseTail f)) 0) @ '' '' @
     nat_str (or_default (map_option snd (lf_responseTail f)) 0) @ '' \"'' @
     or_else (lf_agent f) [] @ ''\" \"'' @ or_else (lf_xff f) [] @ ''\" \"'' @ or_else (lf_referer f) [] @ ''\"''"

text \<open>As long as every route is in one domain, the cache changes nothing.\<close>

definition cache_right :: "('r \<Rightarrow> string option) \<Rightarrow> string option \<Rightarrow> ('r \<Rightarrow> string option) \<Rightarrow> 'r log_cache \<Rightarrow> bool" where
  "cache_right of_route conf domain_of_route cache \<longleftrightarrow>
     (\<forall>r f. map_of cache (Some r) = Some f \<longrightarrow> f = log_file (of_route r) (domain_of_route r) conf)"

lemma access_log_cached:
  assumes "cache_right of_route conf dm cache"
  shows "fst (access_log of_route conf (Some r) (dm r) cache) = log_file (of_route r) (dm r) conf \<and>
     cache_right of_route conf dm (snd (access_log of_route conf (Some r) (dm r) cache))"
  using assms by (auto simp: access_log_def cache_right_def Let_def split: option.splits)

text \<open>Requests without a route share one entry: they go to the file of the first one's domain.\<close>

lemma unrouted_log_shared:
  assumes "truthy (Some a)" "a \<noteq> b"
  shows "fst (access_log of_route conf None (Some b) (snd (access_log of_route conf None (Some a) []))) = Some a"
  using assms by (simp add: access_log_def log_file_def Let_def)

subsection \<open>Remote logging\<close>

record log_env =
  le_mesh :: "string option"
  le_podIp :: "string option"
  le_host :: "string option"
  le_podNs :: "string option"
  le_podName :: "string option"

record remote_entry =
  lg_reqTime :: rat
  lg_mesh :: string
  lg_remote :: "string \<times> nat"
  lg_local :: "string \<times> nat"
  lg_node :: "string \<times> string"
  lg_pod :: "string \<times> string \<times> string"
  lg_trace :: "header_val \<times> header_val \<times> header_val"
  lg_req :: "nat \<times> string \<times> head"
  lg_service :: "string \<times> string option"
  lg_res :: "nat \<times> string \<times> head"
  lg_resTime :: rat

text \<open>\<open>v || ''\<close> on a header.\<close>

definition header_or_empty :: "header_val option \<Rightarrow> header_val" where
  "header_or_empty v = (if header_truthy v then the v else One [])"

definition make_logging_data ::
    "(string \<Rightarrow> num_js) \<Rightarrow> rat option \<Rightarrow> pod_env \<Rightarrow> log_env \<Rightarrow> (string \<Rightarrow> string) \<Rightarrow> string \<Rightarrow> rat \<Rightarrow>
     string \<times> nat \<Rightarrow> string \<times> nat \<Rightarrow> message \<Rightarrow> message \<times> remote_entry option" where
  "make_logging_data to_int63 limit env lenv base64 uuid now remote local msg =
     (let hs0 = hd_headers (ms_head msg);
          hs = (if header_truthy (obj_get hs0 ''x-b3-traceid'') then hs0 else init_logging_headers env uuid hs0);
          msg' = msg\<lparr>ms_head := (ms_head msg)\<lparr>hd_headers := hs\<rparr>\<rparr>
      in (msg',
          if id_sampled to_int63 limit (obj_get hs ''x-b3-traceid'') then Some
            \<lparr>lg_reqTime = now, lg_mesh = or_else (le_mesh lenv) [], lg_remote = remote, lg_local = local,
             lg_node = (or_else (le_podIp lenv) ''127.0.0.1'', or_else (le_host lenv) ''localhost''),
             lg_pod = (or_else (le_podNs lenv) ''default'', or_else (le_podIp lenv) ''127.0.0.1'',
               or_else (le_podName lenv) (or_else (le_host lenv) ''localhost'')),
             lg_trace = (header_or_empty (obj_get hs ''x-b3-traceid''), header_or_empty (obj_get hs ''x-b3-spanid''),
               header_or_empty (obj_get hs ''x-b3-parentspanid'')),
             lg_req = (length (ms_body msg), base64 (ms_body msg), ms_head msg'),
             lg_service = ([], None), lg_res = (0, [], no_head), lg_resTime = 0\<rparr>
          else None))"

definition save_logging_data ::
    "(string \<Rightarrow> string) \<Rightarrow> rat \<Rightarrow> string option \<Rightarrow> string option \<Rightarrow> message \<Rightarrow> remote_entry \<Rightarrow> remote_entry" where
  "save_logging_data base64 now service target msg e =
     e\<lparr>lg_service := (or_else service ''anonymous'', target),
       lg_res := (length (ms_body msg), base64 (ms_body msg), ms_head msg), lg_resTime := now\<rparr>"

text \<open>The handlers: the counters of sampled requests and the entries that were sent.\<close>

definition logging_request ::
    "bool \<Rightarrow> (message \<Rightarrow> message \<times> remote_entry option) \<Rightarrow> message \<Rightarrow> nat \<times> nat \<Rightarrow> message \<times> remote_entry option \<times> nat \<times> nat" where
  "logging_request enabled mk msg counters =
     (if enabled then
        (let (msg', e) = mk msg
         in (msg', e, if e = None then (fst counters + 1, snd counters) else (fst counters, snd counters + 1)))
      else (msg, None, counters))"

definition logging_response ::
    "bool \<Rightarrow> (message \<Rightarrow> remote_entry \<Rightarrow> remote_entry) \<Rightarrow> remote_entry option \<Rightarrow> message \<Rightarrow> remote_entry list \<Rightarrow> remote_entry list" where
  "logging_response enabled save e msg sent =
     (case e of None \<Rightarrow> sent | Some x \<Rightarrow> if enabled then sent @ [save msg x] else sent)"

text \<open>An entry names the trace that the service was sent, the request with its new headers, and
  the bodies of both messages.\<close>

lemma logged_exchange:
  assumes "logging_request True (make_logging_data to_int63 limit env lenv base64 uuid now remote local) msg cs = (msg', Some e, cs')"
    and "trace_id uuid \<noteq> []"
  shows "logging_response True (save_logging_data base64 later service target) (Some e) answer sent =
       sent @ [save_logging_data base64 later service target answer e] \<and>
     lg_req e = (length (ms_body msg), base64 (ms_body msg), ms_head msg') \<and>
     obj_get (hd_headers (ms_head msg')) ''x-b3-traceid'' = Some (fst (lg_trace e)) \<and>
     fst (lg_trace e) \<noteq> One [] \<and> cs' = (fst cs, snd cs + 1)"
proof -
  let ?hs0 = "hd_headers (ms_head msg)"
  let ?hs = "if header_truthy (obj_get ?hs0 ''x-b3-traceid'') then ?hs0 else init_logging_headers env uuid ?hs0"
  have hs: "header_truthy (obj_get ?hs ''x-b3-traceid'')"
    using assms(2)
    by (simp add: init_logging_headers_def stats_headers_def request_id_def trace_headers_def span_headers_def Let_def
        split: option.split)
  then obtain v where v: "obj_get ?hs ''x-b3-traceid'' = Some v" "header_truthy (Some v)"
    by (cases "obj_get ?hs ''x-b3-traceid''") simp_all
  have "v \<noteq> One []" using v(2) by auto
  then show ?thesis
    using assms(1) v
    by (auto simp: logging_request_def logging_response_def make_logging_data_def header_or_empty_def Let_def split: if_splits)
qed

end
