(* ===== verification/Pjs_Circuit.thy ===== *)
theory Pjs_Circuit
  imports Http Machine
begin

text \<open>
  \<open>pjs/http/circuit-breaker.js\<close>, the circuit breaker of a service in the first version of the
  gateway: counters over a time window, a degraded state that ends by itself, and a timer
  that ticks every second. \<open>algo.Quota\<close> is given by \<open>consume\<close>: how much of one unit was
  granted, and the quota afterwards.
\<close>

subsection \<open>Configuration\<close>

record breaker_section =
  bs_minRequests :: "nat option"
  bs_window :: "nat option"
  bs_slowTime :: "rat option"
  bs_slowAmount :: "nat option"
  bs_slowRatio :: "rat option"
  bs_errorAmount :: "nat option"
  bs_errorRatio :: "rat option"
  bs_degraded :: "nat option"
  bs_status :: "nat option"
  bs_content :: "string option"

record breaker_conf =
  bc_minRequests :: nat
  bc_window :: nat
  bc_slowTime :: rat
  bc_slowAmount :: nat
  bc_slowRatio :: rat
  bc_errorAmount :: nat
  bc_errorRatio :: rat
  bc_degraded :: nat
  bc_status :: nat
  bc_content :: string

definition or_else_rat :: "rat option \<Rightarrow> rat \<Rightarrow> rat" where
  "or_else_rat v d = (case v of None \<Rightarrow> d | Some x \<Rightarrow> if x = 0 then d else x)"

definition read_breaker :: "breaker_section \<Rightarrow> breaker_conf" where
  "read_breaker s =
     \<lparr>bc_minRequests = or_else_nat (bs_minRequests s) 100, bc_window = or_else_nat (bs_window s) 30,
      bc_slowTime = or_else_rat (bs_slowTime s) 5, bc_slowAmount = or_else_nat (bs_slowAmount s) 0,
      bc_slowRatio = or_else_rat (bs_slowRatio s) 0, bc_errorAmount = or_else_nat (bs_errorAmount s) 0,
      bc_errorRatio = or_else_rat (bs_errorRatio s) 0, bc_degraded = or_else_nat (bs_degraded s) 30,
      bc_status = or_else_nat (bs_status s) 409, bc_content = or_else (bs_content s) ''Coming soon ...''\<rparr>"

subsection \<open>State and operations\<close>

text \<open>A quota exists only for a positive amount; it holds one unit less.\<close>

record 'q breaker =
  br_tick :: nat
  br_delay :: nat
  br_total :: nat
  br_slow :: nat
  br_error :: nat
  br_degraded :: bool
  br_slowQuota :: "'q option"
  br_errorQuota :: "'q option"

definition new_breaker :: "(nat \<Rightarrow> nat \<Rightarrow> 'q) \<Rightarrow> breaker_conf \<Rightarrow> 'q breaker" where
  "new_breaker quota c =
     \<lparr>br_tick = 0, br_delay = 0, br_total = 0, br_slow = 0, br_error = 0, br_degraded = False,
      br_slowQuota = (if 0 < bc_slowAmount c then Some (quota (bc_slowAmount c - 1) (bc_window c)) else None),
      br_errorQuota = (if 0 < bc_errorAmount c then Some (quota (bc_errorAmount c - 1) (bc_window c)) else None)\<rparr>"

definition breaker_increase :: "'q breaker \<Rightarrow> 'q breaker" where
  "breaker_increase b = b\<lparr>br_total := br_total b + 1\<rparr>"

text \<open>The test of a quota: it is exhausted when it does not grant its unit.\<close>

definition exhausted :: "('q \<Rightarrow> nat \<times> 'q) \<Rightarrow> 'q option \<Rightarrow> bool" where
  "exhausted consume q = (case q of None \<Rightarrow> False | Some x \<Rightarrow> fst (consume x) \<noteq> 1)"

definition used :: "('q \<Rightarrow> nat \<times> 'q) \<Rightarrow> 'q option \<Rightarrow> 'q option" where
  "used consume q = map_option (\<lambda>x. snd (consume x)) q"

definition ratio_reached :: "rat \<Rightarrow> nat \<Rightarrow> nat \<Rightarrow> nat \<Rightarrow> bool" where
  "ratio_reached ratio minRequests requests amount \<longleftrightarrow>
     0 < ratio \<and> minRequests \<le> requests \<and> 0 < requests \<and> ratio \<le> of_nat amount / of_nat requests"

definition check_slow ::
    "('q \<Rightarrow> nat \<times> 'q) \<Rightarrow> breaker_conf \<Rightarrow> rat \<Rightarrow> 'q breaker \<Rightarrow> 'q breaker" where
  "check_slow consume c secs b =
     (if (br_slowQuota b \<noteq> None \<or> 0 < bc_slowRatio c) \<and> bc_slowTime c \<le> secs then
        (let n = (if br_slow b < br_total b then br_slow b + 1 else br_slow b) in
         b\<lparr>br_slow := n, br_slowQuota := used consume (br_slowQuota b),
           br_degraded := (br_degraded b \<or> exhausted consume (br_slowQuota b) \<or>
             ratio_reached (bc_slowRatio c) (bc_minRequests c) (br_total b) n)\<rparr>)
      else b)"

definition check_error ::
    "('q \<Rightarrow> nat \<times> 'q) \<Rightarrow> breaker_conf \<Rightarrow> nat \<Rightarrow> 'q breaker \<Rightarrow> 'q breaker" where
  "check_error consume c status b =
     (if (br_errorQuota b \<noteq> None \<or> 0 < bc_errorRatio c) \<and> 499 < status then
        (let n = (if br_error b < br_total b then br_error b + 1 else br_error b) in
         b\<lparr>br_error := n, br_errorQuota := used consume (br_errorQuota b),
           br_degraded := (br_degraded b \<or> exhausted consume (br_errorQuota b) \<or>
             ratio_reached (bc_errorRatio c) (bc_minRequests c) (br_total b) n)\<rparr>)
      else b)"

text \<open>\<open>refreshTimer\<close>: first the degraded state, then, when it is over or was not there, the window.\<close>

definition refresh_degraded :: "breaker_conf \<Rightarrow> 'q breaker \<Rightarrow> 'q breaker" where
  "refresh_degraded c b =
     (if br_degraded b then
        (if bc_degraded c < br_delay b + 1 then
           b\<lparr>br_degraded := False, br_delay := 0, br_tick := 0, br_total := 0, br_slow := 0, br_error := 0\<rparr>
         else b\<lparr>br_delay := br_delay b + 1\<rparr>)
      else b)"

definition refresh_window :: "breaker_conf \<Rightarrow> 'q breaker \<Rightarrow> 'q breaker" where
  "refresh_window c b =
     (if br_degraded b then b
      else if bc_window c < br_tick b + 1 then b\<lparr>br_tick := 0, br_total := 0, br_slow := 0, br_error := 0\<rparr>
      else b\<lparr>br_tick := br_tick b + 1\<rparr>)"

definition refresh_timer :: "breaker_conf \<Rightarrow> 'q breaker \<Rightarrow> 'q breaker" where
  "refresh_timer c b = refresh_window c (refresh_degraded c b)"

definition breaker_message :: "breaker_conf \<Rightarrow> message" where
  "breaker_message c = reply (bc_status c) [] (bc_content c)"

text \<open>A request, a response with its status and time, a tick of the timer.\<close>

datatype breaker_event = BRequest | BResponse nat rat | BTick

definition breaker_step ::
    "('q \<Rightarrow> nat \<times> 'q) \<Rightarrow> breaker_conf \<Rightarrow> breaker_event \<Rightarrow> 'q breaker \<Rightarrow> 'q breaker" where
  "breaker_step consume c ev b =
     (case ev of
        BRequest \<Rightarrow> if br_degraded b then b else breaker_increase b
      | BResponse status secs \<Rightarrow> check_slow consume c secs (check_error consume c status b)
      | BTick \<Rightarrow> refresh_timer c b)"

definition breaker_run ::
    "('q \<Rightarrow> nat \<times> 'q) \<Rightarrow> breaker_conf \<Rightarrow> breaker_event list \<Rightarrow> 'q breaker \<Rightarrow> 'q breaker" where
  "breaker_run consume c evs b = foldl (\<lambda>b ev. breaker_step consume c ev b) b evs"

lemma breaker_run_simps [simp]:
  "breaker_run consume c [] b = b"
  "breaker_run consume c (ev # evs) b = breaker_run consume c evs (breaker_step consume c ev b)"
  by (simp_all add: breaker_run_def)

subsection \<open>The counters\<close>

definition breaker_ok :: "breaker_conf \<Rightarrow> 'q breaker \<Rightarrow> bool" where
  "breaker_ok c b \<longleftrightarrow>
     br_slow b \<le> br_total b \<and> br_error b \<le> br_total b \<and>
     br_tick b \<le> bc_window c \<and> br_delay b \<le> bc_degraded c \<and> (\<not> br_degraded b \<longrightarrow> br_delay b = 0)"

lemma check_slow_ok: "breaker_ok c b \<Longrightarrow> breaker_ok c (check_slow consume c secs b)"
  by (auto simp: breaker_ok_def check_slow_def Let_def)

lemma check_error_ok: "breaker_ok c b \<Longrightarrow> breaker_ok c (check_error consume c status b)"
  by (auto simp: breaker_ok_def check_error_def Let_def)

lemma refresh_timer_ok: "breaker_ok c b \<Longrightarrow> breaker_ok c (refresh_timer c b)"
  by (auto simp: breaker_ok_def refresh_timer_def refresh_window_def refresh_degraded_def)

lemma breaker_increase_ok: "breaker_ok c b \<Longrightarrow> breaker_ok c (breaker_increase b)"
  by (simp add: breaker_ok_def breaker_increase_def)

lemma breaker_step_ok: "breaker_ok c b \<Longrightarrow> breaker_ok c (breaker_step consume c ev b)"
  by (cases ev)
    (simp_all add: breaker_step_def breaker_increase_ok check_slow_ok check_error_ok refresh_timer_ok)

interpretation breaker: event_machine "breaker_step consume c" "breaker_ok c" for consume c
  by unfold_locales (rule breaker_step_ok)

lemma breaker_run_ok: "breaker_ok c b \<Longrightarrow> breaker_ok c (breaker_run consume c evs b)"
  unfolding breaker_run_def by (rule breaker.always)

lemma new_breaker_ok: "breaker_ok c (new_breaker quota c)"
  by (simp add: breaker_ok_def new_breaker_def)

text \<open>As long as the service stays degraded, \<open>delay\<close> counts the ticks.\<close>

lemma delay_counts:
  "\<forall>n \<le> length evs. br_degraded (breaker_run consume c (take n evs) b) \<Longrightarrow>
   br_delay (breaker_run consume c evs b) = br_delay b + length (filter (\<lambda>ev. ev = BTick) evs)"
proof (induction evs arbitrary: b)
  case (Cons ev evs)
  let ?b = "breaker_step consume c ev b"
  have deg: "br_degraded b" using Cons.prems [rule_format, of 0] by simp
  have deg1: "br_degraded ?b" using Cons.prems [rule_format, of 1] by simp
  have "\<forall>n \<le> length evs. br_degraded (breaker_run consume c (take n evs) ?b)"
  proof (intro allI impI)
    fix n assume "n \<le> length evs"
    then show "br_degraded (breaker_run consume c (take n evs) ?b)"
      using Cons.prems [rule_format, of "Suc n"] by simp
  qed
  moreover have "br_delay ?b = br_delay b + (if ev = BTick then 1 else 0)"
    using deg deg1
    by (cases ev) (auto simp: breaker_step_def check_slow_def check_error_def refresh_timer_def
        refresh_window_def refresh_degraded_def Let_def split: if_splits)
  ultimately show ?case using Cons.IH [of ?b] by simp
qed simp


definition ex_breaker :: breaker_conf where
  "ex_breaker = \<lparr>bc_minRequests = 1, bc_window = 30, bc_slowTime = 5, bc_slowAmount = 0, bc_slowRatio = 0,
     bc_errorAmount = 1, bc_errorRatio = 0, bc_degraded = 2, bc_status = 409, bc_content = []\<rparr>"


end
