(* ===== verification/Pjs_Health.thy ===== *)
theory Pjs_Health
  imports Http Machine
begin

text \<open>
  \<open>pjs/common/health-check.js\<close>, the health check of the first version of the gateway:
  targets that are probed at intervals (actively) or recover after a time (passively), and
  the caches of unhealthy targets by service, which the forwarding module asks.
\<close>

subsection \<open>Services and targets\<close>

record phc_match =
  pm_codes :: "nat list option"
  pm_body :: "string option"
  pm_headers :: "string obj option"

record phc_section =
  px_interval :: num_js
  px_maxFails :: num_js
  px_failTimeout :: num_js
  px_path :: "string option"
  px_matches :: "phc_match list option"

record phc_service =
  ps_name :: string
  ps_interval :: num_js
  ps_maxFails :: num_js
  ps_failTimeout :: num_js
  ps_path :: "string option"
  ps_matches :: "phc_match list"

definition make_phc :: "string \<Rightarrow> phc_section option \<Rightarrow> phc_service option" where
  "make_phc name s =
     map_option (\<lambda>x. \<lparr>ps_name = name, ps_interval = px_interval x, ps_maxFails = px_maxFails x,
        ps_failTimeout = px_failTimeout x, ps_path = px_path x,
        ps_matches = (case px_matches x of
            None \<Rightarrow> [\<lparr>pm_codes = Some [200], pm_body = None, pm_headers = None\<rparr>] | Some ms \<Rightarrow> ms)\<rparr>) s"

record phc_target =
  pt_ip :: string
  pt_port :: string
  pt_target :: string
  pt_service :: phc_service
  pt_alive :: nat
  pt_errors :: nat
  pt_failTick :: nat
  pt_tick :: nat
  pt_reason :: "string option"
  pt_status :: "nat option"

text \<open>\<open>substring(0, i)\<close> and \<open>substring(i + 1)\<close> at the last colon, also without one.\<close>

definition split_address :: "string \<Rightarrow> string \<times> string" where
  "split_address a =
     (case last_index_of CHR '':'' a of None \<Rightarrow> ([], a) | Some i \<Rightarrow> (take i a, drop (Suc i) a))"

definition new_phc_target :: "phc_service \<Rightarrow> string \<Rightarrow> phc_target" where
  "new_phc_target svc a =
     \<lparr>pt_ip = fst (split_address a), pt_port = snd (split_address a), pt_target = a, pt_service = svc,
      pt_alive = 1, pt_errors = 0, pt_failTick = 0, pt_tick = 0, pt_reason = None, pt_status = None\<rparr>"

definition target_key :: "phc_target \<Rightarrow> string" where
  "target_key t = pt_target t @ ''@'' @ ps_name (pt_service t)"

text \<open>The targets of the services that ask for checks; \<open>services\<close> has their endpoints.\<close>

definition checked :: "phc_section option \<Rightarrow> bool" where
  "checked s = (case s of None \<Rightarrow> False
     | Some x \<Rightarrow> num_gt (px_maxFails x) 0 \<and> (num_gt (px_interval x) 0 \<or> num_gt (px_failTimeout x) 0))"

definition phc_targets :: "(string \<times> phc_section option \<times> string list) list \<Rightarrow> phc_target obj" where
  "phc_targets services =
     foldl (\<lambda>ob (name, s, endpoints).
        if checked s then
          foldl (\<lambda>ob a. let t = new_phc_target (the (make_phc name s)) a in obj_set (target_key t) t ob) ob endpoints
        else ob) [] services"

subsection \<open>Verdicts\<close>

text \<open>
  The unhealthy targets of a service; \<open>None\<close> as long as its cache was not made. A notice goes
  to the metrics and the log: the reason, and whether the target changed.
\<close>

type_synonym unhealthy = "string list obj"

definition is_unhealthy :: "unhealthy \<Rightarrow> string \<Rightarrow> string \<Rightarrow> bool" where
  "is_unhealthy u name a = (case obj_get u name of None \<Rightarrow> False | Some ts \<Rightarrow> a \<in> set ts)"

record phc_notice =
  pn_reason :: string
  pn_status :: "nat option"
  pn_change :: int

definition phc_ok :: "phc_target \<Rightarrow> unhealthy \<Rightarrow> phc_target \<times> unhealthy \<times> phc_notice" where
  "phc_ok t u =
     (let name = ps_name (pt_service t);
          dead = (pt_alive t = 0);
          t1 = (if dead then t\<lparr>pt_alive := 1, pt_errors := 0\<rparr> else t);
          u1 = (if dead \<and> is_unhealthy u name (pt_target t)
                then obj_set name (filter (\<lambda>x. x \<noteq> pt_target t) (the (obj_get u name))) u else u)
      in (t1\<lparr>pt_reason := Some ''ok''\<rparr>, u1,
          \<lparr>pn_reason = ''ok'', pn_status = pt_status t, pn_change = (if dead then 1 else 0)\<rparr>))"

definition phc_fail :: "phc_target \<Rightarrow> unhealthy \<Rightarrow> phc_target \<times> unhealthy \<times> phc_notice" where
  "phc_fail t u =
     (let name = ps_name (pt_service t);
          t1 = t\<lparr>pt_errors := pt_errors t + 1\<rparr>;
          down = (num_ge (Some (of_nat (pt_errors t1))) (ps_maxFails (pt_service t)) \<and> pt_alive t \<noteq> 0);
          t2 = (if down then t1\<lparr>pt_alive := 0, pt_failTick := 0\<rparr> else t1);
          u1 = (if down then
                  (case obj_get u name of
                     None \<Rightarrow> obj_set name [pt_target t] u
                   | Some ts \<Rightarrow> if pt_target t \<in> set ts then u else obj_set name (ts @ [pt_target t]) u)
                else u)
      in (t2, u1, \<lparr>pn_reason = or_else (pt_reason t) ''fail'', pn_status = pt_status t,
                   pn_change = (if down then -1 else 0)\<rparr>))"

definition phc_available :: "phc_target \<Rightarrow> bool" where
  "phc_available t \<longleftrightarrow> 0 < pt_alive t"

text \<open>The rules of a match, each a positive number or its own error.\<close>

definition match_rules :: "(string \<Rightarrow> string \<Rightarrow> bool) \<Rightarrow> phc_match \<Rightarrow> (message \<Rightarrow> int) list" where
  "match_rules includes m =
     (let rs =
        (case pm_codes m of None \<Rightarrow> []
          | Some codes \<Rightarrow> [\<lambda>msg. if hd_status (ms_head msg) \<in> set codes then 1 else -1]) @
        (if truthy (pm_body m) then [\<lambda>msg. if includes (ms_body msg) (the (pm_body m)) then 1 else -2] else []) @
        (case pm_headers m of None \<Rightarrow> []
          | Some hs \<Rightarrow> map (\<lambda>(k, v) msg.
              if map_option header_text (obj_get (hd_headers (ms_head msg)) (to_lower k)) = Some v then 1 else -3) hs)
      in if rs = [] then [\<lambda>msg. -100] else rs)"

fun first_error :: "(message \<Rightarrow> int) list \<Rightarrow> message \<Rightarrow> int" where
  "first_error [] msg = 1"
| "first_error (r # rs) msg = (if 0 < r msg then first_error rs msg else r msg)"

definition phc_match_code :: "(string \<Rightarrow> string \<Rightarrow> bool) \<Rightarrow> phc_service \<Rightarrow> message \<Rightarrow> int" where
  "phc_match_code includes svc msg = first_error (concat (map (match_rules includes) (ps_matches svc))) msg"

definition code_reason :: "int \<Rightarrow> string" where
  "code_reason code =
     (if code = -1 then ''Bad-StatusCode'' else if code = -2 then ''Bad-Body''
      else if code = -3 then ''Bad-Header'' else ''Bad-Matches'')"

text \<open>The outcomes of an HTTP probe and of a TCP probe.\<close>

definition phc_http_result ::
    "(string \<Rightarrow> string \<Rightarrow> bool) \<Rightarrow> message \<Rightarrow> phc_target \<Rightarrow> unhealthy \<Rightarrow> phc_target \<times> unhealthy \<times> phc_notice" where
  "phc_http_result includes msg t u =
     (let code = phc_match_code includes (pt_service t) msg;
          t1 = t\<lparr>pt_status := Some (hd_status (ms_head msg))\<rparr>
      in if 0 < code then phc_ok t1 u else phc_fail (t1\<lparr>pt_reason := Some (code_reason code)\<rparr>) u)"

definition phc_tcp_result ::
    "string option \<Rightarrow> phc_target \<Rightarrow> unhealthy \<Rightarrow> phc_target \<times> unhealthy \<times> phc_notice" where
  "phc_tcp_result err t u =
     (if \<not> truthy err \<or> err = Some ''ReadTimeout'' \<or> err = Some ''IdleTimeout'' then phc_ok t u
      else phc_fail (t\<lparr>pt_reason := Some ''ConnectionRefused''\<rparr>) u)"

subsection \<open>Timers\<close>

datatype phc_probe = NoProbe | HttpProbe string | TcpProbe

definition phc_tick :: "phc_target \<Rightarrow> phc_target \<times> phc_probe" where
  "phc_tick t =
     (let iv = ps_interval (pt_service t) in
      if num_gt iv 0 then
        (if num_ge (Some (of_nat (pt_tick t + 1))) iv then
           (t\<lparr>pt_tick := 0\<rparr>,
            if truthy (ps_path (pt_service t)) then HttpProbe (the (ps_path (pt_service t))) else TcpProbe)
         else (t\<lparr>pt_tick := pt_tick t + 1\<rparr>, NoProbe))
      else (t, NoProbe))"

text \<open>
  The passive recovery. With debugging the message names a variable \<open>type\<close> that is not in
  scope there, and the task raises before the target recovers.
\<close>

definition phc_recover ::
    "bool \<Rightarrow> phc_target \<Rightarrow> unhealthy \<Rightarrow> js_error + phc_target \<times> unhealthy \<times> phc_notice option" where
  "phc_recover debug t u =
     (let svc = pt_service t in
      if pt_alive t = 0 \<and> num_gt (ps_failTimeout svc) 0 \<and> \<not> num_gt (ps_interval svc) 0 then
        (let t1 = t\<lparr>pt_failTick := pt_failTick t + 1\<rparr> in
         if num_ge (Some (of_nat (pt_failTick t1))) (ps_failTimeout svc) then
           (if debug then Inl (ReferenceError ''type'')
            else (let (t2, u2, n) = phc_ok t1 u in Inr (t2, u2, Some n)))
         else Inr (t1, u, None))
      else Inr (t, u, None))"

subsection \<open>The caches agree with the targets\<close>

text \<open>What can happen to the target under a key.\<close>

datatype phc_event = PTick string | PHttp string message | PTcp string "string option" | PFail string | PRecover string

definition phc_apply ::
    "string \<Rightarrow> (phc_target \<Rightarrow> unhealthy \<Rightarrow> phc_target \<times> unhealthy) \<Rightarrow> phc_target obj \<times> unhealthy \<Rightarrow>
     phc_target obj \<times> unhealthy" where
  "phc_apply k f st =
     (case obj_get (fst st) k of
        None \<Rightarrow> st
      | Some t \<Rightarrow> (let (t1, u1) = f t (snd st) in (obj_set k t1 (fst st), u1)))"

definition phc_step ::
    "(string \<Rightarrow> string \<Rightarrow> bool) \<Rightarrow> phc_event \<Rightarrow> phc_target obj \<times> unhealthy \<Rightarrow> phc_target obj \<times> unhealthy" where
  "phc_step includes ev st =
     (case ev of
        PTick k \<Rightarrow> phc_apply k (\<lambda>t u. (fst (phc_tick t), u)) st
      | PHttp k msg \<Rightarrow> phc_apply k (\<lambda>t u. let (t1, u1, n) = phc_http_result includes msg t u in (t1, u1)) st
      | PTcp k err \<Rightarrow> phc_apply k (\<lambda>t u. let (t1, u1, n) = phc_tcp_result err t u in (t1, u1)) st
      | PFail k \<Rightarrow> phc_apply k (\<lambda>t u. let (t1, u1, n) = phc_fail t u in (t1\<lparr>pt_reason := Some ''ConnectionRefused''\<rparr>, u1)) st
      | PRecover k \<Rightarrow> phc_apply k (\<lambda>t u. case phc_recover False t u of
            Inl e \<Rightarrow> (t, u) | Inr (t1, u1, n) \<Rightarrow> (t1, u1)) st)"

definition phc_run ::
    "(string \<Rightarrow> string \<Rightarrow> bool) \<Rightarrow> phc_event list \<Rightarrow> phc_target obj \<times> unhealthy \<Rightarrow> phc_target obj \<times> unhealthy" where
  "phc_run includes evs st = foldl (\<lambda>st ev. phc_step includes ev st) st evs"

definition phc_inv :: "phc_target obj \<times> unhealthy \<Rightarrow> bool" where
  "phc_inv st \<longleftrightarrow>
     (\<forall>k t. obj_get (fst st) k = Some t \<longrightarrow>
        k = target_key t \<and> pt_alive t \<le> 1 \<and>
        (is_unhealthy (snd st) (ps_name (pt_service t)) (pt_target t) \<longleftrightarrow> pt_alive t = 0))"

text \<open>An operation on one target: it keeps what identifies the target, its own entry stays
  right, and no other entry changes.\<close>

definition phc_local :: "(phc_target \<Rightarrow> unhealthy \<Rightarrow> phc_target \<times> unhealthy) \<Rightarrow> bool" where
  "phc_local f \<longleftrightarrow>
     (\<forall>t u t1 u1. f t u = (t1, u1) \<longrightarrow>
        pt_target t1 = pt_target t \<and> pt_service t1 = pt_service t \<and>
        (\<forall>n a. (n, a) \<noteq> (ps_name (pt_service t), pt_target t) \<longrightarrow> is_unhealthy u1 n a = is_unhealthy u n a) \<and>
        (pt_alive t \<le> 1 \<longrightarrow> is_unhealthy u (ps_name (pt_service t)) (pt_target t) = (pt_alive t = 0) \<longrightarrow>
           pt_alive t1 \<le> 1 \<and> is_unhealthy u1 (ps_name (pt_service t)) (pt_target t) = (pt_alive t1 = 0)))"

lemma phc_inv_target:
  assumes "phc_inv st" "obj_get (fst st) k = Some t"
  shows "k = target_key t \<and> pt_alive t \<le> 1 \<and>
    is_unhealthy (snd st) (ps_name (pt_service t)) (pt_target t) = (pt_alive t = 0)"
  using assms unfolding phc_inv_def by (elim allE impE) assumption+

lemma phc_local_apply:
  assumes "phc_local f" "phc_inv st"
  shows "phc_inv (phc_apply k f st)"
proof (cases "obj_get (fst st) k")
  case None
  then show ?thesis using assms(2) by (simp add: phc_apply_def)
next
  case (Some t)
  obtain t1 u1 where f: "f t (snd st) = (t1, u1)" by (cases "f t (snd st)")
  have t: "k = target_key t" "pt_alive t \<le> 1"
    "is_unhealthy (snd st) (ps_name (pt_service t)) (pt_target t) = (pt_alive t = 0)"
    using phc_inv_target [OF assms(2) Some] by blast+
  have all: "f t (snd st) = (t1, u1) \<longrightarrow>
        pt_target t1 = pt_target t \<and> pt_service t1 = pt_service t \<and>
        (\<forall>n a. (n, a) \<noteq> (ps_name (pt_service t), pt_target t) \<longrightarrow> is_unhealthy u1 n a = is_unhealthy (snd st) n a) \<and>
        (pt_alive t \<le> 1 \<longrightarrow> is_unhealthy (snd st) (ps_name (pt_service t)) (pt_target t) = (pt_alive t = 0) \<longrightarrow>
           pt_alive t1 \<le> 1 \<and> is_unhealthy u1 (ps_name (pt_service t)) (pt_target t) = (pt_alive t1 = 0))"
    using assms(1) unfolding phc_local_def by (elim allE)
  note a1 = mp [OF all f]
  note a2 = conjunct2 [OF a1]
  note a3 = conjunct2 [OF a2]
  have same: "pt_target t1 = pt_target t" "pt_service t1 = pt_service t" using a1 by blast+
  have frame: "is_unhealthy u1 n a = is_unhealthy (snd st) n a"
    if "(n, a) \<noteq> (ps_name (pt_service t), pt_target t)" for n a
    using conjunct1 [OF a3] that by (elim allE impE) assumption+
  have own: "pt_alive t1 \<le> 1" "is_unhealthy u1 (ps_name (pt_service t)) (pt_target t) = (pt_alive t1 = 0)"
    using mp [OF mp [OF conjunct2 [OF a3] t(2)] t(3)] by blast+
  note loc = same frame own
  have run: "phc_apply k f st = (obj_set k t1 (fst st), u1)" using Some f by (simp add: phc_apply_def)
  show ?thesis
    unfolding run phc_inv_def fst_conv snd_conv
  proof (intro allI impI)
    fix k' t' assume "obj_get (obj_set k t1 (fst st)) k' = Some t'"
    then consider "k' = k" "t' = t1" | "k' \<noteq> k" "obj_get (fst st) k' = Some t'" by (auto split: if_splits)
    then show "k' = target_key t' \<and> pt_alive t' \<le> 1 \<and>
        is_unhealthy u1 (ps_name (pt_service t')) (pt_target t') = (pt_alive t' = 0)"
    proof cases
      case 1
      then show ?thesis using loc t(1) by (simp add: target_key_def)
    next
      case 2
      then have t': "k' = target_key t'" "pt_alive t' \<le> 1"
        "is_unhealthy (snd st) (ps_name (pt_service t')) (pt_target t') = (pt_alive t' = 0)"
        using phc_inv_target [OF assms(2) 2(2)] by blast+
      then have "(ps_name (pt_service t'), pt_target t') \<noteq> (ps_name (pt_service t), pt_target t)"
        using 2(1) t(1) by (auto simp: target_key_def)
      then show ?thesis using t' loc(3) by simp
    qed
  qed
qed

lemma phc_ok_facts:
  assumes "phc_ok t u = (t1, u1, n)"
  shows "pt_target t1 = pt_target t" "pt_service t1 = pt_service t"
    "pt_alive t1 = (if pt_alive t = 0 then 1 else pt_alive t)"
    "pt_errors t1 = (if pt_alive t = 0 then 0 else pt_errors t)"
    "is_unhealthy u1 name a =
       (is_unhealthy u name a \<and> \<not> (pt_alive t = 0 \<and> name = ps_name (pt_service t) \<and> a = pt_target t))"
  using assms
  by (auto simp: phc_ok_def Let_def is_unhealthy_def split: if_splits option.splits)

lemma phc_fail_facts:
  assumes "phc_fail t u = (t1, u1, n)"
  shows "pt_target t1 = pt_target t" "pt_service t1 = pt_service t"
    "pt_errors t1 = pt_errors t + 1"
    "pt_alive t1 = (if num_ge (Some (of_nat (pt_errors t + 1))) (ps_maxFails (pt_service t)) then 0 else pt_alive t)"
    "is_unhealthy u1 name a =
       (is_unhealthy u name a \<or>
        (num_ge (Some (of_nat (pt_errors t + 1))) (ps_maxFails (pt_service t)) \<and> pt_alive t \<noteq> 0 \<and>
         name = ps_name (pt_service t) \<and> a = pt_target t))"
  using assms
  by (auto simp: phc_fail_def Let_def is_unhealthy_def split: if_splits option.splits)

lemma phc_localI:
  assumes "\<And>t u t1 u1. f t u = (t1, u1) \<Longrightarrow> pt_target t1 = pt_target t \<and> pt_service t1 = pt_service t"
    and "\<And>t u t1 u1 n a. f t u = (t1, u1) \<Longrightarrow> (n, a) \<noteq> (ps_name (pt_service t), pt_target t) \<Longrightarrow>
           is_unhealthy u1 n a = is_unhealthy u n a"
    and "\<And>t u t1 u1. f t u = (t1, u1) \<Longrightarrow> pt_alive t \<le> 1 \<Longrightarrow>
           is_unhealthy u (ps_name (pt_service t)) (pt_target t) = (pt_alive t = 0) \<Longrightarrow>
           pt_alive t1 \<le> 1 \<and> is_unhealthy u1 (ps_name (pt_service t)) (pt_target t) = (pt_alive t1 = 0)"
  shows "phc_local f"
  unfolding phc_local_def
proof (intro allI impI)
  fix t u t1 u1 assume f: "f t u = (t1, u1)"
  show "pt_target t1 = pt_target t \<and> pt_service t1 = pt_service t \<and>
      (\<forall>n a. (n, a) \<noteq> (ps_name (pt_service t), pt_target t) \<longrightarrow> is_unhealthy u1 n a = is_unhealthy u n a) \<and>
      (pt_alive t \<le> 1 \<longrightarrow> is_unhealthy u (ps_name (pt_service t)) (pt_target t) = (pt_alive t = 0) \<longrightarrow>
         pt_alive t1 \<le> 1 \<and> is_unhealthy u1 (ps_name (pt_service t)) (pt_target t) = (pt_alive t1 = 0))"
    using assms(1) [OF f] assms(2) [OF f] assms(3) [OF f] by (intro conjI allI impI) simp_all
qed

lemma phc_local_ok: "phc_local (\<lambda>t u. case phc_ok (g t) u of (t1, u1, n) \<Rightarrow> (t1, u1))"
  if "\<And>t. pt_target (g t) = pt_target t \<and> pt_service (g t) = pt_service t \<and> pt_alive (g t) = pt_alive t" for g
proof (rule phc_localI)
  fix t u t1 u1 assume "(case phc_ok (g t) u of (t1, u1, n) \<Rightarrow> (t1, u1)) = (t1, u1)"
  then obtain n where ok: "phc_ok (g t) u = (t1, u1, n)" by (cases "phc_ok (g t) u") simp
  note facts = phc_ok_facts [OF ok] and same = that [of t]
  show "pt_target t1 = pt_target t \<and> pt_service t1 = pt_service t" using facts(1,2) same by simp
  show "is_unhealthy u1 n a = is_unhealthy u n a" if "(n, a) \<noteq> (ps_name (pt_service t), pt_target t)" for n a
    using facts(5) [of n a] same that by auto
  show "pt_alive t1 \<le> 1 \<and> is_unhealthy u1 (ps_name (pt_service t)) (pt_target t) = (pt_alive t1 = 0)"
    if "pt_alive t \<le> 1" "is_unhealthy u (ps_name (pt_service t)) (pt_target t) = (pt_alive t = 0)"
    using facts(3) facts(5) [of "ps_name (pt_service t)" "pt_target t"] same that by simp
qed

lemma phc_local_fail: "phc_local (\<lambda>t u. case phc_fail (g t) u of (t1, u1, n) \<Rightarrow> (h t1, u1))"
  if g: "\<And>t. pt_target (g t) = pt_target t \<and> pt_service (g t) = pt_service t \<and> pt_alive (g t) = pt_alive t"
    and h: "\<And>t. pt_target (h t) = pt_target t \<and> pt_service (h t) = pt_service t \<and> pt_alive (h t) = pt_alive t" for g h
proof (rule phc_localI)
  fix t u t1 u1 assume "(case phc_fail (g t) u of (t1, u1, n) \<Rightarrow> (h t1, u1)) = (t1, u1)"
  then obtain t' n where fl: "phc_fail (g t) u = (t', u1, n)" and t1: "t1 = h t'" by (cases "phc_fail (g t) u") simp
  note facts = phc_fail_facts [OF fl] and same = g [of t] h [of t']
  show "pt_target t1 = pt_target t \<and> pt_service t1 = pt_service t" using facts(1,2) same t1 by simp
  show "is_unhealthy u1 n a = is_unhealthy u n a" if "(n, a) \<noteq> (ps_name (pt_service t), pt_target t)" for n a
    using facts(5) [of n a] same that by auto
  show "pt_alive t1 \<le> 1 \<and> is_unhealthy u1 (ps_name (pt_service t)) (pt_target t) = (pt_alive t1 = 0)"
    if "pt_alive t \<le> 1" "is_unhealthy u (ps_name (pt_service t)) (pt_target t) = (pt_alive t = 0)"
    using facts(4) facts(5) [of "ps_name (pt_service t)" "pt_target t"] same t1 that by (auto split: if_splits)
qed

lemma phc_local_keep: "phc_local (\<lambda>t u. (g t, u))"
  if "\<And>t. pt_target (g t) = pt_target t \<and> pt_service (g t) = pt_service t \<and> pt_alive (g t) = pt_alive t" for g
  by (rule phc_localI) (use that in auto)

lemma phc_local_if:
  assumes "phc_local f" "phc_local g"
  shows "phc_local (\<lambda>t u. if c t then f t u else g t u)"
  unfolding phc_local_def
proof (intro allI)
  fix t u t1 u1
  show "(if c t then f t u else g t u) = (t1, u1) \<longrightarrow>
      pt_target t1 = pt_target t \<and> pt_service t1 = pt_service t \<and>
      (\<forall>n a. (n, a) \<noteq> (ps_name (pt_service t), pt_target t) \<longrightarrow> is_unhealthy u1 n a = is_unhealthy u n a) \<and>
      (pt_alive t \<le> 1 \<longrightarrow> is_unhealthy u (ps_name (pt_service t)) (pt_target t) = (pt_alive t = 0) \<longrightarrow>
         pt_alive t1 \<le> 1 \<and> is_unhealthy u1 (ps_name (pt_service t)) (pt_target t) = (pt_alive t1 = 0))"
  proof (cases "c t")
    case True
    show ?thesis unfolding if_P [OF True] using assms(1) unfolding phc_local_def by (elim allE)
  next
    case False
    show ?thesis unfolding if_not_P [OF False] using assms(2) unfolding phc_local_def by (elim allE)
  qed
qed

lemma phc_tick_same:
  "pt_target (fst (phc_tick t)) = pt_target t \<and> pt_service (fst (phc_tick t)) = pt_service t \<and>
   pt_alive (fst (phc_tick t)) = pt_alive t"
  by (simp add: phc_tick_def Let_def)

lemma phc_local_http:
  "phc_local (\<lambda>t u. case phc_http_result includes msg t u of (t1, u1, n) \<Rightarrow> (t1, u1))"
proof -
  have "phc_local (\<lambda>t u. if 0 < phc_match_code includes (pt_service t) msg
      then (case phc_ok (t\<lparr>pt_status := Some (hd_status (ms_head msg))\<rparr>) u of (t1, u1, n) \<Rightarrow> (t1, u1))
      else (case phc_fail (t\<lparr>pt_status := Some (hd_status (ms_head msg)),
          pt_reason := Some (code_reason (phc_match_code includes (pt_service t) msg))\<rparr>) u of (t1, u1, n) \<Rightarrow> (t1, u1)))"
    by (intro phc_local_if phc_local_ok phc_local_fail [where h = "\<lambda>t. t"]) simp_all
  then show ?thesis by (simp add: phc_http_result_def Let_def if_distrib cong: if_cong)
qed

lemma phc_local_tcp:
  "phc_local (\<lambda>t u. case phc_tcp_result err t u of (t1, u1, n) \<Rightarrow> (t1, u1))"
proof (cases "\<not> truthy err \<or> err = Some ''ReadTimeout'' \<or> err = Some ''IdleTimeout''")
  case True
  then show ?thesis using phc_local_ok [of "\<lambda>t. t"] by (simp add: phc_tcp_result_def)
next
  case False
  then show ?thesis
    using phc_local_fail [of "\<lambda>t. t\<lparr>pt_reason := Some ''ConnectionRefused''\<rparr>" "\<lambda>t. t"]
    by (simp add: phc_tcp_result_def)
qed

lemma phc_local_recover:
  "phc_local (\<lambda>t u. case phc_recover False t u of Inl e \<Rightarrow> (t, u) | Inr (t1, u1, n) \<Rightarrow> (t1, u1))"
proof -
  let ?t1 = "\<lambda>t. t\<lparr>pt_failTick := pt_failTick t + 1\<rparr>"
  have "phc_local (\<lambda>t u. if pt_alive t = 0 \<and> num_gt (ps_failTimeout (pt_service t)) 0 \<and> \<not> num_gt (ps_interval (pt_service t)) 0
      then (if num_ge (Some (of_nat (pt_failTick (?t1 t)))) (ps_failTimeout (pt_service t))
        then (case phc_ok (?t1 t) u of (t2, u2, n) \<Rightarrow> (t2, u2)) else (?t1 t, u))
      else (t, u))"
    by (intro phc_local_if phc_local_ok phc_local_keep) simp_all
  moreover have "(case phc_recover False t u of Inl e \<Rightarrow> (t, u) | Inr (t1, u1, n) \<Rightarrow> (t1, u1)) =
     (if pt_alive t = 0 \<and> num_gt (ps_failTimeout (pt_service t)) 0 \<and> \<not> num_gt (ps_interval (pt_service t)) 0
      then (if num_ge (Some (of_nat (pt_failTick (?t1 t)))) (ps_failTimeout (pt_service t))
        then (case phc_ok (?t1 t) u of (t2, u2, n) \<Rightarrow> (t2, u2)) else (?t1 t, u))
      else (t, u))" for t u
    by (simp add: phc_recover_def Let_def split: prod.splits)
  ultimately show ?thesis by presburger
qed

lemma phc_local_step: "phc_inv st \<Longrightarrow> phc_inv (phc_step includes ev st)"
proof (cases ev)
  case (PTick k)
  assume "phc_inv st"
  then show ?thesis
    unfolding PTick phc_step_def phc_event.case by (intro phc_local_apply phc_local_keep phc_tick_same)
next
  case (PHttp k msg)
  assume "phc_inv st"
  then show ?thesis
    unfolding PHttp phc_step_def phc_event.case Let_def by (intro phc_local_apply phc_local_http)
next
  case (PTcp k err)
  assume "phc_inv st"
  then show ?thesis
    unfolding PTcp phc_step_def phc_event.case Let_def by (intro phc_local_apply phc_local_tcp)
next
  case (PFail k)
  assume "phc_inv st"
  then show ?thesis
    unfolding PFail phc_step_def phc_event.case Let_def
    by (intro phc_local_apply phc_local_fail [where g = "\<lambda>t. t"]) simp_all
next
  case (PRecover k)
  assume "phc_inv st"
  then show ?thesis
    unfolding PRecover phc_step_def phc_event.case by (intro phc_local_apply phc_local_recover)
qed

interpretation checks: event_machine "phc_step inc" phc_inv for inc
  by unfold_locales (rule phc_local_step)

lemma phc_inv_run: "phc_inv st \<Longrightarrow> phc_inv (phc_run includes evs st)"
  unfolding phc_run_def by (rule checks.always)

lemma phc_inv_set: "phc_inv (ob, u) \<Longrightarrow> pt_alive t \<le> 1 \<Longrightarrow>
    is_unhealthy u (ps_name (pt_service t)) (pt_target t) = (pt_alive t = 0) \<Longrightarrow>
    phc_inv (obj_set (target_key t) t ob, u)"
  unfolding phc_inv_def by simp

lemma phc_inv_endpoints: "phc_inv (ob, []) \<Longrightarrow>
    phc_inv (foldl (\<lambda>ob a. let t = new_phc_target svc a in obj_set (target_key t) t ob) ob endpoints, [])"
  by (induction endpoints arbitrary: ob)
    (simp_all add: Let_def phc_inv_set is_unhealthy_def new_phc_target_def)

lemma phc_inv_targets: "phc_inv (phc_targets services, [])"
proof -
  have "phc_inv (foldl (\<lambda>ob (name, s, endpoints). if checked s then
       foldl (\<lambda>ob a. let t = new_phc_target (the (make_phc name s)) a in obj_set (target_key t) t ob) ob endpoints
     else ob) ob services, [])" if "phc_inv (ob, [])" for ob
    using that
  proof (induction services arbitrary: ob)
    case Nil
    then show ?case by simp
  next
    case (Cons s services)
    obtain name sc eps where s: "s = (name, sc, eps)" by (cases s)
    show ?case
      unfolding s foldl_Cons prod.case
      by (rule Cons.IH) (simp add: Cons.prems phc_inv_endpoints)
  qed
  moreover have "phc_inv ([], [])" by (simp add: phc_inv_def)
  ultimately show ?thesis unfolding phc_targets_def by blast
qed

text \<open>Whatever the order of probes, answers, failures seen by the forwarding module and
  recoveries: the caches that the forwarding module asks list a target exactly while its own
  record says that it is down.\<close>
lemma unhealthy_iff_down:
  assumes "phc_run includes evs (phc_targets services, []) = (ts, u)"
    and "obj_get ts k = Some t"
  shows "k = target_key t \<and> (is_unhealthy u (ps_name (pt_service t)) (pt_target t) \<longleftrightarrow> \<not> phc_available t)"
proof -
  have "phc_inv (ts, u)" using phc_inv_run [OF phc_inv_targets, of "includes" evs services] assms(1) by simp
  then have "k = target_key t \<and> pt_alive t \<le> 1 \<and>
      is_unhealthy u (ps_name (pt_service t)) (pt_target t) = (pt_alive t = 0)"
    using phc_inv_target [of "(ts, u)" k t] assms(2) by simp
  then show "k = target_key t \<and> (is_unhealthy u (ps_name (pt_service t)) (pt_target t) \<longleftrightarrow> \<not> phc_available t)"
    by (simp_all add: phc_available_def)
qed

definition demo_section :: phc_section where
  "demo_section = \<lparr>px_interval = Some 2, px_maxFails = Some 2, px_failTimeout = None, px_path = None, px_matches = None\<rparr>"

subsection \<open>Failures are never forgiven\<close>

text \<open>
  A success resets the count of errors only when the target was down. So the failures of a
  target that is up add up, whatever successes come between, and \<open>MaxFails\<close> is the number
  of failures in its whole life since it last recovered.
\<close>

definition probe :: "string \<Rightarrow> bool \<Rightarrow> phc_event" where
  "probe k good = PTcp k (if good then None else Some ''ConnectionRefused'')"

lemma probe_step:
  assumes "obj_get (fst st) k = Some t" "pt_alive t \<noteq> 0" "ps_maxFails (pt_service t) = Some M"
  shows "good \<Longrightarrow> \<exists>t1. obj_get (fst (phc_step includes (probe k good) st)) k = Some t1 \<and> pt_alive t1 \<noteq> 0 \<and>
           pt_service t1 = pt_service t \<and> pt_target t1 = pt_target t \<and> pt_errors t1 = pt_errors t"
    and "\<not> good \<Longrightarrow> of_nat (pt_errors t + 1) < M \<Longrightarrow>
         \<exists>t1. obj_get (fst (phc_step includes (probe k good) st)) k = Some t1 \<and> pt_alive t1 \<noteq> 0 \<and>
           pt_service t1 = pt_service t \<and> pt_target t1 = pt_target t \<and> pt_errors t1 = pt_errors t + 1"
    and "\<not> good \<Longrightarrow> M \<le> of_nat (pt_errors t + 1) \<Longrightarrow>
         is_unhealthy (snd (phc_step includes (probe k good) st)) (ps_name (pt_service t)) (pt_target t)"
proof -
  assume good
  obtain t1 u1 n where ok: "phc_ok t (snd st) = (t1, u1, n)" by (cases "phc_ok t (snd st)")
  have "phc_step includes (probe k good) st = (obj_set k t1 (fst st), u1)"
    using assms(1) \<open>good\<close> ok by (simp add: phc_step_def probe_def phc_apply_def phc_tcp_result_def)
  then show "\<exists>t1. obj_get (fst (phc_step includes (probe k good) st)) k = Some t1 \<and> pt_alive t1 \<noteq> 0 \<and>
      pt_service t1 = pt_service t \<and> pt_target t1 = pt_target t \<and> pt_errors t1 = pt_errors t"
    using phc_ok_facts(1-4) [OF ok] assms(2) by simp
next
  assume bad: "\<not> good"
  obtain t1 u1 n where fl: "phc_fail (t\<lparr>pt_reason := Some ''ConnectionRefused''\<rparr>) (snd st) = (t1, u1, n)"
    by (cases "phc_fail (t\<lparr>pt_reason := Some ''ConnectionRefused''\<rparr>) (snd st)")
  have run: "phc_step includes (probe k good) st = (obj_set k t1 (fst st), u1)"
    using assms(1) bad fl by (simp add: phc_step_def probe_def phc_apply_def phc_tcp_result_def)
  note facts = phc_fail_facts [OF fl]
  show "\<exists>t1. obj_get (fst (phc_step includes (probe k good) st)) k = Some t1 \<and> pt_alive t1 \<noteq> 0 \<and>
      pt_service t1 = pt_service t \<and> pt_target t1 = pt_target t \<and> pt_errors t1 = pt_errors t + 1"
    if "of_nat (pt_errors t + 1) < M"
    using facts(1-4) run assms(2,3) that by (simp add: num_ge_def)
  show "is_unhealthy (snd (phc_step includes (probe k good) st)) (ps_name (pt_service t)) (pt_target t)"
    if "M \<le> of_nat (pt_errors t + 1)"
    using facts(5) [of "ps_name (pt_service t)" "pt_target t"] run assms(2,3) that by (simp add: num_ge_def)
qed

text \<open>A target goes down with its \<open>MaxFails\<close>-th failure, however many successful probes
  lie between the failures: the success of a target that is up does not reset the count.\<close>
theorem failures_never_forgiven:
  assumes "obj_get ts k = Some t" "pt_alive t \<noteq> 0" "ps_maxFails (pt_service t) = Some (of_nat M)"
    and "pt_errors t + length (filter Not verdicts) + 1 = M"
  shows "is_unhealthy (snd (phc_run includes (map (probe k) (verdicts @ [False])) (ts, u)))
           (ps_name (pt_service t)) (pt_target t)"
proof -
  have "is_unhealthy (snd (phc_run includes (map (probe k) (verdicts @ [False])) st))
           (ps_name (pt_service t)) (pt_target t)"
    if "obj_get (fst st) k = Some t" "pt_alive t \<noteq> 0" "ps_maxFails (pt_service t) = Some (of_nat M)"
      "pt_errors t + length (filter Not verdicts) + 1 = M" for st and t :: phc_target
    using that
  proof (induction verdicts arbitrary: st t)
    case Nil
    have "(of_nat M :: rat) \<le> of_nat (pt_errors t + 1)" using Nil(4) by simp
    then show ?case using probe_step(3) [OF Nil(1-3), of False] by (simp add: phc_run_def)
  next
    case (Cons good verdicts)
    have "\<exists>t1. obj_get (fst (phc_step includes (probe k good) st)) k = Some t1 \<and> pt_alive t1 \<noteq> 0 \<and>
        pt_service t1 = pt_service t \<and> pt_target t1 = pt_target t \<and>
        pt_errors t1 = (if good then pt_errors t else pt_errors t + 1)"
    proof (cases good)
      case True
      then show ?thesis using probe_step(1) [OF Cons.prems(1-3) True] by simp
    next
      case False
      have "(of_nat (pt_errors t + 1) :: rat) < of_nat M" using Cons.prems(4) False by (simp flip: of_nat_less_iff)
      then show ?thesis using probe_step(2) [OF Cons.prems(1-3) False] False by simp
    qed
    then obtain t1 where t1: "obj_get (fst (phc_step includes (probe k good) st)) k = Some t1"
      "pt_alive t1 \<noteq> 0" "pt_service t1 = pt_service t" "pt_target t1 = pt_target t"
      "pt_errors t1 = (if good then pt_errors t else pt_errors t + 1)" by (elim exE conjE)
    have m: "ps_maxFails (pt_service t1) = Some (of_nat M)" using t1(3) Cons.prems(3) by simp
    have n: "pt_errors t1 + length (filter Not verdicts) + 1 = M" using t1(5) Cons.prems(4) by (simp split: if_splits)
    show ?case using Cons.IH [OF t1(1,2) m n] t1(3,4) by (simp add: phc_run_def)
  qed
  from this [of "(ts, u)" t] show ?thesis using assms by simp
qed

lemma failures_never_forgiven_witness:
  "is_unhealthy (snd (phc_run (\<lambda>x y. False) (map (probe ''a:1@s'') ([False, True, True, True] @ [False]))
      (phc_targets [(''s'', Some demo_section, [''a:1''])], []))) ''s'' ''a:1''"
proof -
  let ?t = "new_phc_target (the (make_phc ''s'' (Some demo_section))) ''a:1''"
  have "obj_get (phc_targets [(''s'', Some demo_section, [''a:1''])]) ''a:1@s'' = Some ?t" by code_simp
  moreover have "pt_alive ?t \<noteq> 0" by (simp add: new_phc_target_def)
  moreover have "ps_maxFails (pt_service ?t) = Some (of_nat 2)"
    by (simp add: new_phc_target_def make_phc_def demo_section_def)
  moreover have "pt_errors ?t + length (filter Not [False, True, True, True]) + 1 = 2"
    by (simp add: new_phc_target_def)
  ultimately have "is_unhealthy (snd (phc_run (\<lambda>x y. False) (map (probe ''a:1@s'') ([False, True, True, True] @ [False]))
      (phc_targets [(''s'', Some demo_section, [''a:1''])], []))) (ps_name (pt_service ?t)) (pt_target ?t)"
    by (rule failures_never_forgiven)
  then show ?thesis by (simp add: new_phc_target_def make_phc_def)
qed

end
