(* ===== verification/Pjs_Health_Tasks.thy ===== *)
theory Pjs_Health_Tasks
  imports Pjs_Health
begin

text \<open>
  The two tasks of \<open>pjs/common/health-check.js\<close>, which run every second over all targets: the
  first one probes those that are due, the second one lets those recover that are not probed.
  In between the answers of probes and the failures that the forwarding module sees come in.
\<close>

subsection \<open>The tasks\<close>

text \<open>The targets after a run of the first task, and whom it probes. \<close>

definition check_task :: "phc_target obj \<Rightarrow> phc_target obj \<times> (string \<times> phc_probe) list" where
  "check_task ob =
     (map (\<lambda>(k, t). (k, fst (phc_tick t))) ob,
      filter (\<lambda>(k, p). p \<noteq> NoProbe) (map (\<lambda>(k, t). (k, snd (phc_tick t))) ob))"

text \<open>A target without a path is connected to; \<open>err k\<close> is the error with which that ends.\<close>

definition tcp_results :: "(string \<Rightarrow> string option) \<Rightarrow> (string \<times> phc_probe) list \<Rightarrow> phc_event list" where
  "tcp_results err probes = map (\<lambda>(k, p). PTcp k (err k)) (filter (\<lambda>(k, p). p = TcpProbe) probes)"

text \<open>The second task ends where a target raises: its count is changed by then.\<close>

fun recover_task :: "bool \<Rightarrow> phc_target obj \<Rightarrow> unhealthy \<Rightarrow> js_error option \<times> phc_target obj \<times> unhealthy" where
  "recover_task debug [] u = (None, [], u)"
| "recover_task debug ((k, t) # ob) u =
     (case phc_recover debug t u of
        Inl e \<Rightarrow> (Some e, (k, t\<lparr>pt_failTick := pt_failTick t + 1\<rparr>) # ob, u)
      | Inr (t1, u1, n) \<Rightarrow> (let (e, ob1, u2) = recover_task debug ob u1 in (e, (k, t1) # ob1, u2)))"

datatype task_event = CheckTask | RecoverTask | Told phc_event

definition task_step ::
    "bool \<Rightarrow> (string \<Rightarrow> string \<Rightarrow> bool) \<Rightarrow> task_event \<Rightarrow> phc_target obj \<times> unhealthy \<Rightarrow> phc_target obj \<times> unhealthy" where
  "task_step debug includes ev st =
     (case ev of
        CheckTask \<Rightarrow> (fst (check_task (fst st)), snd st)
      | RecoverTask \<Rightarrow> snd (recover_task debug (fst st) (snd st))
      | Told e \<Rightarrow> phc_step includes e st)"

definition task_run ::
    "bool \<Rightarrow> (string \<Rightarrow> string \<Rightarrow> bool) \<Rightarrow> task_event list \<Rightarrow> phc_target obj \<times> unhealthy \<Rightarrow> phc_target obj \<times> unhealthy" where
  "task_run debug includes evs st = foldl (\<lambda>st ev. task_step debug includes ev st) st evs"

text \<open>What comes from elsewhere: answers and failures, not the timers.\<close>

fun from_outside :: "task_event \<Rightarrow> bool" where
  "from_outside (Told (PTick k)) = False"
| "from_outside (Told (PRecover k)) = False"
| "from_outside ev = True"

subsection \<open>The tasks are the timers of all targets\<close>

lemma obj_set_mid: "k \<notin> fst ` set pre \<Longrightarrow> obj_set k v (pre @ (k, t) # ob) = pre @ (k, v) # ob"
  by (induction pre) auto

lemma obj_get_mid: "k \<notin> fst ` set pre \<Longrightarrow> obj_get (pre @ (k, t) # ob) k = Some t"
  by (induction pre) auto

lemma phc_apply_mid:
  assumes "k \<notin> fst ` set pre"
  shows "phc_apply k f (pre @ (k, t) # ob, u) = (pre @ (k, fst (f t u)) # ob, snd (f t u))"
  unfolding phc_apply_def fst_conv obj_get_mid [OF assms]
  by (simp add: obj_set_mid [OF assms] split: prod.split)

lemma tick_mid:
  assumes "k \<notin> fst ` set pre"
  shows "phc_step inc (PTick k) (pre @ (k, t) # ob, u) = (pre @ (k, fst (phc_tick t)) # ob, u)"
  by (simp only: phc_step_def phc_event.case phc_apply_mid [OF assms] fst_conv snd_conv)

lemma recover_mid:
  assumes "k \<notin> fst ` set pre" "phc_recover False t u = Inr (t1, v, n)"
  shows "phc_step inc (PRecover k) (pre @ (k, t) # ob, u) = (pre @ (k, t1) # ob, v)"
  by (simp only: phc_step_def phc_event.case phc_apply_mid [OF assms(1)] assms(2) sum.case prod.case fst_conv snd_conv)

lemma phc_run_Cons: "phc_run inc (ev # evs) st = phc_run inc evs (phc_step inc ev st)"
  by (simp add: phc_run_def)

lemma check_task_run:
  "distinct (map fst (pre @ ob)) \<Longrightarrow>
   phc_run inc (map (\<lambda>(k, t). PTick k) ob) (pre @ ob, u) = (pre @ fst (check_task ob), u)"
proof (induction ob arbitrary: pre)
  case (Cons x ob)
  obtain k t where x: "x = (k, t)" by (cases x)
  have k: "k \<notin> fst ` set pre" and d: "distinct (map fst ((pre @ [(k, fst (phc_tick t))]) @ ob))"
    using Cons.prems by (auto simp: x)
  have "phc_run inc (map (\<lambda>(k, t). PTick k) (x # ob)) (pre @ x # ob, u) =
      phc_run inc (map (\<lambda>(k, t). PTick k) ob) ((pre @ [(k, fst (phc_tick t))]) @ ob, u)"
    by (simp add: x phc_run_Cons tick_mid [OF k])
  also have "\<dots> = ((pre @ [(k, fst (phc_tick t))]) @ fst (check_task ob), u)" by (rule Cons.IH [OF d])
  finally show ?case by (simp add: x check_task_def)
qed (simp add: phc_run_def check_task_def)

lemma recover_task_run:
  "distinct (map fst (pre @ ob)) \<Longrightarrow> recover_task False ob u = (e, ob1, u1) \<Longrightarrow>
   e = None \<and> phc_run inc (map (\<lambda>(k, t). PRecover k) ob) (pre @ ob, u) = (pre @ ob1, u1)"
proof (induction ob arbitrary: pre u ob1)
  case (Cons x ob)
  obtain k t where x: "x = (k, t)" by (cases x)
  obtain t1 v n where r: "phc_recover False t u = Inr (t1, v, n)"
  proof (cases "phc_recover False t u")
    case (Inl err)
    then show ?thesis by (simp add: phc_recover_def Let_def split: if_splits prod.splits)
  next
    case (Inr p)
    then show ?thesis using that by (cases p) simp
  qed
  obtain ob2 where rest: "recover_task False ob v = (e, ob2, u1)" "ob1 = (k, t1) # ob2"
    using Cons.prems(2) r by (auto simp: x split: prod.splits)
  have k: "k \<notin> fst ` set pre" and d: "distinct (map fst ((pre @ [(k, t1)]) @ ob))" using Cons.prems(1) by (auto simp: x)
  show ?case
    using Cons.IH [OF d rest(1)] by (simp add: x phc_run_Cons recover_mid [OF k r] rest(2))
qed (simp add: phc_run_def)

subsection \<open>Probes come on time\<close>

definition period :: "phc_target \<Rightarrow> nat" where
  "period t = nat \<lceil>the (ps_interval (pt_service t))\<rceil>"

definition probed :: "phc_target \<Rightarrow> bool" where
  "probed t \<longleftrightarrow> num_gt (ps_interval (pt_service t)) 0"

definition check_runs :: "task_event list \<Rightarrow> nat" where
  "check_runs evs = length (filter (\<lambda>ev. ev = CheckTask) evs)"

lemma probed_period:
  assumes "probed t"
  shows "0 < period t" "num_ge (Some (of_nat n)) (ps_interval (pt_service t)) \<longleftrightarrow> period t \<le> n"
proof -
  obtain q where q: "ps_interval (pt_service t) = Some q" "0 < q"
    using assms by (auto simp: probed_def num_gt_def split: option.splits)
  then show "0 < period t" by (simp add: period_def)
  have "q \<le> of_nat n \<longleftrightarrow> \<lceil>q\<rceil> \<le> int n" by (simp add: ceiling_le_iff)
  also have "\<dots> \<longleftrightarrow> nat \<lceil>q\<rceil> \<le> n" by linarith
  finally show "num_ge (Some (of_nat n)) (ps_interval (pt_service t)) \<longleftrightarrow> period t \<le> n" by (simp add: q(1) period_def)
qed

text \<open>What an operation on a target must keep for its probes to stay on time.\<close>

definition keeps_time :: "(phc_target \<Rightarrow> unhealthy \<Rightarrow> phc_target \<times> unhealthy) \<Rightarrow> bool" where
  "keeps_time f \<longleftrightarrow> (\<forall>t u. pt_service (fst (f t u)) = pt_service t \<and> pt_tick (fst (f t u)) = pt_tick t)"

lemma ok_keeps: "pt_service (fst (phc_ok t u)) = pt_service t \<and> pt_tick (fst (phc_ok t u)) = pt_tick t"
  by (simp add: phc_ok_def Let_def)

lemma fail_keeps: "pt_service (fst (phc_fail t u)) = pt_service t \<and> pt_tick (fst (phc_fail t u)) = pt_tick t"
  by (simp add: phc_fail_def Let_def)

lemma recover_keeps:
  "phc_recover debug t u = Inr (t1, u1, n) \<Longrightarrow> pt_service t1 = pt_service t \<and> pt_tick t1 = pt_tick t"
  using ok_keeps [of "t\<lparr>pt_failTick := pt_failTick t + 1\<rparr>" u]
  by (auto simp: phc_recover_def Let_def split: if_splits prod.splits)

definition on_time :: "nat \<Rightarrow> phc_target obj \<Rightarrow> bool" where
  "on_time n ob \<longleftrightarrow>
     distinct (map fst ob) \<and> (\<forall>(k, t) \<in> set ob. probed t \<longrightarrow> pt_tick t = n mod period t)"

lemma on_time_set:
  assumes "on_time n ob" "(k, t) \<in> set ob" "pt_service t1 = pt_service t" "pt_tick t1 = pt_tick t"
  shows "on_time n (obj_set k t1 ob)"
proof -
  have "(k', t') \<in> set (obj_set k t1 ob) \<Longrightarrow> (k', t') = (k, t1) \<or> (k', t') \<in> set ob" for k' t'
    by (induction ob) (auto split: if_splits)
  moreover have "probed t1 \<longrightarrow> pt_tick t1 = n mod period t1"
    using assms by (auto simp: on_time_def probed_def period_def)
  ultimately show ?thesis using assms(1) by (fastforce simp: on_time_def distinct_update)
qed

lemma on_time_apply:
  assumes "on_time n (fst st)" "keeps_time f"
  shows "on_time n (fst (phc_apply k f st))"
proof (cases "obj_get (fst st) k")
  case None
  then show ?thesis using assms(1) by (simp add: phc_apply_def)
next
  case (Some t)
  then have "fst (phc_apply k f st) = obj_set k (fst (f t (snd st))) (fst st)"
    by (simp add: phc_apply_def split: prod.split)
  then show ?thesis
    using on_time_set [OF assms(1) map_of_SomeD [OF Some]] assms(2) by (simp add: keeps_time_def)
qed

lemma on_time_told:
  assumes "on_time n (fst st)" "from_outside (Told ev)"
  shows "on_time n (fst (phc_step inc ev st))"
proof (cases ev)
  case (PHttp k msg)
  have "keeps_time (\<lambda>t u. let (t1, u1, n) = phc_http_result inc msg t u in (t1, u1))"
    by (simp add: keeps_time_def phc_http_result_def Let_def case_prod_beta ok_keeps fail_keeps)
  then show ?thesis using on_time_apply [OF assms(1)] by (simp add: PHttp phc_step_def)
next
  case (PTcp k err)
  have "keeps_time (\<lambda>t u. let (t1, u1, n) = phc_tcp_result err t u in (t1, u1))"
    by (simp add: keeps_time_def phc_tcp_result_def case_prod_beta ok_keeps fail_keeps)
  then show ?thesis using on_time_apply [OF assms(1)] by (simp add: PTcp phc_step_def)
next
  case (PFail k)
  have "keeps_time (\<lambda>t u. let (t1, u1, n) = phc_fail t u in (t1\<lparr>pt_reason := Some ''ConnectionRefused''\<rparr>, u1))"
    by (simp add: keeps_time_def case_prod_beta fail_keeps)
  then show ?thesis using on_time_apply [OF assms(1)] by (simp add: PFail phc_step_def)
qed (use assms(2) in simp_all)

lemma tick_due:
  assumes "probed t"
  shows "pt_tick (fst (phc_tick t)) = (if period t \<le> Suc (pt_tick t) then 0 else Suc (pt_tick t))"
    and "snd (phc_tick t) =
      (if period t \<le> Suc (pt_tick t) then
         if truthy (ps_path (pt_service t)) then HttpProbe (the (ps_path (pt_service t))) else TcpProbe
       else NoProbe)"
  using probed_period(2) [OF assms, of "Suc (pt_tick t)"] assms by (simp_all add: phc_tick_def Let_def probed_def)

lemma due_mod: "0 < p \<Longrightarrow> p \<le> Suc (n mod p) \<longleftrightarrow> p dvd Suc n" for p :: nat
proof -
  assume "0 < p"
  then have "n mod p < p" by simp
  then show "p \<le> Suc (n mod p) \<longleftrightarrow> p dvd Suc n" by (auto simp: mod_Suc dvd_eq_mod_eq_0)
qed

lemma on_time_check:
  assumes "on_time n ob"
  shows "on_time (Suc n) (fst (check_task ob))"
proof -
  have "pt_tick (fst (phc_tick t)) = Suc n mod period (fst (phc_tick t))"
    if "(k, t) \<in> set ob" "probed t" for k t
  proof -
    have "pt_tick t = n mod period t" using assms that by (auto simp: on_time_def)
    moreover have "period (fst (phc_tick t)) = period t" using phc_tick_same by (simp add: period_def)
    ultimately show ?thesis
      using tick_due(1) [OF that(2)] mod_less_divisor [OF probed_period(1) [OF that(2)], of n] by (simp add: mod_Suc)
  qed
  moreover have "probed (fst (phc_tick t)) = probed t" for t using phc_tick_same by (simp add: probed_def)
  ultimately have step: "probed (fst (phc_tick t)) \<longrightarrow> pt_tick (fst (phc_tick t)) = Suc n mod period (fst (phc_tick t))"
    if "(k, t) \<in> set ob" for k t using that by blast
  show ?thesis
    unfolding on_time_def
  proof (intro conjI ballI)
    have "map fst (fst (check_task ob)) = map fst ob" by (induction ob) (auto simp: check_task_def)
    then show "distinct (map fst (fst (check_task ob)))" using assms by (simp add: on_time_def)
    fix x assume "x \<in> set (fst (check_task ob))"
    then obtain k t where "(k, t) \<in> set ob" "x = (k, fst (phc_tick t))" by (auto simp: check_task_def)
    then show "case x of (k, t) \<Rightarrow> probed t \<longrightarrow> pt_tick t = Suc n mod period t" using step by simp
  qed
qed

lemma on_time_recover:
  assumes "on_time n ob"
  shows "on_time n (fst (snd (recover_task debug ob u)))"
proof -
  have "map fst (fst (snd (recover_task debug ob u))) = map fst ob"
    by (induction debug ob u rule: recover_task.induct) (auto split: sum.split prod.split)
  moreover have "(k, t1) \<in> set (fst (snd (recover_task debug ob u))) \<Longrightarrow>
      \<exists>t. (k, t) \<in> set ob \<and> pt_service t1 = pt_service t \<and> pt_tick t1 = pt_tick t" for k t1
    by (induction debug ob u rule: recover_task.induct)
      (auto split: sum.splits prod.splits dest: recover_keeps, blast+)
  ultimately show ?thesis using assms by (fastforce simp: on_time_def probed_def period_def)
qed

lemma on_time_targets: "on_time 0 (phc_targets services)"
proof -
  have one: "on_time 0 (obj_set k (new_phc_target svc a) ob)" if "on_time 0 ob" for k svc a ob
  proof -
    have "(k', t') \<in> set (obj_set k v ob) \<Longrightarrow> (k', t') = (k, v) \<or> (k', t') \<in> set ob" for k' t' v
      by (induction ob) (auto split: if_splits)
    then show ?thesis using that by (fastforce simp: on_time_def distinct_update new_phc_target_def)
  qed
  have some: "on_time 0 (foldl (\<lambda>ob a. let t = new_phc_target svc a in obj_set (target_key t) t ob) ob endpoints)"
    if "on_time 0 ob" for svc endpoints ob
    using that by (induction endpoints arbitrary: ob) (simp_all add: Let_def one)
  have "on_time 0 (foldl (\<lambda>ob (name, s, endpoints). if checked s then
       foldl (\<lambda>ob a. let t = new_phc_target (the (make_phc name s)) a in obj_set (target_key t) t ob) ob endpoints
     else ob) ob services)" if "on_time 0 ob" for ob
    using that
  proof (induction services arbitrary: ob)
    case (Cons s services)
    obtain name sc eps where s: "s = (name, sc, eps)" by (cases s)
    show ?case unfolding s foldl_Cons prod.case by (rule Cons.IH) (simp add: Cons.prems some)
  qed simp
  moreover have "on_time 0 []" by (simp add: on_time_def)
  ultimately show ?thesis unfolding phc_targets_def by blast
qed

interpretation health_tasks: history_machine "task_step debug inc" "list_all from_outside"
    "\<lambda>evs (st :: phc_target obj \<times> unhealthy). on_time (check_runs evs) (fst st)" for debug inc
proof
  fix es e and s :: "phc_target obj \<times> unhealthy"
  assume es: "list_all from_outside (es @ [e])" and ok: "on_time (check_runs es) (fst s)"
  show "on_time (check_runs (es @ [e])) (fst (task_step debug inc e s))"
  proof (cases e)
    case CheckTask
    then show ?thesis using on_time_check [OF ok] by (simp add: check_runs_def task_step_def)
  next
    case RecoverTask
    then show ?thesis using on_time_recover [OF ok] by (simp add: check_runs_def task_step_def)
  next
    case (Told ev)
    then show ?thesis using on_time_told [OF ok] es by (simp add: check_runs_def task_step_def)
  qed
qed simp

lemma probes_at:
  assumes "on_time n ob" "(k, t) \<in> set ob"
  shows "(k, p) \<in> set (snd (check_task ob)) \<longleftrightarrow>
     probed t \<and> period t dvd Suc n \<and>
     p = (if truthy (ps_path (pt_service t)) then HttpProbe (the (ps_path (pt_service t))) else TcpProbe)"
proof -
  have "(k, p) \<in> set (snd (check_task ob)) \<longleftrightarrow> p \<noteq> NoProbe \<and> p = snd (phc_tick t)"
    using assms by (force simp: check_task_def on_time_def dest: eq_key_imp_eq_value)
  moreover have "\<not> probed t \<Longrightarrow> snd (phc_tick t) = NoProbe" by (simp add: phc_tick_def probed_def)
  moreover have "probed t \<Longrightarrow> pt_tick t = n mod period t" using assms by (auto simp: on_time_def)
  ultimately show ?thesis using tick_due(2) [of t] due_mod [OF probed_period(1), of t n] by (cases "probed t") auto
qed

text \<open>C29: Probes come on time: whatever answers of probes and failures of requests come in, and
  whoever recovers, the \<open>n\<close>th run of the task probes exactly those targets whose interval,
  rounded up to seconds, divides \<open>n\<close>; with a path over HTTP, else by a connection.\<close>
theorem probes_on_time:
  assumes "list_all from_outside evs" "task_run debug inc evs (phc_targets services, []) = (ts, u)" "(k, t) \<in> set ts"
  shows "(k, p) \<in> set (snd (check_task ts)) \<longleftrightarrow>
     probed t \<and> period t dvd Suc (check_runs evs) \<and>
     p = (if truthy (ps_path (pt_service t)) then HttpProbe (the (ps_path (pt_service t))) else TcpProbe)"
proof -
  have "on_time (check_runs evs) (fst (task_run debug inc evs (phc_targets services, [])))"
    unfolding task_run_def
    by (rule health_tasks.inv_run) (simp_all add: on_time_targets check_runs_def assms(1))
  then show ?thesis using probes_at [OF _ assms(3)] assms(2) by simp
qed

lemma probes_on_time_witness:
  "\<exists>t. (''a:1@svc'', TcpProbe) \<in> set (snd (check_task (fst (task_run False (\<lambda>x y. False)
        [CheckTask, Told (PFail ''a:1@svc''), RecoverTask, CheckTask, CheckTask]
        (phc_targets [(''svc'', Some demo_section, [''a:1''])], []))))) \<and>
     period t = 2 \<and> probed t"
proof -
  let ?evs = "[CheckTask, Told (PFail ''a:1@svc''), RecoverTask, CheckTask, CheckTask]"
  let ?run = "task_run False (\<lambda>x y. False) ?evs (phc_targets [(''svc'', Some demo_section, [''a:1''])], [])"
  have ok: "list_all from_outside ?evs" by simp
  have run: "?run = (fst ?run, snd ?run)" by simp
  have "map (\<lambda>(k, t). (k, ps_interval (pt_service t), ps_path (pt_service t))) (fst ?run) = [(''a:1@svc'', Some 2, None)]"
    by code_simp
  then obtain t where t: "fst ?run = [(''a:1@svc'', t)]" "ps_interval (pt_service t) = Some 2" "ps_path (pt_service t) = None"
    by (cases "fst ?run") auto
  have p: "period t = 2" "probed t" by (simp_all add: period_def probed_def num_gt_def t(2))
  have "(''a:1@svc'', TcpProbe) \<in> set (snd (check_task (fst ?run)))"
    using probes_on_time [OF ok run, of "''a:1@svc''" t TcpProbe] p t by (simp add: check_runs_def)
  then show ?thesis using p by blast
qed

end
