(* ===== verification/Pjs_Rewrite.thy ===== *)
theory Pjs_Rewrite
  imports Pjs_Route
begin

text \<open>
  \<open>pjs/filter/\<close>, \<open>pjs/http/proxy-redirect.js\<close> and \<open>pjs/http/error-page.js\<close>: the filters of a
  rule or of a service that change headers and paths, redirect and mirror, and the
  redirections of responses.
\<close>

subsection \<open>Variables in texts\<close>

text \<open>
  What a variable \<open>$name_member\<close> can name: attributes of a head beyond those of the model's
  record, the consumer and the connection.
\<close>

record var_env =
  ve_attr :: "string \<Rightarrow> string option"
  ve_consumer :: "string \<Rightarrow> string option"
  ve_inbound :: "string \<Rightarrow> string option"

definition head_attr :: "var_env \<Rightarrow> head \<Rightarrow> string \<Rightarrow> string option" where
  "head_attr env h member =
     (if member = ''path'' then Some (hd_path h) else if member = ''method'' then Some (hd_method h)
      else if member = ''status'' then Some (nat_str (hd_status h)) else ve_attr env member)"

definition http_var :: "var_env \<Rightarrow> head option \<Rightarrow> string \<Rightarrow> string \<Rightarrow> string" where
  "http_var env h member val =
     (case h of None \<Rightarrow> val
      | Some h \<Rightarrow>
          if header_truthy (obj_get (hd_headers h) member) then header_text (the (obj_get (hd_headers h) member))
          else or_else (head_attr env h member) val)"

definition resolv_var :: "var_env \<Rightarrow> head option \<Rightarrow> string \<Rightarrow> string" where
  "resolv_var env h val =
     (if starts_with ''$'' val then
        (case index_of CHR ''_'' val of
           None \<Rightarrow> val
         | Some pos \<Rightarrow>
             (let name = take (pos - 1) (drop 1 val); member = drop (pos + 1) val in
              if name = ''http'' then http_var env h member val
              else if name = ''consumer'' then or_else (ve_consumer env member) val
              else if name = ''inbound'' then or_else (ve_inbound env member) val
              else val))
      else val)"

definition resolv_path :: "var_env \<Rightarrow> head option \<Rightarrow> string \<Rightarrow> string" where
  "resolv_path env h path = join_with ''/'' (map (resolv_var env h) (split_on CHR ''/'' path))"

subsection \<open>Filters of a rule\<close>

record mod_conf =
  mo_type :: "string option"
  mo_set :: "(string \<times> string) list option"
  mo_add :: "(string \<times> string) list option"
  mo_remove :: "string list option"

text \<open>A new path is the type of the replacement with the attribute of that name, if it is there.\<close>

record path_conf =
  pn_type :: string
  pn_prefix :: "string option"
  pn_full :: "string option"

record rewrite_conf =
  rw_path :: "path_conf option"
  rw_hostname :: "string option"

record redirect_conf =
  rd_status :: "nat option"
  rd_scheme :: "string option"
  rd_hostname :: "string option"
  rd_port :: "nat option"
  rd_path :: "path_conf option"

record pj_filter =
  fi_type :: string
  fi_request :: "mod_conf option"
  fi_response :: "mod_conf option"
  fi_rewrite :: "rewrite_conf option"
  fi_redirect :: "redirect_conf option"
  fi_mirror :: "string option"

text \<open>The filters of the service come first; those of the rule only when they give no handler.\<close>

definition handlers_of :: "(pj_filter list \<Rightarrow> 'h list) \<Rightarrow> pj_filter list option \<Rightarrow> pj_filter list option \<Rightarrow> 'h list" where
  "handlers_of mk service rule =
     (let hs = mk (or_default service []) in if hs \<noteq> [] then hs else mk (or_default rule []))"

subsection \<open>Header modifiers\<close>

text \<open>
  \<open>responseHead\<close> is what \<open>__responseHead\<close> refers to: \<open>None\<close> while there is no response. The
  request head is the message's own head, whose headers are being changed.
\<close>

definition mod_view :: "mod_conf \<Rightarrow> (head \<Rightarrow> head option) \<Rightarrow> head \<Rightarrow> head option" where
  "mod_view cfg responseHead h =
     (if mo_type cfg = Some ''RequestHeaderModifier'' then Some h else responseHead h)"

definition set_entry :: "var_env \<Rightarrow> (head \<Rightarrow> head option) \<Rightarrow> head \<Rightarrow> string \<times> string \<Rightarrow> head" where
  "set_entry env view h e = h\<lparr>hd_headers := obj_set (fst e) (One (resolv_path env (view h) (snd e))) (hd_headers h)\<rparr>"

definition add_entry :: "var_env \<Rightarrow> (head \<Rightarrow> head option) \<Rightarrow> head \<Rightarrow> string \<times> string \<Rightarrow> head" where
  "add_entry env view h e =
     (let old = obj_get (hd_headers h) (fst e); v = resolv_path env (view h) (snd e) in
      h\<lparr>hd_headers := obj_set (fst e) (One (if header_truthy old then header_text (the old) @ '','' @ v else v)) (hd_headers h)\<rparr>)"

definition remove_entry :: "head \<Rightarrow> string \<Rightarrow> head" where
  "remove_entry h k = h\<lparr>hd_headers := obj_del k (hd_headers h)\<rparr>"

definition apply_modifier :: "var_env \<Rightarrow> (head \<Rightarrow> head option) \<Rightarrow> mod_conf \<Rightarrow> head \<Rightarrow> head" where
  "apply_modifier env responseHead cfg h =
     foldl remove_entry
       (foldl (add_entry env (mod_view cfg responseHead))
         (foldl (set_entry env (mod_view cfg responseHead)) h (or_default (mo_set cfg) []))
         (or_default (mo_add cfg) []))
       (or_default (mo_remove cfg) [])"

definition make_modifier :: "mod_conf option \<Rightarrow> mod_conf option" where
  "make_modifier cfg =
     (case cfg of None \<Rightarrow> None
      | Some c \<Rightarrow> if mo_set c = None \<and> mo_add c = None \<and> mo_remove c = None then None else Some c)"

definition request_modifiers :: "pj_filter list \<Rightarrow> mod_conf list" where
  "request_modifiers fs =
     List.map_filter (\<lambda>f. make_modifier (fi_request f)) (filter (\<lambda>f. fi_type f = ''RequestHeaderModifier'') fs)"

definition response_modifiers :: "pj_filter list \<Rightarrow> mod_conf list" where
  "response_modifiers fs =
     List.map_filter (\<lambda>f. make_modifier (fi_response f)) (filter (\<lambda>f. fi_type f = ''ResponseHeaderModifier'') fs)"

definition modify_request ::
    "var_env \<Rightarrow> pj_filter list option \<Rightarrow> pj_filter list option \<Rightarrow> head \<Rightarrow> head" where
  "modify_request env service rule h =
     foldl (\<lambda>h c. apply_modifier env (\<lambda>_. None) c h) h (handlers_of request_modifiers service rule)"

text \<open>For a response, \<open>known\<close> tells whether the response's head was noted for the variables.\<close>

definition modify_response ::
    "var_env \<Rightarrow> bool \<Rightarrow> pj_filter list option \<Rightarrow> pj_filter list option \<Rightarrow> head \<Rightarrow> head" where
  "modify_response env known service rule h =
     foldl (\<lambda>h c. apply_modifier env (\<lambda>h. if known then Some h else None) c h) h
       (handlers_of response_modifiers service rule)"

subsection \<open>Paths\<close>

definition replace_prefix :: "var_env \<Rightarrow> string \<Rightarrow> string \<Rightarrow> head \<Rightarrow> head" where
  "replace_prefix env path new h =
     h\<lparr>hd_path := resolv_path env (Some h) new @ (if length path < length (hd_path h) then drop (length path) (hd_path h) else [])\<rparr>"

definition replace_full :: "var_env \<Rightarrow> string \<Rightarrow> head \<Rightarrow> head" where
  "replace_full env new h =
     h\<lparr>hd_path := resolv_path env (Some h) new @ drop (length (hd (split_on CHR ''?'' (hd_path h)))) (hd_path h)\<rparr>"

definition path_handle :: "var_env \<Rightarrow> string \<Rightarrow> path_conf option \<Rightarrow> (head \<Rightarrow> head) option" where
  "path_handle env path cfg =
     (case cfg of None \<Rightarrow> None
      | Some c \<Rightarrow>
          if pn_type c = ''ReplacePrefixMatch'' then map_option (replace_prefix env path) (pn_prefix c)
          else if pn_type c = ''ReplaceFullPath'' then map_option (replace_full env) (pn_full c)
          else None)"

definition set_host :: "string option \<Rightarrow> head \<Rightarrow> head" where
  "set_host host h = (if truthy host then h\<lparr>hd_headers := obj_set ''host'' (One (the host)) (hd_headers h)\<rparr> else h)"

definition head_handler :: "var_env \<Rightarrow> string \<Rightarrow> rewrite_conf option \<Rightarrow> (head \<Rightarrow> head) option" where
  "head_handler env path cfg =
     (case cfg of None \<Rightarrow> None
      | Some c \<Rightarrow>
          (if (case rw_path c of Some p \<Rightarrow> pn_type p \<in> {''ReplacePrefixMatch'', ''ReplaceFullPath''} | None \<Rightarrow> False) then
             map_option (\<lambda>f h. set_host (rw_hostname c) (f h)) (path_handle env path (rw_path c))
           else if truthy (rw_hostname c) then Some (set_host (rw_hostname c)) else None))"

definition rewrite_handlers :: "var_env \<Rightarrow> string \<Rightarrow> pj_filter list \<Rightarrow> (head \<Rightarrow> head) list" where
  "rewrite_handlers env path fs =
     List.map_filter (\<lambda>f. head_handler env path (fi_rewrite f)) (filter (\<lambda>f. fi_type f = ''URLRewrite'') fs)"

definition rule_path :: "pj_rule option \<Rightarrow> string" where
  "rule_path rule = or_else (map_option snd (Option.bind rule pr_path)) ''/''"

definition rewrite_request ::
    "var_env \<Rightarrow> pj_rule option \<Rightarrow> pj_filter list option \<Rightarrow> pj_filter list option \<Rightarrow> head \<Rightarrow> head" where
  "rewrite_request env rule service own h =
     foldl (\<lambda>h f. f h) h (handlers_of (rewrite_handlers env (rule_path rule)) service own)"

subsection \<open>Redirects\<close>

text \<open>
  A redirect without a status answers nothing. One without a usable path calls something
  that is no function, and raises. The location is built from the head with its new path.
\<close>

definition redirect_host :: "redirect_conf \<Rightarrow> head \<Rightarrow> string option" where
  "redirect_host c h =
     (let host = (if truthy (rd_hostname c) then rd_hostname c
                  else map_option header_text (obj_get (hd_headers h) ''host'')) in
      if or_default (rd_port c) 0 \<noteq> 0 \<and> truthy host
      then Some (hd (split_on CHR '':'' (the host)) @ '':'' @ nat_str (or_default (rd_port c) 0)) else host)"

definition redirect_message ::
    "var_env \<Rightarrow> string \<Rightarrow> redirect_conf option \<Rightarrow> head \<Rightarrow> js_error + (head \<times> message) option" where
  "redirect_message env path cfg h =
     (case cfg of None \<Rightarrow> Inr None
      | Some c \<Rightarrow>
          if or_default (rd_status c) 0 = 0 then Inr None
          else (case path_handle env path (rd_path c) of
              None \<Rightarrow> Inl TypeError
            | Some f \<Rightarrow>
                (let h1 = f h;
                     scheme = or_else (rd_scheme c) (or_else (head_attr env h ''scheme'') ''http'')
                 in Inr (Some (h1, reply (the (rd_status c))
                      [(''Location'', One (scheme @ ''://'' @ or_default (redirect_host c h) ''undefined'' @ hd_path h1))] [])))))"

definition redirect_configs :: "pj_filter list \<Rightarrow> redirect_conf option list" where
  "redirect_configs fs = map fi_redirect (filter (\<lambda>f. fi_type f = ''RequestRedirect'') fs)"

definition redirect_request ::
    "var_env \<Rightarrow> pj_rule option \<Rightarrow> pj_filter list option \<Rightarrow> pj_filter list option \<Rightarrow> head \<Rightarrow>
     js_error + (head \<times> message) option" where
  "redirect_request env rule service own h =
     (case handlers_of redirect_configs service own of
        [] \<Rightarrow> Inr None
      | c # cs \<Rightarrow> redirect_message env (rule_path rule) c h)"

definition proxy_redirect :: "var_env \<Rightarrow> head \<Rightarrow> string obj \<Rightarrow> headers \<Rightarrow> headers" where
  "proxy_redirect env request pr hs =
     (let change = (\<lambda>name found hs.
        if header_truthy (obj_get hs name) then
          (let loc = header_text (the (obj_get hs name)) in
           case find (\<lambda>(k, v). found k loc \<and> v \<noteq> []) pr of
             None \<Rightarrow> hs
           | Some (k, v) \<Rightarrow> obj_set name (One (replace_first k (resolv_path env (Some request) v) loc)) hs)
        else hs)
      in change ''refresh'' (\<lambda>k loc. contains (''url='' @ k) loc)
           (change ''location'' (\<lambda>k loc. starts_with k loc) hs))"

subsection \<open>Mirrors\<close>

text \<open>The services that mirror a request, and the copies they get.\<close>

definition mirror_services :: "(string \<Rightarrow> bool) \<Rightarrow> pj_filter list \<Rightarrow> string list" where
  "mirror_services known fs =
     filter known (List.map_filter fi_mirror (filter (\<lambda>f. fi_type f = ''RequestMirror'') fs))"

definition mirror_requests ::
    "(string \<Rightarrow> bool) \<Rightarrow> pj_filter list option \<Rightarrow> pj_filter list option \<Rightarrow> message \<Rightarrow> (string \<times> message) list" where
  "mirror_requests known service own msg =
     map (\<lambda>name. (name, msg)) (handlers_of (mirror_services known) service own)"

subsection \<open>Error pages\<close>

record error_conf =
  ep_errors :: "nat list"
  ep_page :: "string option"
  ep_status :: "nat option"
  ep_directory :: "string option"

record error_page =
  ea_status :: "nat option"
  ea_errors :: "nat list"
  ea_message :: "message option"
  ea_directory :: "string option"
  ea_path :: string

text \<open>
  The table of error pages. The variables for the message and the directory are declared
  outside the loop, so an entry inherits those of the entries before it.
\<close>

definition add_error_page ::
    "string option \<Rightarrow> message option \<times> string option \<times> error_page list \<Rightarrow> error_conf \<Rightarrow>
     message option \<times> string option \<times> error_page list" where
  "add_error_page webroot st c =
     (let (message, directory, pages) = st;
          errors = filter (\<lambda>e. 100 \<le> e \<and> e \<le> 599) (ep_errors c);
          page = or_default (ep_page c) []
      in if errors = [] \<or> page = [] then st
         else
           (let status = Option.bind (ep_status c) (\<lambda>s. if 100 \<le> s \<and> s \<le> 599 then Some s else None);
                obj = to_lower page;
                url = starts_with ''http://'' obj \<or> starts_with ''https://'' obj;
                status1 = (if url then Some (or_default status 302) else status);
                message1 = (if url then Some (reply (the status1) [(''Location'', One page)] []) else message);
                directory1 = (if url then directory else if truthy (ep_directory c) then ep_directory c else webroot)
            in (message1, directory1,
                if message1 \<noteq> None \<or> truthy directory1
                then pages @ [\<lparr>ea_status = status1, ea_errors = errors, ea_message = message1,
                               ea_directory = directory1, ea_path = page\<rparr>]
                else pages)))"

definition error_pages :: "string option \<Rightarrow> error_conf list \<Rightarrow> error_page list" where
  "error_pages webroot cs = snd (snd (foldl (add_error_page webroot) (None, None, []) cs))"

text \<open>What happens to a response: it stays, another message takes its place, or a page of a
  directory is served with a status.\<close>

datatype error_answer = Keep | Instead message | ServePage string string nat

definition error_response :: "error_page list \<Rightarrow> nat \<Rightarrow> error_answer" where
  "error_response pages status =
     (case find (\<lambda>p. status \<in> set (ea_errors p)) pages of
        None \<Rightarrow> Keep
      | Some p \<Rightarrow>
          (case ea_message p of
             Some m \<Rightarrow> Instead m
           | None \<Rightarrow> if truthy (ea_directory p)
               then ServePage (the (ea_directory p)) (ea_path p) (or_else_nat (ea_status p) status) else Keep))"

subsection \<open>What a rewrite does to the segments of a path\<close>

text \<open>Where a rule with a prefix leads to a rewrite of that prefix, the segments of the
  prefix are replaced by those of the replacement and all others stay. (This needs a prefix
  without a slash at its end.)\<close>
theorem rewrite_segments:
  assumes "path_prefix (hd_path h) pre" "\<not> ends_with ''/'' pre"
  shows "split_on CHR ''/'' (hd_path (replace_prefix env pre new h)) =
     split_on CHR ''/'' (resolv_path env (Some h) new) @
     drop (length (split_on CHR ''/'' pre)) (split_on CHR ''/'' (hd_path h))"
proof -
  have "prefix (split_on CHR ''/'' pre) (split_on CHR ''/'' (hd_path h))"
    using assms by (simp add: prefix_by_segments_iff)
  then consider "hd_path h = pre" | r where "hd_path h = pre @ CHR ''/'' # r" by (auto simp: prefix_split)
  then show ?thesis
  proof cases
    case 1
    then show ?thesis by (simp add: replace_prefix_def)
  next
    case 2
    then show ?thesis by (simp add: replace_prefix_def split_append_sep)
  qed
qed

definition no_env :: var_env where
  "no_env = \<lparr>ve_attr = (\<lambda>_. None), ve_consumer = (\<lambda>_. None), ve_inbound = (\<lambda>_. None)\<rparr>"

lemma rewrite_segments_witness:
  "split_on CHR ''/'' (hd_path (replace_prefix no_env ''/api'' ''/$http_x'' \<lparr>hd_method = ''GET'', hd_path = ''/api/a'',
       hd_headers = [(''x'', One ''v2'')], hd_status = 0\<rparr>)) = [[], ''v2'', ''a'']"
proof -
  let ?h = "\<lparr>hd_method = ''GET'', hd_path = ''/api/a'', hd_headers = [(''x'', One ''v2'')], hd_status = 0\<rparr>"
  have "path_prefix (hd_path ?h) ''/api''" by code_simp
  moreover have "\<not> ends_with ''/'' ''/api''" by code_simp
  ultimately have "split_on CHR ''/'' (hd_path (replace_prefix no_env ''/api'' ''/$http_x'' ?h)) =
     split_on CHR ''/'' (resolv_path no_env (Some ?h) ''/$http_x'') @
     drop (length (split_on CHR ''/'' ''/api'')) (split_on CHR ''/'' (hd_path ?h))"
    by (rule rewrite_segments)
  moreover have "resolv_path no_env (Some ?h) ''/$http_x'' = ''/v2''" by code_simp
  ultimately show ?thesis by simp
qed

text \<open>With a slash at the end of the prefix the replacement and the rest run together.\<close>

lemma rewrite_glues:
  "hd_path (replace_prefix no_env ''/api/'' ''/xyz'' (no_head\<lparr>hd_path := ''/api/a''\<rparr>)) = ''/xyza''"
  by code_simp

subsection \<open>Variables in request headers\<close>

text \<open>
  The type that decides between the heads is read from the modifier itself, where it is only
  repeated in the older form of the configuration; without it a request has no head to read.
\<close>

lemma request_vars_unresolved:
  assumes "mo_type cfg = None"
  shows "resolv_var env (mod_view cfg (\<lambda>_. None) h) (''$http_'' @ m) = ''$http_'' @ m"
  using assms by (simp add: resolv_var_def mod_view_def http_var_def starts_with_def)

lemma redirect_without_path_raises:
  assumes "rd_status c = Some (Suc n)" "rd_path c = None"
  shows "redirect_message env path (Some c) h = Inl TypeError"
  using assms by (simp add: redirect_message_def path_handle_def)

subsection \<open>Error pages inherit redirects\<close>

definition is_url :: "string \<Rightarrow> bool" where
  "is_url page \<longleftrightarrow> starts_with ''http://'' (to_lower page) \<or> starts_with ''https://'' (to_lower page)"

lemma add_error_page_message:
  assumes "fst st \<noteq> None" "\<forall>p \<in> set (snd (snd st)). ea_message p \<noteq> None"
  shows "fst (add_error_page webroot st c) \<noteq> None"
    "\<forall>p \<in> set (snd (snd (add_error_page webroot st c))). ea_message p \<noteq> None"
  using assms by (cases st; auto simp: add_error_page_def Let_def split: if_splits)+

lemma error_pages_message:
  "fst st \<noteq> None \<Longrightarrow> \<forall>p \<in> set (snd (snd st)). ea_message p \<noteq> None \<Longrightarrow>
   \<forall>p \<in> set (snd (snd (foldl (add_error_page webroot) st cs))). ea_message p \<noteq> None"
proof (induction cs arbitrary: st)
  case (Cons c cs)
  show ?case using Cons.IH [OF add_error_page_message [OF Cons.prems, of webroot c]] by simp
qed simp

text \<open>After an entry that redirects to another site every later entry of the table redirects
  too: the pages of later entries are never served from their directory.\<close>
theorem error_pages_inherit:
  assumes "\<exists>e \<in> set (ep_errors c). 100 \<le> e \<and> e \<le> 599" "ep_page c = Some url" "is_url url"
  shows "error_response (error_pages webroot (c # cs)) status \<noteq> ServePage dir page st"
proof -
  let ?st = "add_error_page webroot (None, None, []) c"
  have errs: "filter (\<lambda>e. 100 \<le> e \<and> e \<le> 599) (ep_errors c) \<noteq> []"
    using assms(1) by (simp add: filter_empty_conv)
  have "url \<noteq> []" using assms(3) by (auto simp: is_url_def to_lower_def starts_with_def)
  then have first: "fst ?st \<noteq> None" "\<forall>p \<in> set (snd (snd ?st)). ea_message p \<noteq> None"
    using errs assms(2,3) by (simp_all add: add_error_page_def is_url_def Let_def)
  from error_pages_message [OF first, of webroot cs]
  have all: "\<forall>p \<in> set (error_pages webroot (c # cs)). ea_message p \<noteq> None" by (simp add: error_pages_def)
  show ?thesis
  proof (cases "find (\<lambda>p. status \<in> set (ea_errors p)) (error_pages webroot (c # cs))")
    case None
    then show ?thesis by (simp add: error_response_def)
  next
    case (Some p)
    have "ea_message p \<noteq> None" using all find_Some_in [OF Some] by blast
    then obtain m where "ea_message p = Some m" by (cases "ea_message p") simp_all
    then show ?thesis using Some by (simp add: error_response_def)
  qed
qed

lemma error_pages_inherit_witness:
  "error_response (error_pages None
     [\<lparr>ep_errors = [404], ep_page = Some ''https://a'', ep_status = None, ep_directory = None\<rparr>,
      \<lparr>ep_errors = [500], ep_page = Some ''500.html'', ep_status = None, ep_directory = Some ''/www''\<rparr>]) 500
   \<noteq> ServePage ''/www'' ''500.html'' 500"
proof (rule error_pages_inherit)
  show "is_url ''https://a''" by code_simp
qed simp_all

end
