(* ===== verification/Pjs_Access.thy ===== *)
theory Pjs_Access
  imports Http Machine
begin

text \<open>
  Access control, rate limits and fault injection of the first version:
  \<open>pjs/common/access-control.js\<close> and its two copies for domains and routes under \<open>pjs/http/\<close>,
  \<open>pjs/http/throttle-*.js\<close> with \<open>initRateLimit\<close> of \<open>pjs/lib/utils.js\<close>, \<open>pjs/common/ratelimit.js\<close>
  and \<open>pjs/http/fault-injection.js\<close>. \<open>Netmask\<close>, \<open>algo.Quota\<close> and \<open>Math.random\<close> are parameters.
\<close>

subsection \<open>Access control lists\<close>

record ip_list =
  il_ips :: "string list"
  il_ranges :: "string list"

definition add_ip :: "ip_list option \<Rightarrow> string \<Rightarrow> ip_list option" where
  "add_ip l o' =
     (let old = or_default l \<lparr>il_ips = [], il_ranges = []\<rparr> in
      case index_of CHR ''/'' o' of
        Some (Suc n) \<Rightarrow> Some (old\<lparr>il_ranges := il_ranges old @ [o']\<rparr>)
      | pos \<Rightarrow> Some (old\<lparr>il_ips := il_ips old @ [o']\<rparr>))"

definition parse_ip_list :: "string list option \<Rightarrow> ip_list option" where
  "parse_ip_list ipList = foldl add_ip None (or_default ipList [])"

record acl_conf =
  al_white :: "string list option"
  al_black :: "string list option"
  al_xff :: bool
  al_status :: "nat option"
  al_message :: "string option"

definition no_acl :: acl_conf where
  "no_acl = \<lparr>al_white = None, al_black = None, al_xff = False, al_status = None, al_message = None\<rparr>"

definition in_list :: "(string \<Rightarrow> string \<Rightarrow> bool) \<Rightarrow> ip_list \<Rightarrow> string \<Rightarrow> bool" where
  "in_list covers l ip \<longleftrightarrow> ip \<in> set (il_ips l) \<or> list_ex (\<lambda>r. covers r ip) (il_ranges l)"

text \<open>\<open>covers r ip\<close>: the netmask \<open>r\<close> contains the address. A white list makes the black one void.\<close>

definition check_acls :: "(string \<Rightarrow> string \<Rightarrow> bool) \<Rightarrow> acl_conf option \<Rightarrow> string \<Rightarrow> bool" where
  "check_acls covers conf ip =
     (let acls = or_default conf no_acl in
      case parse_ip_list (al_white acls) of
        Some white \<Rightarrow> in_list covers white ip
      | None \<Rightarrow> (case parse_ip_list (al_black acls) of
          Some black \<Rightarrow> \<not> in_list covers black ip
        | None \<Rightarrow> True))"

text \<open>For domains and routes the addresses may be those that the request says it came through.\<close>

definition acl_pass :: "(string \<Rightarrow> string \<Rightarrow> bool) \<Rightarrow> acl_conf option \<Rightarrow> headers \<Rightarrow> string \<Rightarrow> bool" where
  "acl_pass covers conf hs remote =
     (let ips = (if al_xff (or_default conf no_acl) then one_of (obj_get hs ''x-forwarded-for'') else None) in
      if truthy ips then list_all (\<lambda>ip. check_acls covers conf (trim ip)) (split_on CHR '','' (the ips))
      else check_acls covers conf remote)"

definition acl_answer :: "(string \<Rightarrow> string \<Rightarrow> bool) \<Rightarrow> acl_conf option \<Rightarrow> headers \<Rightarrow> string \<Rightarrow> message option" where
  "acl_answer covers conf hs remote =
     (if acl_pass covers conf hs remote then None
      else Some (reply (or_else_nat (al_status (or_default conf no_acl)) 403) []
                  (or_else (al_message (or_default conf no_acl)) [])))"

text \<open>The modules: an answered request is counted. A port has no headers to look at and resets its stream.\<close>

definition access_control_domain ::
    "(string \<Rightarrow> string \<Rightarrow> bool) \<Rightarrow> acl_conf option \<Rightarrow> headers \<Rightarrow> string \<Rightarrow> nat \<Rightarrow> message option \<times> nat" where
  "access_control_domain covers conf hs remote aclDomainCounter =
     (case acl_answer covers conf hs remote of
        None \<Rightarrow> (None, aclDomainCounter)
      | Some m \<Rightarrow> (Some m, aclDomainCounter + 1))"

definition access_control_route ::
    "(string \<Rightarrow> string \<Rightarrow> bool) \<Rightarrow> acl_conf option \<Rightarrow> headers \<Rightarrow> string \<Rightarrow> nat \<Rightarrow> message option \<times> nat" where
  "access_control_route covers conf hs remote aclRouteCounter =
     (case acl_answer covers conf hs remote of
        None \<Rightarrow> (None, aclRouteCounter)
      | Some m \<Rightarrow> (Some m, aclRouteCounter + 1))"

datatype port_access = PassStream | ConnectionReset

definition access_control_port :: "(string \<Rightarrow> string \<Rightarrow> bool) \<Rightarrow> acl_conf option \<Rightarrow> string \<Rightarrow> port_access" where
  "access_control_port covers conf remote = (if check_acls covers conf remote then PassStream else ConnectionReset)"

text \<open>What an entry means: a netmask when it has a slash after the first character, else an address.\<close>

definition entry_covers :: "(string \<Rightarrow> string \<Rightarrow> bool) \<Rightarrow> string \<Rightarrow> string \<Rightarrow> bool" where
  "entry_covers covers entry ip = (if CHR ''/'' \<in> set (drop 1 entry) \<and> take 1 entry \<noteq> ''/'' then covers entry ip else ip = entry)"

lemma index_of_pos: "(\<exists>n. index_of c s = Some (Suc n)) \<longleftrightarrow> c \<in> set (drop 1 s) \<and> take 1 s \<noteq> [c]"
proof (cases s)
  case (Cons x xs)
  have "(\<exists>n. index_of c ys = Some n) \<longleftrightarrow> c \<in> set ys" for ys by (induction ys) auto
  then show ?thesis using Cons by auto
qed simp

lemma add_ip_covers:
  "\<exists>l1. add_ip l entry = Some l1 \<and>
     (in_list covers l1 ip \<longleftrightarrow> (case l of None \<Rightarrow> False | Some x \<Rightarrow> in_list covers x ip) \<or> entry_covers covers entry ip)"
proof (cases "\<exists>n. index_of CHR ''/'' entry = Some (Suc n)")
  case True
  then obtain n where n: "index_of CHR ''/'' entry = Some (Suc n)" by (elim exE)
  then have "entry_covers covers entry ip = covers entry ip"
    using index_of_pos [of "CHR ''/''" entry] by (simp add: entry_covers_def)
  then show ?thesis using n by (cases l) (auto simp: add_ip_def in_list_def)
next
  case False
  then have "entry_covers covers entry ip = (ip = entry)"
    using index_of_pos [of "CHR ''/''" entry] by (auto simp: entry_covers_def)
  moreover have "add_ip l entry = (let old = or_default l \<lparr>il_ips = [], il_ranges = []\<rparr> in Some (old\<lparr>il_ips := il_ips old @ [entry]\<rparr>))"
    using False by (auto simp: add_ip_def Let_def split: option.splits nat.splits)
  ultimately show ?thesis by (cases l) (auto simp: in_list_def)
qed

lemma parse_ip_list_covers:
  "case foldl add_ip l entries of
     None \<Rightarrow> l = None \<and> entries = []
   | Some l1 \<Rightarrow> (l \<noteq> None \<or> entries \<noteq> []) \<and>
       (in_list covers l1 ip \<longleftrightarrow> (case l of None \<Rightarrow> False | Some x \<Rightarrow> in_list covers x ip) \<or>
          (\<exists>e \<in> set entries. entry_covers covers e ip))"
proof (induction entries arbitrary: l)
  case Nil
  then show ?case by (simp split: option.split)
next
  case (Cons e entries)
  obtain l1 where l1: "add_ip l e = Some l1"
    "in_list covers l1 ip \<longleftrightarrow> (case l of None \<Rightarrow> False | Some x \<Rightarrow> in_list covers x ip) \<or> entry_covers covers e ip"
    using add_ip_covers [of l e covers ip] by (elim exE conjE)
  show ?case using Cons.IH [of "Some l1"] l1 by (simp split: option.splits)
qed

text \<open>C35: An address passes the lists exactly when it is on the white list, if that has any
  entry, and otherwise when it is not on the black list; of a request that says through
  which addresses it came every one has to pass, where this is enabled.\<close>
theorem acl_exact:
  "acl_answer covers (Some conf) hs remote = None \<longleftrightarrow>
     (\<forall>ip \<in> (let xff = one_of (obj_get hs ''x-forwarded-for'') in
             if al_xff conf \<and> truthy xff then trim ` set (split_on CHR '','' (the xff)) else {remote}).
        if or_default (al_white conf) [] \<noteq> [] then \<exists>e \<in> set (or_default (al_white conf) []). entry_covers covers e ip
        else \<forall>e \<in> set (or_default (al_black conf) []). \<not> entry_covers covers e ip)"
proof -
  have lists: "(case parse_ip_list l of None \<Rightarrow> or_default l [] = []
     | Some x \<Rightarrow> or_default l [] \<noteq> [] \<and> (in_list covers x ip \<longleftrightarrow> (\<exists>e \<in> set (or_default l []). entry_covers covers e ip)))" for l ip
    using parse_ip_list_covers [of None "or_default l []" covers ip]
    by (simp add: parse_ip_list_def split: option.splits)
  have one: "check_acls covers (Some conf) ip \<longleftrightarrow>
      (if or_default (al_white conf) [] \<noteq> [] then \<exists>e \<in> set (or_default (al_white conf) []). entry_covers covers e ip
       else \<forall>e \<in> set (or_default (al_black conf) []). \<not> entry_covers covers e ip)" for ip
    using lists [of "al_white conf" ip] lists [of "al_black conf" ip]
    by (auto simp: check_acls_def split: option.splits)
  show ?thesis
    by (simp add: acl_answer_def acl_pass_def one Let_def list_all_iff)
qed

lemma acl_exact_witness:
  "acl_answer (\<lambda>net ip. net = ''10.0.0.0/8'' \<and> take 3 ip = ''10.'')
     (Some \<lparr>al_white = Some [''10.0.0.0/8'', ''1.2.3.4''], al_black = None, al_xff = True, al_status = None, al_message = None\<rparr>)
     [(''x-forwarded-for'', One ''10.1.1.1, 1.2.3.4'')] ''9.9.9.9'' = None"
  by (rule acl_exact [THEN iffD2]) code_simp

subsection \<open>Rate limits\<close>

record rate_conf =
  rl_backlog :: "nat option"
  rl_burst :: "nat option"
  rl_requests :: "nat option"
  rl_window :: "nat option"
  rl_status :: "nat option"
  rl_headers :: headers

record 'q throttle_limit =
  ra_count :: nat
  ra_backlog :: nat
  ra_quota :: 'q
  ra_response :: message

text \<open>\<open>quota n produce per\<close> is a new quota.\<close>

definition init_rate_limit :: "(nat \<Rightarrow> nat \<Rightarrow> nat \<Rightarrow> 'q) \<Rightarrow> rate_conf option \<Rightarrow> 'q throttle_limit option" where
  "init_rate_limit quota conf =
     map_option (\<lambda>c. \<lparr>ra_count = 0, ra_backlog = or_else_nat (rl_backlog c) 0,
        ra_quota = quota (or_else_nat (rl_burst c) (or_else_nat (rl_requests c) 0))
                     (or_else_nat (rl_requests c) 0) (or_else_nat (rl_window c) 0),
        ra_response = reply (or_else_nat (rl_status c) 429) (rl_headers c) []\<rparr>) conf"

definition bps_quota :: "(nat \<Rightarrow> nat \<Rightarrow> string \<Rightarrow> 'q) \<Rightarrow> nat option \<Rightarrow> 'q option" where
  "bps_quota quota limit = (if 0 < or_default limit 0 then Some (quota (the limit) (the limit) ''1s'') else None)"

text \<open>
  With a backlog a request waits for the quota; it is counted from its start until its
  response starts or its stream ends. \<open>open_reqs\<close> has the streams that were let in, each with
  what it contributes to the count.
\<close>

datatype throttle_event = Arrive nat | Respond nat | Close nat

type_synonym throttle_state = "nat \<times> (nat \<times> nat) list \<times> nat list"

definition throttle_step :: "nat \<Rightarrow> throttle_event \<Rightarrow> throttle_state \<Rightarrow> throttle_state" where
  "throttle_step backlog ev st =
     (let (count, open_reqs, rejected) = st in
      case ev of
        Arrive i \<Rightarrow>
          if backlog < count then (count, open_reqs, rejected @ [i])
          else (count + 1, open_reqs @ [(i, 1)], rejected)
      | Respond i \<Rightarrow>
          (case map_of open_reqs i of
             Some (Suc n) \<Rightarrow> (count - 1, map (\<lambda>(k, m). if k = i then (k, n) else (k, m)) open_reqs, rejected)
           | n \<Rightarrow> st)
      | Close i \<Rightarrow>
          (case map_of open_reqs i of
             None \<Rightarrow> st
           | Some n \<Rightarrow> (count - n, filter (\<lambda>(k, m). k \<noteq> i) open_reqs, rejected)))"

definition throttle_run :: "nat \<Rightarrow> throttle_event list \<Rightarrow> throttle_state \<Rightarrow> throttle_state" where
  "throttle_run backlog evs st = foldl (\<lambda>st ev. throttle_step backlog ev st) st evs"

text \<open>Without a backlog the quota decides at once.\<close>

definition throttle_now :: "('q \<Rightarrow> nat \<times> 'q) \<Rightarrow> 'q throttle_limit \<Rightarrow> message option \<times> 'q throttle_limit" where
  "throttle_now consume r =
     (let (n, q) = consume (ra_quota r) in (if n \<noteq> 1 then Some (ra_response r) else None, r\<lparr>ra_quota := q\<rparr>))"

text \<open>The branches of a throttle module for one request: a limit with a backlog refuses a request when
  too many wait, one without asks its quota. (What happens to the count and to the quota is
  \<open>throttle_step\<close> and \<open>throttle_now\<close>.)\<close>

definition throttle_answer :: "('q \<Rightarrow> nat \<times> 'q) \<Rightarrow> 'q throttle_limit option \<Rightarrow> message option" where
  "throttle_answer consume limit =
     (case limit of None \<Rightarrow> None
      | Some r \<Rightarrow>
          if 0 < ra_backlog r then (if ra_backlog r < ra_count r then Some (ra_response r) else None)
          else fst (throttle_now consume r))"

definition arrivals :: "throttle_event list \<Rightarrow> nat list" where
  "arrivals evs = concat (map (\<lambda>ev. case ev of Arrive i \<Rightarrow> [i] | _ \<Rightarrow> []) evs)"

definition throttle_ok :: "nat \<Rightarrow> nat set \<Rightarrow> throttle_state \<Rightarrow> bool" where
  "throttle_ok backlog seen st \<longleftrightarrow>
     fst st = sum_list (map snd (fst (snd st))) \<and> fst st \<le> backlog + 1 \<and>
     distinct (map fst (fst (snd st))) \<and> fst ` set (fst (snd st)) \<subseteq> seen"

lemma sum_update:
  "distinct (map fst xs) \<Longrightarrow> map_of xs i = Some (Suc n) \<Longrightarrow>
   sum_list (map snd xs) = Suc (sum_list (map snd (map (\<lambda>(k, m). if k = i then (k, n) else (k, m)) xs)))"
proof (induction xs)
  case (Cons x xs)
  show ?case
  proof (cases "fst x = i")
    case True
    have "i \<notin> fst ` set xs" using Cons.prems(1) True by auto
    then have "map (\<lambda>(k, m). if k = i then (k, n) else (k, m)) xs = xs" by (induction xs) auto
    then show ?thesis using True Cons.prems(2) by (cases x) simp
  next
    case False
    then show ?thesis using Cons by (cases x) simp
  qed
qed simp

lemma sum_remove:
  fixes xs :: "(nat \<times> nat) list"
  shows
  "distinct (map fst xs) \<Longrightarrow> map_of xs i = Some n \<Longrightarrow>
   sum_list (map snd xs) = n + sum_list (map snd (filter (\<lambda>(k, m). k \<noteq> i) xs))"
proof (induction xs)
  case (Cons x xs)
  show ?case
  proof (cases "fst x = i")
    case True
    have "i \<notin> fst ` set xs" using Cons.prems(1) True by auto
    then have "filter (\<lambda>(k, m). k \<noteq> i) xs = xs" by (induction xs) auto
    then show ?thesis using True Cons.prems(2) by (cases x) simp
  next
    case False
    then show ?thesis using Cons by (cases x) simp
  qed
qed simp

lemma map_fst_update [simp]: "map fst (map (\<lambda>(k, m). if k = i then (k, n) else (k, m)) xs) = map fst xs"
  by (induction xs) auto

lemma throttle_step_ok:
  assumes "throttle_ok backlog seen st" "\<And>i. ev = Arrive i \<Longrightarrow> i \<notin> seen"
  shows "throttle_ok backlog (seen \<union> set (arrivals [ev])) (throttle_step backlog ev st)"
proof -
  obtain count os rej where st: "st = (count, os, rej)" by (cases st)
  have ok: "count = sum_list (map snd os)" "count \<le> backlog + 1" "distinct (map fst os)" "fst ` set os \<subseteq> seen"
    using assms(1) st by (simp_all add: throttle_ok_def)
  show ?thesis
  proof (cases ev)
    case (Arrive i)
    have "i \<notin> fst ` set os" using assms(2) [OF Arrive] ok(4) by blast
    then show ?thesis using ok by (auto simp: Arrive st throttle_step_def throttle_ok_def arrivals_def)
  next
    case (Respond i)
    show ?thesis
    proof (cases "\<exists>n. map_of os i = Some (Suc n)")
      case True
      then obtain n where n: "map_of os i = Some (Suc n)" by (elim exE)
      have keys: "fst ` set (map (\<lambda>(k, m). if k = i then (k, n) else (k, m)) os) = fst ` set os"
        using arg_cong [OF map_fst_update [of i n os], of set] unfolding set_map [symmetric] .
      show ?thesis
        using n ok sum_update [OF ok(3) n] keys
        by (simp add: Respond st throttle_step_def throttle_ok_def arrivals_def del: map_map)
    next
      case False
      then have "throttle_step backlog ev st = st"
        by (simp add: Respond st throttle_step_def split: option.split nat.split)
      then show ?thesis using assms(1) by (simp add: Respond arrivals_def)
    qed
  next
    case (Close i)
    show ?thesis
    proof (cases "map_of os i")
      case None
      then show ?thesis using assms(1) by (simp add: Close st throttle_step_def throttle_ok_def arrivals_def)
    next
      case (Some n)
      have "distinct (map fst (filter (\<lambda>(k, m). k \<noteq> i) os))" by (rule distinct_map_filter [OF ok(3)])
      moreover have "fst ` set (filter (\<lambda>(k, m). k \<noteq> i) os) \<subseteq> seen" using ok(4) by auto
      ultimately show ?thesis
        using ok Some sum_remove [OF ok(3) Some]
        by (simp add: Close st throttle_step_def throttle_ok_def arrivals_def)
    qed
  qed
qed

lemma arrivals_snoc: "arrivals (evs @ evs') = arrivals evs @ arrivals evs'"
  by (simp add: arrivals_def)

interpretation throttle: history_machine "throttle_step backlog" "\<lambda>evs. distinct (arrivals evs)"
    "\<lambda>evs. throttle_ok backlog (set (arrivals evs))" for backlog
proof
  fix evs ev st
  assume d: "distinct (arrivals (evs @ [ev]))" and ok: "throttle_ok backlog (set (arrivals evs)) st"
  have "i \<notin> set (arrivals evs)" if "ev = Arrive i" for i
    using d that by (simp add: arrivals_snoc) (simp add: arrivals_def)
  from throttle_step_ok [OF ok this] show "throttle_ok backlog (set (arrivals (evs @ [ev]))) (throttle_step backlog ev st)"
    by (simp add: arrivals_snoc)
qed (simp add: arrivals_snoc)

lemma throttle_run_ok:
  "distinct (arrivals evs) \<Longrightarrow> throttle_ok backlog (set (arrivals evs)) (throttle_run backlog evs (0, [], []))"
  unfolding throttle_run_def by (rule throttle.inv_run) (simp add: throttle_ok_def arrivals_def)



subsection \<open>Faults\<close>

text \<open>A \<open>Math.floor(Math.random() * 100)\<close> is a roll below 100; a second roll chooses from a range.\<close>

record delay_conf =
  dl_percent :: num_js
  dl_fixed :: num_js
  dl_unit :: "string option"
  dl_range :: "string option"

record abort_conf =
  ab_percent :: num_js
  ab_status :: "nat option"
  ab_message :: "string option"

definition hit :: "num_js \<Rightarrow> nat \<Rightarrow> bool" where
  "hit percent roll = num_ge percent (Some (of_nat roll))"

definition delay_unit :: "string option \<Rightarrow> rat" where
  "delay_unit u =
     (if map_option to_lower u = Some ''s'' then 1 else if map_option to_lower u = Some ''m'' then 60 else 1 / 1000)"

text \<open>\<open>pick lo hi\<close>: a whole number from a range.\<close>

definition delay_fault :: "(rat \<Rightarrow> rat \<Rightarrow> rat) \<Rightarrow> delay_conf option \<Rightarrow> nat \<Rightarrow> rat" where
  "delay_fault pick conf roll =
     (case conf of None \<Rightarrow> 0
      | Some d \<Rightarrow>
          if \<not> num_gt (dl_percent d) 0 then 0
          else if truthy (dl_range d) then
            (case split_on CHR ''-'' (the (dl_range d)) of
               lo # hi # others \<Rightarrow>
                 (case (to_number lo, to_number hi) of
                    (Some a, Some b) \<Rightarrow>
                      if 0 \<le> a \<and> a \<le> b \<and> hit (dl_percent d) roll then pick a b * delay_unit (dl_unit d) else 0
                  | _ \<Rightarrow> 0)
             | xs \<Rightarrow> 0)
          else (case dl_fixed d of None \<Rightarrow> 0
            | Some f \<Rightarrow> if 0 < f \<and> hit (dl_percent d) roll then f * delay_unit (dl_unit d) else 0))"

text \<open>
  An abort; the route type is read from the domain, so that a request without a domain raises.
  A gRPC error is a status and a message in the tail.
\<close>

datatype abort_answer = HttpAbort message | GrpcAbort nat string

definition abort_fault ::
    "string option option \<Rightarrow> abort_conf option \<Rightarrow> nat \<Rightarrow> js_error + abort_answer option" where
  "abort_fault domainType conf roll =
     (case conf of None \<Rightarrow> Inr None
      | Some a \<Rightarrow>
          if num_gt (ab_percent a) 0 \<and> 0 < or_default (ab_status a) 0 then
            (case domainType of None \<Rightarrow> Inl TypeError
             | Some ty \<Rightarrow>
                 Inr (if hit (ab_percent a) roll then
                        Some (if ty = Some ''GRPC'' then GrpcAbort (the (ab_status a)) (or_else (ab_message a) [])
                              else HttpAbort (reply (the (ab_status a)) [] (or_else (ab_message a) [])))
                      else None))
          else Inr None)"

definition fault_of :: "'f option \<Rightarrow> 'f option \<Rightarrow> 'f option \<Rightarrow> 'f option" where
  "fault_of route domain conf = (case route of Some f \<Rightarrow> Some f | None \<Rightarrow> (case domain of Some f \<Rightarrow> Some f | None \<Rightarrow> conf))"

text \<open>Of the 100 rolls one too many is a hit: a percentage of \<open>p\<close> aborts \<open>p + 1\<close> percent.\<close>

lemma abort_one_more:
  assumes "ab_percent a = Some (of_nat p)" "0 < p" "p < 100" "ab_status a = Some (Suc s)"
  shows "card {roll. roll < 100 \<and> abort_fault (Some ty) (Some a) roll \<noteq> Inr None} = p + 1"
proof -
  have "abort_fault (Some ty) (Some a) roll \<noteq> Inr None \<longleftrightarrow> roll \<le> p" for roll
    using assms by (simp add: abort_fault_def hit_def num_gt_def)
  then have "{roll. roll < 100 \<and> abort_fault (Some ty) (Some a) roll \<noteq> Inr None} = {..p}"
    using assms(3) by auto
  then show ?thesis by simp
qed

end
