(* ===== verification/Pjs_Web.thy ===== *)
theory Pjs_Web
  imports Pjs_Forward
begin

text \<open>
  \<open>pjs/http/auth.js\<close>, the consumers that requests name in their headers, with the check in
  \<open>pjs/http/service.js\<close>; and \<open>pjs/server/web-server.js\<close>, the choice of files, content types and
  compression. \<open>http.Directory\<close> is a parameter: what it serves for a path.
\<close>

subsection \<open>Consumers\<close>

text \<open>A consumer's name and its header values; the table has, by header and value, the last
  consumer that lists them.\<close>

record consumer =
  cm_name :: string
  cm_headers :: "string obj"

type_synonym auth_table = "consumer obj obj"

definition add_authorization :: "consumer \<Rightarrow> auth_table \<Rightarrow> string \<times> string \<Rightarrow> auth_table" where
  "add_authorization c tab e =
     obj_set (fst e) (obj_set (snd e) c (or_default (obj_get tab (fst e)) [])) tab"

definition auth_table :: "consumer list \<Rightarrow> auth_table" where
  "auth_table cs = foldl (\<lambda>tab c. foldl (add_authorization c) tab (cm_headers c)) [] cs"

text \<open>The value of a header as the key of a table: a missing header reads as \<open>undefined\<close>.\<close>

definition auth_key :: "headers \<Rightarrow> string \<Rightarrow> string" where
  "auth_key hs h = or_default (map_option header_text (obj_get hs h)) ''undefined''"

fun find_consumer :: "auth_table \<Rightarrow> headers \<Rightarrow> consumer option" where
  "find_consumer [] hs = None"
| "find_consumer ((h, tab) # rest) hs =
     (case obj_get tab (auth_key hs h) of Some c \<Rightarrow> Some c | None \<Rightarrow> find_consumer rest hs)"

text \<open>What the check of \<open>service.js\<close> sees: a consumer that has a list of headers.\<close>

definition authorized :: "consumer list \<Rightarrow> headers \<Rightarrow> bool" where
  "authorized cs hs \<longleftrightarrow> find_consumer (auth_table cs) hs \<noteq> None"

text \<open>
  The consumer that later modules see, as an object of fields: the fields of one that the headers
  name are set on the one of the TLS layer, if there is one.
\<close>

definition auth_start :: "'v obj option \<Rightarrow> 'v obj option \<Rightarrow> 'v obj option" where
  "auth_start tls found =
     (case found of
        None \<Rightarrow> tls
      | Some c \<Rightarrow>
          (case tls of None \<Rightarrow> Some c | Some t \<Rightarrow> Some (foldl (\<lambda>ob e. obj_set (fst e) (snd e) ob) t c)))"

lemma auth_start_fields:
  assumes "distinct (map fst c)"
  shows "\<exists>m. auth_start (Some t) (Some c) = Some m \<and>
     (\<forall>k. obj_get m k = (case obj_get c k of Some v \<Rightarrow> Some v | None \<Rightarrow> obj_get t k))"
proof -
  have "obj_get (foldl (\<lambda>ob e. obj_set (fst e) (snd e) ob) t c) k =
      (case obj_get c k of Some v \<Rightarrow> Some v | None \<Rightarrow> obj_get t k)" for k
    using assms
  proof (induction c arbitrary: t)
    case (Cons e c)
    have "fst e = k \<Longrightarrow> obj_get c k = None" using Cons.prems by (auto simp: map_of_eq_None_iff)
    then show ?case using Cons.IH Cons.prems by (cases e; cases "obj_get c k") auto
  qed simp
  then show ?thesis by (simp add: auth_start_def)
qed

definition table_ok :: "consumer list \<Rightarrow> auth_table \<Rightarrow> bool" where
  "table_ok cs tab \<longleftrightarrow>
     distinct (map fst tab) \<and>
     (\<forall>h t. (h, t) \<in> set tab \<longrightarrow> (\<forall>v c. obj_get t v = Some c \<longrightarrow> c \<in> set cs \<and> (h, v) \<in> set (cm_headers c)))"

lemma add_authorization_ok:
  assumes "table_ok cs tab" "c \<in> set cs" "e \<in> set (cm_headers c)"
  shows "table_ok cs (add_authorization c tab e)"
proof -
  have tab: "c' \<in> set cs \<and> (h, v) \<in> set (cm_headers c')" if "obj_get tab h = Some t" "obj_get t v = Some c'" for h t v c'
    using assms(1) that map_of_SomeD [OF that(1)] unfolding table_ok_def by blast
  have dist: "distinct (map fst (add_authorization c tab e))"
    using assms(1) by (simp add: table_ok_def add_authorization_def distinct_update)
  have "c' \<in> set cs \<and> (h, v) \<in> set (cm_headers c')"
    if t: "(h, t) \<in> set (add_authorization c tab e)" "obj_get t v = Some c'" for h t v c'
  proof -
    have "obj_get (add_authorization c tab e) h = Some t" using dist t(1) by simp
    then have t': "(if h = fst e then Some (obj_set (snd e) c (or_default (obj_get tab (fst e)) [])) else obj_get tab h) = Some t"
      by (simp add: add_authorization_def)
    show ?thesis
    proof (cases "h = fst e")
      case True
      then have "t = obj_set (snd e) c (or_default (obj_get tab (fst e)) [])" using t' by simp
      then have look: "(if v = snd e then Some c else obj_get (or_default (obj_get tab (fst e)) []) v) = Some c'"
        using t(2) by simp
      show ?thesis
      proof (cases "v = snd e")
        case True
        then show ?thesis using look assms(2,3) \<open>h = fst e\<close> by simp
      next
        case False
        then have "obj_get (or_default (obj_get tab (fst e)) []) v = Some c'" using look by simp
        then show ?thesis using tab \<open>h = fst e\<close> by (cases "obj_get tab (fst e)") simp_all
      qed
    next
      case False
      then show ?thesis using t' tab t(2) by simp
    qed
  qed
  then show ?thesis using dist unfolding table_ok_def by blast
qed

lemma add_authorizations_ok:
  "table_ok cs tab \<Longrightarrow> c \<in> set cs \<Longrightarrow> set es \<subseteq> set (cm_headers c) \<Longrightarrow> table_ok cs (foldl (add_authorization c) tab es)"
  by (induction es arbitrary: tab) (simp_all add: add_authorization_ok)

lemma auth_table_ok: "table_ok cs (auth_table cs)"
proof -
  have "table_ok cs (foldl (\<lambda>tab c. foldl (add_authorization c) tab (cm_headers c)) tab cs')"
    if "table_ok cs tab" "set cs' \<subseteq> set cs" for tab cs'
    using that by (induction cs' arbitrary: tab) (simp_all add: add_authorizations_ok)
  moreover have "table_ok cs []" by (simp add: table_ok_def)
  ultimately show ?thesis by (simp add: auth_table_def)
qed

lemma find_consumer_in:
  "find_consumer tab hs = Some c \<Longrightarrow> \<exists>h t. (h, t) \<in> set tab \<and> obj_get t (auth_key hs h) = Some c"
proof (induction tab)
  case (Cons e tab)
  obtain h t where e: "e = (h, t)" by (cases e)
  show ?case
  proof (cases "obj_get t (auth_key hs h)")
    case None
    then have "find_consumer tab hs = Some c" using Cons.prems e by simp
    from Cons.IH [OF this] obtain h' t' where "(h', t') \<in> set tab" "obj_get t' (auth_key hs h') = Some c" by (elim exE conjE)
    then show ?thesis by (intro exI [of _ h'] exI [of _ t']) simp
  next
    case (Some c')
    then have "c' = c" using Cons.prems e by simp
    then show ?thesis using Some e by (intro exI [of _ h] exI [of _ t]) simp
  qed
qed simp

text \<open>A route that asks for the authorization of headers serves a request only when it carries
  a header with a value that some consumer lists; where a consumer lists the text
  \<open>undefined\<close>, a request without the header is served too.\<close>
theorem protected_route_checked:
  assumes "service_start known a (authorized cs hs) serverRoot lent remote hs = way" "ac_enabled a"
    and "\<forall>m. way \<noteq> Unauthorized m"
  shows "\<exists>c \<in> set cs. \<exists>(h, v) \<in> set (cm_headers c).
     (case obj_get hs h of Some x \<Rightarrow> header_text x = v | None \<Rightarrow> v = ''undefined'')"
proof -
  have "authorized cs hs"
  proof (rule ccontr)
    assume "\<not> authorized cs hs"
    then have "way = Unauthorized (unauthorized_message a)"
      using assms(1,2) by (simp add: service_start_def unauthorized_def Let_def)
    then show False using assms(3) by simp
  qed
  then obtain c where "find_consumer (auth_table cs) hs = Some c"
    by (cases "find_consumer (auth_table cs) hs") (simp_all add: authorized_def)
  from find_consumer_in [OF this] obtain h t where t: "(h, t) \<in> set (auth_table cs)" "obj_get t (auth_key hs h) = Some c"
    by (elim exE conjE)
  then have c: "c \<in> set cs" "(h, auth_key hs h) \<in> set (cm_headers c)"
    using auth_table_ok [of cs] unfolding table_ok_def by blast+
  have "case obj_get hs h of Some x \<Rightarrow> header_text x = auth_key hs h | None \<Rightarrow> auth_key hs h = ''undefined''"
    by (simp add: auth_key_def split: option.split)
  then have "\<exists>(h, v) \<in> set (cm_headers c). (case obj_get hs h of Some x \<Rightarrow> header_text x = v | None \<Rightarrow> v = ''undefined'')"
    using c(2) by (intro bexI [of _ "(h, auth_key hs h)"]) simp_all
  then show ?thesis using c(1) by (rule bexI)
qed

lemma protected_route_checked_witness:
  "\<exists>c \<in> set [\<lparr>cm_name = ''u'', cm_headers = [(''apikey'', ''k1'')]\<rparr>]. \<exists>(h, v) \<in> set (cm_headers c).
     (case obj_get [(''apikey'', One ''k1'')] h of Some x \<Rightarrow> header_text x = v | None \<Rightarrow> v = ''undefined'')"
proof (rule protected_route_checked [where a = "\<lparr>ac_enabled = True, ac_type = None\<rparr>"])
  show "service_start (\<lambda>n. True) \<lparr>ac_enabled = True, ac_type = None\<rparr>
      (authorized [\<lparr>cm_name = ''u'', cm_headers = [(''apikey'', ''k1'')]\<rparr>] [(''apikey'', One ''k1'')])
      (Some ''/www'') None ''10.0.0.1'' [(''apikey'', One ''k1'')] = ServeFiles ''/www''"
    by code_simp
qed simp_all

subsection \<open>Files\<close>

definition get_ext :: "string \<Rightarrow> string" where
  "get_ext url =
     (case last_index_of CHR ''.'' url of
        None \<Rightarrow> []
      | Some dot \<Rightarrow>
          (case last_index_of CHR ''/'' url of
             Some slash \<Rightarrow> if slash < dot then drop (dot + 1) url else []
           | None \<Rightarrow> drop (dot + 1) url))"

text \<open>The extensions of the types: a key of the file names several, with spaces.\<close>

definition ext_types :: "string obj \<Rightarrow> string obj" where
  "ext_types mime =
     foldl (\<lambda>ob e. obj_set (fst e) (snd e) ob) []
       (concat (map (\<lambda>(exts, ty). map (\<lambda>x. (x, ty)) (filter (\<lambda>x. x \<noteq> []) (split_on CHR '' '' exts))) mime))"

definition default_mime :: "string option \<Rightarrow> string option \<Rightarrow> string option \<Rightarrow> string option" where
  "default_mime route domain conf = (if truthy route then route else if truthy domain then domain else conf)"

definition content_type :: "string obj \<Rightarrow> string option \<Rightarrow> string \<Rightarrow> string" where
  "content_type types deflt ext = or_else (obj_get types ext) (or_else deflt ''application/octet-stream'')"

record gzip_conf =
  gz_disabled :: bool
  gz_minLength :: num_js
  gz_types :: "string list"
  gz_version :: "string option"
  gz_agents :: "string option"

definition gzip_wanted ::
    "(string \<Rightarrow> string \<Rightarrow> bool) \<Rightarrow> gzip_conf option \<Rightarrow> nat \<Rightarrow> string \<Rightarrow> string \<Rightarrow> string \<Rightarrow> bool" where
  "gzip_wanted regex gz fileSize ctype version agent =
     (case gz of None \<Rightarrow> False
      | Some g \<Rightarrow>
          \<not> gz_disabled g \<and>
          (if num_ge (gz_minLength g) (Some 0) then the (gz_minLength g) else 1024) \<le> of_nat fileSize \<and>
          ctype \<in> set (gz_types g) \<and>
          (\<not> truthy (gz_version g) \<or> \<not> str_less version (''HTTP/'' @ the (gz_version g))) \<and>
          (\<not> truthy (gz_agents g) \<or> \<not> regex (the (gz_agents g)) agent))"

definition encoding_of :: "bool \<Rightarrow> bool \<Rightarrow> string" where
  "encoding_of acceptsGzip wanted = (if acceptsGzip \<and> wanted then ''gzip'' else [])"

definition try_files :: "string list option \<Rightarrow> string \<Rightarrow> string list" where
  "try_files tries uri =
     (case tries of None \<Rightarrow> [uri]
      | Some fs \<Rightarrow> map (\<lambda>f. replace_first ''//'' ''/''
          (join_with ''/'' (map (replace_first ''$uri'' uri) (split_on CHR ''/'' f)))) fs)"

text \<open>One candidate: \<open>=404\<close> is a status, anything else a path of the directory \<open>serve\<close>.\<close>

definition make_message :: "(string \<Rightarrow> message option) option \<Rightarrow> string \<Rightarrow> message option" where
  "make_message serve uri =
     (if starts_with ''='' uri then
        (case to_number (drop 1 uri) of
           Some n \<Rightarrow> if 0 < n then Some (reply (nat \<lfloor>n\<rfloor>) [] []) else None
         | None \<Rightarrow> None)
      else (case serve of None \<Rightarrow> None | Some dir \<Rightarrow> dir uri))"

fun first_some :: "('a \<Rightarrow> 'b option) \<Rightarrow> 'a list \<Rightarrow> 'b option" where
  "first_some f [] = None"
| "first_some f (x # xs) = (case f x of None \<Rightarrow> first_some f xs | Some y \<Rightarrow> Some y)"

definition serve_file :: "(string \<Rightarrow> message option) option \<Rightarrow> string list option \<Rightarrow> string \<Rightarrow> message" where
  "serve_file serve tries path =
     (if path = [] then reply 404 [] ''Not Found''
      else or_default (first_some (make_message serve) (try_files tries (hd (split_on CHR ''?'' path))))
             (reply 404 [] ''Not Found''))"

text \<open>The callbacks of a directory: the type and the compression of a file by its path.\<close>

definition content_types :: "string obj \<Rightarrow> string option \<Rightarrow> string \<Rightarrow> string" where
  "content_types types deflt pathname = content_type types deflt (get_ext pathname)"

definition compression ::
    "(string \<Rightarrow> string \<Rightarrow> bool) \<Rightarrow> gzip_conf option \<Rightarrow> string obj \<Rightarrow> string option \<Rightarrow> bool \<Rightarrow> string \<Rightarrow> string \<Rightarrow>
     string \<Rightarrow> nat \<Rightarrow> string" where
  "compression regex gz types deflt acceptsGzip protocol agent pathname fileSize =
     encoding_of acceptsGzip (gzip_wanted regex gz fileSize (content_types types deflt pathname) protocol agent)"

text \<open>
  The directory of a root: a path of the file system, or one below \<open>/static/\<close> of the scripts. The
  cache has only the root as its key, though the index files are those of the route.
\<close>

record directory =
  dy_path :: string
  dy_fs :: bool
  dy_index :: "string list"

definition make_directory :: "string \<Rightarrow> string list option \<Rightarrow> directory" where
  "make_directory dir index =
     (if starts_with ''/'' dir then \<lparr>dy_path = dir, dy_fs = True, dy_index = or_default index [''index.html'']\<rparr>
      else \<lparr>dy_path = ''/static/'' @ dir, dy_fs = False, dy_index = or_default index [''index.html'']\<rparr>)"

definition dir_cache_get :: "string \<Rightarrow> string list option \<Rightarrow> directory obj \<Rightarrow> directory \<times> directory obj" where
  "dir_cache_get dir index cache =
     (case obj_get cache dir of
        Some d \<Rightarrow> (d, cache)
      | None \<Rightarrow> (let d = make_directory dir index in (d, obj_set dir d cache)))"

lemma index_of_first_route:
  "fst (dir_cache_get dir index2 (snd (dir_cache_get dir index1 []))) = make_directory dir index1"
  by (simp add: dir_cache_get_def Let_def)

text \<open>A path with a dot only in a directory has no extension.\<close>

lemma get_ext_file: "CHR ''.'' \<notin> set x \<Longrightarrow> CHR ''/'' \<notin> set x \<Longrightarrow> get_ext (p @ ''.'' @ x) = x"
proof -
  assume x: "CHR ''.'' \<notin> set x" "CHR ''/'' \<notin> set x"
  have none: "last_index_of c ys = None" if "c \<notin> set ys" for c ys using that by (induction ys) auto
  have dot: "last_index_of CHR ''.'' (p @ CHR ''.'' # x) = Some (length p)"
    using none [OF x(1)] by (induction p) simp_all
  have "case last_index_of CHR ''/'' (p @ CHR ''.'' # x) of Some i \<Rightarrow> i < length p | None \<Rightarrow> True"
    using none [OF x(2)] by (induction p) (auto split: option.splits)
  then show ?thesis using dot by (simp add: get_ext_def split: option.splits)
qed

end
