(* ===== verification/Pjs_Stream.thy ===== *)
theory Pjs_Stream
  imports Pjs_Forward Pjs_Health
begin

text \<open>
  The streams of the first version: \<open>pjs/tls/passthrough.js\<close>, \<open>pjs/tls/forward.js\<close>,
  \<open>pjs/tcp/forward.js\<close>, \<open>pjs/udp/forward.js\<close>, \<open>pjs/common/tls-termination.js\<close> and the choice of
  \<open>pjs/lib/connect-tls.js\<close>. What a load balancer lends is an input; certificates are given by
  the names they hold.
\<close>

subsection \<open>Server names\<close>

text \<open>A name, else the wildcard for its first label, else the wildcard for everything.\<close>

definition match_host :: "'v obj \<Rightarrow> string \<Rightarrow> 'v option" where
  "match_host rules host =
     (if host = [] then None
      else case obj_get rules host of
        Some cfg \<Rightarrow> Some cfg
      | None \<Rightarrow>
          (case (case index_of CHR ''.'' host of
                   Some (Suc n) \<Rightarrow> obj_get rules (''*'' @ drop (Suc n) host)
                 | pos \<Rightarrow> None) of
             Some cfg \<Rightarrow> Some cfg
           | None \<Rightarrow> obj_get rules ''*''))"

text \<open>The target of a stream that is passed through: the configured address with a port.\<close>

definition passthrough_target :: "string option \<Rightarrow> string obj \<Rightarrow> string \<Rightarrow> string option" where
  "passthrough_target deflt rules sni =
     (let upstream = or_default (match_host rules sni) [];
          port = or_else deflt ''443'';
          found = (\<lambda>i. case i of Some (Suc n) \<Rightarrow> True | j \<Rightarrow> False)
      in if upstream = [] then None
         else if starts_with ''['' upstream then
           (if contains '']:'' upstream then Some upstream else Some (upstream @ '':'' @ port))
         else if found (index_of CHR '':'' upstream) then Some upstream
         else Some (upstream @ '':'' @ port))"

subsection \<open>Forwarding streams\<close>

text \<open>Streams behind TLS termination only use endpoints with a positive weight; TCP and UDP use
  those of \<open>balanced_endpoints\<close>.\<close>

definition tls_endpoints :: "pj_service \<Rightarrow> num_js obj" where
  "tls_endpoints s = filter (\<lambda>(k, w). num_gt w 0) (map (\<lambda>(k, v). (k, en_weight v)) (sv_endpoints s))"

text \<open>
  The service lent for the port or the server name, and the target lent for it. A balancer
  that lends no service raises where its name is read; UDP asks whether there is one.
\<close>

record stream_plan =
  sm_service :: "string option"
  sm_target :: "string option"
  sm_cert :: "string option"

definition no_plan :: stream_plan where
  "no_plan = \<lparr>sm_service = None, sm_target = None, sm_cert = None\<rparr>"

definition stream_cert :: "pj_service \<Rightarrow> string \<Rightarrow> string option" where
  "stream_cert s target =
     (let own = Option.bind (obj_get (sv_endpoints s) target) en_cert in if truthy own then own else sv_cert s)"

definition plan_with :: "pj_service obj \<Rightarrow> string \<Rightarrow> (pj_service \<Rightarrow> string option) \<Rightarrow> stream_plan" where
  "plan_with services name lend =
     (case obj_get services name of
        None \<Rightarrow> no_plan
      | Some s \<Rightarrow> \<lparr>sm_service = Some name, sm_target = lend s, sm_cert = Option.bind (lend s) (stream_cert s)\<rparr>)"

definition plan_stream ::
    "pj_service obj \<Rightarrow> string option option \<Rightarrow> (pj_service \<Rightarrow> string option) \<Rightarrow> js_error + stream_plan" where
  "plan_stream services balancer lend =
     (case balancer of
        None \<Rightarrow> Inr no_plan
      | Some None \<Rightarrow> Inl TypeError
      | Some (Some name) \<Rightarrow> Inr (plan_with services name lend))"

definition plan_udp ::
    "pj_service obj \<Rightarrow> string option option \<Rightarrow> (pj_service \<Rightarrow> string option) \<Rightarrow> stream_plan" where
  "plan_udp services balancer lend =
     (case Option.bind balancer (\<lambda>b. b) of
        None \<Rightarrow> no_plan
      | Some name \<Rightarrow> (plan_with services name lend)\<lparr>sm_cert := None\<rparr>)"

text \<open>What happens to a stream with a plan, and what its end says about the target.\<close>

datatype stream_way = CloseStream | OverTLS string | OverTCP string

definition stream_way :: "stream_plan \<Rightarrow> stream_way" where
  "stream_way p =
     (case sm_target p of
        None \<Rightarrow> CloseStream
      | Some t \<Rightarrow> if truthy (sm_cert p) then OverTLS t else OverTCP t)"

definition stream_end ::
    "string option \<Rightarrow> phc_target \<Rightarrow> unhealthy \<Rightarrow> phc_target \<times> unhealthy \<times> phc_notice" where
  "stream_end err t u =
     (if \<not> truthy err \<or> err = Some ''ReadTimeout'' \<or> err = Some ''WriteTimeout'' \<or> err = Some ''IdleTimeout''
      then phc_ok t u else phc_fail t u)"

text \<open>The TLS of a connection: a certificate with its key, the bare use of TLS, or neither.\<close>

datatype tls_way = ClientCert | PlainTLS | NoTLS

definition connect_tls :: "bool \<Rightarrow> bool \<Rightarrow> tls_way" where
  "connect_tls hasPair useSSL = (if hasPair then ClientCert else if useSSL then PlainTLS else NoTLS)"

text \<open>The authorities of all services, each once; a text stands for its hash.\<close>

definition union_ca :: "string option list \<Rightarrow> string list" where
  "union_ca cas = foldl (\<lambda>acc ca. if \<not> truthy ca \<or> the ca \<in> set acc then acc else acc @ [the ca]) [] cas"

text \<open>
  The certificate of the program itself is used for nothing but its authority, which is trusted
  too, without a look whether it is in the list already. A certificate is presented when it has
  a chain and a key; with it HTTP/2 is offered, and the server name is the host of the endpoint.
\<close>

record pj_cert =
  ct_chain :: "string option"
  ct_key :: "string option"
  ct_ca :: "string option"

definition key_pair :: "pj_cert option \<Rightarrow> (string \<times> string) option" where
  "key_pair c =
     (case c of None \<Rightarrow> None
      | Some x \<Rightarrow> if truthy (ct_chain x) \<and> truthy (ct_key x) then Some (the (ct_chain x), the (ct_key x)) else None)"

definition trusted_ca :: "pj_cert option \<Rightarrow> string option list \<Rightarrow> string list" where
  "trusted_ca own cas =
     union_ca cas @
     (if key_pair own \<noteq> None \<and> truthy (Option.bind own ct_ca) then [the (Option.bind own ct_ca)] else [])"

record tls_options =
  to_pair :: "(string \<times> string) option"
  to_trusted :: "string list"
  to_alpn :: "string option"
  to_sni :: string

definition connect_options :: "string list \<Rightarrow> pj_cert option \<Rightarrow> bool \<Rightarrow> string option \<Rightarrow> tls_options option" where
  "connect_options trusted cert useSSL host =
     (case connect_tls (key_pair cert \<noteq> None) useSSL of
        ClientCert \<Rightarrow> Some \<lparr>to_pair = key_pair cert, to_trusted = trusted, to_alpn = Some ''h2'', to_sni = or_default host []\<rparr>
      | PlainTLS \<Rightarrow> Some \<lparr>to_pair = None, to_trusted = trusted, to_alpn = None, to_sni = or_default host []\<rparr>
      | NoTLS \<Rightarrow> None)"

lemma union_ca_set: "set (union_ca cas) = {c. c \<noteq> [] \<and> Some c \<in> set cas}" "distinct (union_ca cas)"
proof -
  have "set (foldl (\<lambda>acc ca. if \<not> truthy ca \<or> the ca \<in> set acc then acc else acc @ [the ca]) acc cas) =
      set acc \<union> {c. c \<noteq> [] \<and> Some c \<in> set cas} \<and>
      (distinct acc \<longrightarrow> distinct (foldl (\<lambda>acc ca. if \<not> truthy ca \<or> the ca \<in> set acc then acc else acc @ [the ca]) acc cas))" for acc
  proof (induction cas arbitrary: acc)
    case (Cons ca cas)
    then show ?case by (cases ca) auto
  qed simp
  from this [of "[]"] show "set (union_ca cas) = {c. c \<noteq> [] \<and> Some c \<in> set cas}" "distinct (union_ca cas)"
    by (simp_all add: union_ca_def)
qed

subsection \<open>Terminating TLS\<close>

record 'c named_cert =
  cn_common :: string
  cn_alts :: "string list"
  cn_cert :: 'c

record 'c name_tables =
  nt_exact :: "'c obj"
  nt_star :: "'c obj"

definition add_tls_name :: "'c \<Rightarrow> 'c name_tables \<Rightarrow> string \<Rightarrow> 'c name_tables" where
  "add_tls_name c tabs name =
     (if starts_with ''*'' name then tabs\<lparr>nt_star := obj_set (to_lower (drop 1 name)) c (nt_star tabs)\<rparr>
      else tabs\<lparr>nt_exact := obj_set (to_lower name) c (nt_exact tabs)\<rparr>)"

definition port_tls :: "'c named_cert list \<Rightarrow> 'c name_tables" where
  "port_tls certs =
     foldl (\<lambda>tabs o'. foldl (add_tls_name (cn_cert o')) tabs (cn_common o' # cn_alts o'))
       \<lparr>nt_exact = [], nt_star = []\<rparr> certs"

definition match_domain_name :: "'c option \<Rightarrow> 'c name_tables \<Rightarrow> string \<Rightarrow> 'c option" where
  "match_domain_name globalTls tabs name =
     (let domainName = to_lower name in
      case obj_get (nt_exact tabs) domainName of
        Some c \<Rightarrow> Some c
      | None \<Rightarrow>
          (case obj_get (nt_star tabs) (drop (or_default (index_of CHR ''.'' domainName) 0) domainName) of
             Some c \<Rightarrow> Some c
           | None \<Rightarrow> globalTls))"

fun position :: "string \<Rightarrow> string list \<Rightarrow> int" where
  "position x [] = -1"
| "position x (y # ys) = (if x = y then 0 else (let p = position x ys in if p < 0 then -1 else p + 1))"

definition first_position :: "string \<Rightarrow> string \<Rightarrow> string list \<Rightarrow> int" where
  "first_position a b names = (if position a names + 1 \<noteq> 0 then position a names else position b names)"

definition alpn_policy :: "bool \<Rightarrow> string option \<Rightarrow> string list \<Rightarrow> int" where
  "alpn_policy terminated alpn names =
     (if terminated then
        (if truthy alpn then position (to_lower (the alpn)) names else first_position ''http/1.1'' ''h2'' names)
      else first_position ''h2'' ''http/1.1'' names)"

subsection \<open>The certificate of a name\<close>

definition cert_covers :: "'c named_cert \<Rightarrow> string \<Rightarrow> bool" where
  "cert_covers o' name \<longleftrightarrow>
     (\<exists>n \<in> set (cn_common o' # cn_alts o').
        if starts_with ''*'' n then to_lower (drop 1 n) = drop (or_default (index_of CHR ''.'' (to_lower name)) 0) (to_lower name)
        else to_lower n = to_lower name)"

definition tables_ok :: "'c named_cert list \<Rightarrow> 'c name_tables \<Rightarrow> bool" where
  "tables_ok certs tabs \<longleftrightarrow>
     (\<forall>k c. obj_get (nt_exact tabs) k = Some c \<longrightarrow>
        (\<exists>o' \<in> set certs. cn_cert o' = c \<and> (\<exists>n \<in> set (cn_common o' # cn_alts o'). \<not> starts_with ''*'' n \<and> to_lower n = k))) \<and>
     (\<forall>k c. obj_get (nt_star tabs) k = Some c \<longrightarrow>
        (\<exists>o' \<in> set certs. cn_cert o' = c \<and> (\<exists>n \<in> set (cn_common o' # cn_alts o'). starts_with ''*'' n \<and> to_lower (drop 1 n) = k)))"

lemma add_tls_name_ok:
  assumes "tables_ok certs tabs" "o' \<in> set certs" "n \<in> set (cn_common o' # cn_alts o')"
  shows "tables_ok certs (add_tls_name (cn_cert o') tabs n)"
proof (cases "starts_with ''*'' n")
  case True
  have "\<exists>x \<in> set certs. cn_cert x = cn_cert o' \<and>
      (\<exists>m \<in> set (cn_common x # cn_alts x). starts_with ''*'' m \<and> to_lower (drop 1 m) = to_lower (drop 1 n))"
    using assms(2,3) True by (intro bexI [of _ o'] conjI bexI [of _ n]) simp_all
  then show ?thesis using assms(1) True unfolding tables_ok_def by (simp add: add_tls_name_def)
next
  case False
  have "\<exists>x \<in> set certs. cn_cert x = cn_cert o' \<and>
      (\<exists>m \<in> set (cn_common x # cn_alts x). \<not> starts_with ''*'' m \<and> to_lower m = to_lower n)"
    using assms(2,3) False by (intro bexI [of _ o'] conjI bexI [of _ n]) simp_all
  then show ?thesis using assms(1) False unfolding tables_ok_def by (simp add: add_tls_name_def)
qed

lemma add_tls_names_ok:
  "tables_ok certs tabs \<Longrightarrow> o' \<in> set certs \<Longrightarrow> set ns \<subseteq> set (cn_common o' # cn_alts o') \<Longrightarrow>
   tables_ok certs (foldl (add_tls_name (cn_cert o')) tabs ns)"
proof (induction ns arbitrary: tabs)
  case (Cons n ns)
  have n: "n \<in> set (cn_common o' # cn_alts o')" and ns: "set ns \<subseteq> set (cn_common o' # cn_alts o')"
    using Cons.prems(3) by auto
  show ?case using Cons.IH [OF add_tls_name_ok [OF Cons.prems(1,2) n] Cons.prems(2) ns] by simp
qed simp

lemma port_tls_ok: "tables_ok certs (port_tls certs)"
proof -
  have "tables_ok certs (foldl (\<lambda>tabs o'. foldl (add_tls_name (cn_cert o')) tabs (cn_common o' # cn_alts o')) tabs os)"
    if "tables_ok certs tabs" "set os \<subseteq> set certs" for tabs os
    using that
  proof (induction os arbitrary: tabs)
    case (Cons x os)
    have "tables_ok certs (foldl (add_tls_name (cn_cert x)) tabs (cn_common x # cn_alts x))"
      using Cons.prems by (intro add_tls_names_ok) auto
    then show ?case using Cons.IH Cons.prems(2) by simp
  qed simp
  moreover have "tables_ok certs \<lparr>nt_exact = [], nt_star = []\<rparr>" by (simp add: tables_ok_def)
  ultimately show ?thesis by (simp add: port_tls_def)
qed

text \<open>TLS is terminated with a certificate that names the server, or has a wildcard for exactly
  its first label, or with the certificate for everything.\<close>

lemma terminates_with_own_name:
  assumes "match_domain_name globalTls (port_tls certs) name = Some c"
  shows "(\<exists>o' \<in> set certs. cn_cert o' = c \<and> cert_covers o' name) \<or> globalTls = Some c"
proof -
  let ?tabs = "port_tls certs"
  let ?low = "to_lower name"
  let ?rest = "drop (or_default (index_of CHR ''.'' ?low) 0) ?low"
  note ok = port_tls_ok [of certs, unfolded tables_ok_def]
  consider "obj_get (nt_exact ?tabs) ?low = Some c" | "obj_get (nt_star ?tabs) ?rest = Some c" | "globalTls = Some c"
    using assms by (auto simp: match_domain_name_def Let_def split: option.splits)
  then show ?thesis
  proof cases
    case 1
    then obtain o' n where o': "o' \<in> set certs" "cn_cert o' = c"
      "n \<in> set (cn_common o' # cn_alts o')" "\<not> starts_with ''*'' n" "to_lower n = ?low"
      using conjunct1 [OF ok] by blast
    have "cert_covers o' name" unfolding cert_covers_def by (rule bexI [OF _ o'(3)]) (simp add: o'(4,5))
    then show ?thesis using o'(1,2) by blast
  next
    case 2
    then obtain o' n where o': "o' \<in> set certs" "cn_cert o' = c"
      "n \<in> set (cn_common o' # cn_alts o')" "starts_with ''*'' n" "to_lower (drop 1 n) = ?rest"
      using conjunct2 [OF ok] by blast
    have "cert_covers o' name" unfolding cert_covers_def by (rule bexI [OF _ o'(3)]) (use o'(4,5) in simp)
    then show ?thesis using o'(1,2) by blast
  qed simp
qed

end
