(* ===== verification/Pjs_Tunnel.thy ===== *)
theory Pjs_Tunnel
  imports Pjs_Stream "HOL-Library.Multiset"
begin

text \<open>
  Streams of the first version from their start to their end: the shuffled balancers of
  \<open>pjs/tcp/forward.js\<close>, \<open>pjs/tls/forward.js\<close> and \<open>pjs/udp/forward.js\<close>, the termination and the
  passing through of TLS (\<open>pjs/common/tls-termination.js\<close>, \<open>pjs/tls/passthrough.js\<close>) and the metrics
  of the connections (\<open>pjs/lib/connect-tcp.js\<close>, \<open>pjs/lib/connect-udp.js\<close>).
\<close>

subsection \<open>Shuffling the endpoints\<close>

text \<open>
  \<open>sort\<close> of \<open>shuffle\<close> draws the entries one by one from the array it was given;
  \<open>roll i n\<close> is the \<open>i\<close>th \<open>Math.random() * n | 0\<close>.
\<close>

primrec draw :: "(nat \<Rightarrow> nat \<Rightarrow> nat) \<Rightarrow> nat \<Rightarrow> nat \<Rightarrow> 'a list \<Rightarrow> 'a list" where
  "draw roll i 0 xs = []"
| "draw roll i (Suc n) xs =
     (let j = roll i (length xs) in xs ! j # draw roll (Suc i) n (take j xs @ drop (Suc j) xs))"

definition from_entries :: "(string \<times> 'v) list \<Rightarrow> 'v obj" where
  "from_entries es = foldl (\<lambda>ob (k, v). obj_set k v ob) [] es"

definition shuffle :: "(nat \<Rightarrow> nat \<Rightarrow> nat) \<Rightarrow> 'v obj \<Rightarrow> 'v obj" where
  "shuffle roll ob =
     (let n = length ob in from_entries (draw roll n n (draw roll 0 n ob)))"

text \<open>A random number is at least 0 and less than 1.\<close>

definition roll_law :: "(nat \<Rightarrow> nat \<Rightarrow> nat) \<Rightarrow> bool" where
  "roll_law roll \<longleftrightarrow> (\<forall>i n. 0 < n \<longrightarrow> roll i n < n)"

lemma draw_mset:
  assumes "roll_law roll" "n = length xs"
  shows "mset (draw roll i n xs) = mset xs"
  using assms(2)
proof (induction n arbitrary: i xs)
  case (Suc n)
  let ?j = "roll i (length xs)"
  have j: "?j < length xs" using assms(1) Suc.prems unfolding roll_law_def by (metis zero_less_Suc)
  have split: "xs = take ?j xs @ xs ! ?j # drop (Suc ?j) xs" using id_take_nth_drop [OF j] .
  let ?rest = "take ?j xs @ drop (Suc ?j) xs"
  have "n = length ?rest" using j Suc.prems by simp
  then have "mset (draw roll (Suc i) n ?rest) = mset ?rest" by (rule Suc.IH)
  then have "mset (draw roll i (Suc n) xs) = add_mset (xs ! ?j) (mset ?rest)" by (simp add: Let_def)
  also have "\<dots> = mset (take ?j xs @ xs ! ?j # drop (Suc ?j) xs)" by simp
  also have "\<dots> = mset xs" unfolding split [symmetric] ..
  finally show ?case .
qed simp

lemma obj_set_new: "k \<notin> fst ` set ob \<Longrightarrow> obj_set k v ob = ob @ [(k, v)]"
  by (induction ob) auto

lemma from_entries_distinct: "distinct (map fst es) \<Longrightarrow> from_entries es = es"
proof (induction es rule: rev_induct)
  case (snoc e es)
  obtain k v where e: "e = (k, v)" by (cases e)
  have "from_entries (es @ [e]) = obj_set k v es" using snoc by (simp add: from_entries_def e)
  also have "\<dots> = es @ [e]" using snoc.prems by (simp add: e obj_set_new)
  finally show ?case .
qed (simp add: from_entries_def)

text \<open>Shuffling changes the order of the endpoints and nothing else.\<close>

lemma shuffle_mset:
  assumes "roll_law roll" "distinct (map fst ob)"
  shows "mset (shuffle roll ob) = mset ob" "obj_get (shuffle roll ob) k = obj_get ob k"
proof -
  let ?es = "draw roll (length ob) (length ob) (draw roll 0 (length ob) ob)"
  have first: "mset (draw roll 0 (length ob) ob) = mset ob" by (rule draw_mset [OF assms(1)]) simp
  then have len: "length (draw roll 0 (length ob) ob) = length ob" by (rule mset_eq_length)
  have all: "mset ?es = mset ob" unfolding first [symmetric] by (rule draw_mset [OF assms(1)]) (simp add: len)
  have "distinct (map fst ?es)"
    using assms(2) mset_eq_imp_distinct_iff [of "map fst ?es" "map fst ob"] all by (simp add: mset_map)
  then have es: "shuffle roll ob = ?es" and d: "distinct (map fst (shuffle roll ob))"
    by (simp_all add: shuffle_def Let_def from_entries_distinct)
  show "mset (shuffle roll ob) = mset ob" unfolding es by (rule all)
  then have "set (shuffle roll ob) = set ob" by (rule mset_eq_setD)
  then show "obj_get (shuffle roll ob) k = obj_get ob k"
    using map_of_inject_set [OF d assms(2)] by simp
qed

subsection \<open>Services and their balancers\<close>

definition named_services :: "pj_service obj \<Rightarrow> pj_service obj" where
  "named_services services = map (\<lambda>(name, s). (name, s\<lparr>sv_name := name\<rparr>)) services"

record stream_config =
  sc_kind :: balancer_kind
  sc_targets :: "num_js obj"
  sc_failover :: "num_js obj option"

definition tcp_service_config :: "(nat \<Rightarrow> nat \<Rightarrow> nat) \<Rightarrow> pj_service \<Rightarrow> stream_config" where
  "tcp_service_config roll s =
     \<lparr>sc_kind = balancer_kind s, sc_targets = shuffle roll (balanced_endpoints s), sc_failover = failover_endpoints s\<rparr>"

definition tls_service_config :: "(nat \<Rightarrow> nat \<Rightarrow> nat) \<Rightarrow> pj_service \<Rightarrow> stream_config" where
  "tls_service_config roll s =
     \<lparr>sc_kind = OfName ''RoundRobinLoadBalancer'', sc_targets = shuffle roll (tls_endpoints s),
      sc_failover = failover_endpoints s\<rparr>"

definition udp_service_config :: "(nat \<Rightarrow> nat \<Rightarrow> nat) \<Rightarrow> pj_service \<Rightarrow> stream_config" where
  "udp_service_config roll s =
     \<lparr>sc_kind = balancer_kind s, sc_targets = shuffle roll (balanced_endpoints s), sc_failover = failover_endpoints s\<rparr>"

subsection \<open>Where a stream goes\<close>

text \<open>
  The balancers of the rules lend the name of a service, those of a service a target that is not
  in the given cache. (Both keep a state of their own, which is not looked at here.)
\<close>

record stream_env =
  sx_services :: "pj_service obj"
  sx_roll :: "nat \<Rightarrow> nat \<Rightarrow> nat"
  sx_rule :: "num_js obj \<Rightarrow> string option"
  sx_lend :: "stream_config \<Rightarrow> string list option \<Rightarrow> string option"
  sx_unhealthy :: unhealthy

definition lend_law :: "(stream_config \<Rightarrow> string list option \<Rightarrow> string option) \<Rightarrow> bool" where
  "lend_law lend \<longleftrightarrow>
     (\<forall>c avoid t. lend c avoid = Some t \<longrightarrow> t \<in> fst ` set (sc_targets c) \<and> (\<forall>ts. avoid = Some ts \<longrightarrow> t \<notin> set ts))"

definition tcp_stream_plan :: "stream_env \<Rightarrow> num_js obj option \<Rightarrow> js_error + stream_plan" where
  "tcp_stream_plan e rules =
     plan_stream (named_services (sx_services e)) (map_option (sx_rule e) rules)
       (\<lambda>s. sx_lend e (tcp_service_config (sx_roll e) s) (obj_get (sx_unhealthy e) (sv_name s)))"

text \<open>
  The rules of a server name on a port. The cache has only the name as its key, though the rules
  are those of the port of the stream that asks first.
\<close>

definition tls_rules :: "num_js obj obj option \<Rightarrow> string \<Rightarrow> num_js obj option" where
  "tls_rules rules host = Option.bind rules (\<lambda>r. match_host r host)"

definition host_handler ::
    "(string \<Rightarrow> num_js obj obj option) \<Rightarrow> string \<Rightarrow> string \<Rightarrow> num_js obj option obj \<Rightarrow>
     num_js obj option \<times> num_js obj option obj" where
  "host_handler conf port host cache =
     (case obj_get cache host of
        Some v \<Rightarrow> (v, cache)
      | None \<Rightarrow> (let v = tls_rules (conf port) host in (v, obj_set host v cache)))"

definition tls_stream_plan :: "stream_env \<Rightarrow> num_js obj option \<Rightarrow> js_error + stream_plan" where
  "tls_stream_plan e rules =
     plan_stream (named_services (sx_services e)) (map_option (sx_rule e) rules)
       (\<lambda>s. sx_lend e (tls_service_config (sx_roll e) s) (obj_get (sx_unhealthy e) (sv_name s)))"

lemma rules_of_first_port:
  "fst (host_handler conf port2 host (snd (host_handler conf port1 host []))) = tls_rules (conf port1) host"
  by (simp add: host_handler_def Let_def)

definition udp_stream_plan :: "stream_env \<Rightarrow> num_js obj option \<Rightarrow> stream_plan" where
  "udp_stream_plan e rules =
     plan_udp (named_services (sx_services e)) (map_option (sx_rule e) rules)
       (\<lambda>s. sx_lend e (udp_service_config (sx_roll e) s) None)"

text \<open>What is done with a TLS or UDP stream; \<open>stream_way\<close> is that of TCP.\<close>

definition tls_stream_way :: "stream_plan \<Rightarrow> stream_way" where
  "tls_stream_way p =
     (case sm_target p of
        None \<Rightarrow> CloseStream
      | Some t \<Rightarrow> if truthy (sm_cert p) then OverTLS t else OverTCP t)"

datatype udp_way = OverUDP string | ResetStream

definition udp_way :: "stream_plan \<Rightarrow> udp_way" where
  "udp_way p = (case sm_target p of Some t \<Rightarrow> OverUDP t | None \<Rightarrow> ResetStream)"

definition tls_stream_end ::
    "string option \<Rightarrow> phc_target \<Rightarrow> unhealthy \<Rightarrow> phc_target \<times> unhealthy \<times> phc_notice" where
  "tls_stream_end err t u =
     (if \<not> truthy err \<or> err = Some ''ReadTimeout'' \<or> err = Some ''WriteTimeout'' \<or> err = Some ''IdleTimeout''
      then phc_ok t u else phc_fail t u)"

lemma named_services_get:
  "obj_get (named_services services) name = map_option (\<lambda>s. s\<lparr>sv_name := name\<rparr>) (obj_get services name)"
  by (induction services) (auto simp: named_services_def)

lemma plan_stream_target:
  assumes "plan_stream (named_services services) balancer lend = Inr p" "sm_target p = Some a"
  obtains name s where "sm_service p = Some name" "obj_get services name = Some s" "lend (s\<lparr>sv_name := name\<rparr>) = Some a"
  using assms
  by (auto simp: plan_stream_def plan_with_def no_plan_def named_services_get split: option.splits)

lemma weights_keys: "map fst (map (\<lambda>(k, v). (k, en_weight v)) xs) = map fst xs"
  by (induction xs) auto

lemma weights_in: "(k, w) \<in> set (map (\<lambda>(k, v). (k, en_weight v)) xs) \<longleftrightarrow> (\<exists>v. (k, v) \<in> set xs \<and> w = en_weight v)"
  by (induction xs) auto

lemma shuffled_weights:
  assumes "roll_law roll" "distinct (map fst xs)"
    and "a \<in> fst ` set (shuffle roll (filter P (map (\<lambda>(k, v). (k, en_weight v)) xs)))"
  obtains v where "(a, v) \<in> set xs" "P (a, en_weight v)"
proof -
  let ?ws = "filter P (map (\<lambda>(k, v). (k, en_weight v)) xs)"
  have "distinct (map fst ?ws)" using assms(2) by (intro distinct_map_filter) (simp only: weights_keys)
  from mset_eq_setD [OF shuffle_mset(1) [OF assms(1) this]] have "a \<in> fst ` set ?ws" using assms(3) by (simp only:)
  then obtain w where "(a, w) \<in> set (map (\<lambda>(k, v). (k, en_weight v)) xs)" "P (a, w)"
    unfolding set_filter by (elim imageE CollectE conjE) (metis prod.collapse)
  then show thesis using that unfolding weights_in by (elim exE conjE) simp
qed

lemma tcp_config_targets:
  assumes "roll_law roll" "distinct (map fst (sv_endpoints s))" "a \<in> fst ` set (sc_targets (tcp_service_config roll s))"
  shows "\<exists>v. (a, v) \<in> set (sv_endpoints s) \<and>
     (sv_algorithm s = Some ''RoundRobinLoadBalancer'' \<longrightarrow> num_gt (en_weight v) 0)"
proof -
  obtain v where "(a, v) \<in> set (sv_endpoints s)"
    "(\<lambda>(k, w). sv_algorithm s \<noteq> Some ''RoundRobinLoadBalancer'' \<or> num_gt w 0) (a, en_weight v)"
    by (rule shuffled_weights [OF assms(1,2) assms(3) [unfolded tcp_service_config_def balanced_endpoints_def
        stream_config.simps]])
  then show ?thesis by (intro exI [of _ v]) simp
qed

lemma tls_config_targets:
  assumes "roll_law roll" "distinct (map fst (sv_endpoints s))" "a \<in> fst ` set (sc_targets (tls_service_config roll s))"
  shows "\<exists>v. (a, v) \<in> set (sv_endpoints s) \<and> num_gt (en_weight v) 0"
proof -
  obtain v where "(a, v) \<in> set (sv_endpoints s)" "(\<lambda>(k, w). num_gt w 0) (a, en_weight v)"
    by (rule shuffled_weights [OF assms(1,2) assms(3) [unfolded tls_service_config_def tls_endpoints_def
        stream_config.simps]])
  then show ?thesis by (intro exI [of _ v]) simp
qed

text \<open>C30: Streams go to targets that are up: after any run of the health checks, a TCP stream, or a
  stream whose TLS was terminated, is connected only to an endpoint of the service that the rule
  of its port or server name lent, and the record of that target for this service, if it has one,
  says that it is up; a terminated one goes only to endpoints of positive weight.\<close>
theorem streams_to_healthy:
  assumes "lend_law (sx_lend e)" "roll_law (sx_roll e)"
    and "phc_run includes evs (phc_targets sections, []) = (ts, sx_unhealthy e)"
    and "\<forall>(name, s) \<in> set (sx_services e). distinct (map fst (sv_endpoints s))"
    and "tcp_stream_plan e rules = Inr p \<and> terminated = False \<or> tls_stream_plan e hosts = Inr p \<and> terminated = True"
    and "sm_target p = Some a"
  shows "\<exists>name s v. sm_service p = Some name \<and> obj_get (sx_services e) name = Some s \<and> (a, v) \<in> set (sv_endpoints s) \<and>
     (terminated \<longrightarrow> num_gt (en_weight v) 0) \<and>
     (\<forall>k t. obj_get ts k = Some t \<and> pt_target t = a \<and> ps_name (pt_service t) = name \<longrightarrow> phc_available t)"
proof -
  have up: "phc_available t"
    if "obj_get ts k = Some t" "pt_target t = a" "ps_name (pt_service t) = name"
      "sx_lend e c (obj_get (sx_unhealthy e) name) = Some a" for k t name c
  proof -
    have "\<not> is_unhealthy (sx_unhealthy e) name a"
      using assms(1) that(4) by (auto simp: lend_law_def is_unhealthy_def split: option.split)
    then show ?thesis using unhealthy_iff_down [OF assms(3) that(1)] that(2,3) by simp
  qed
  have keys: "distinct (map fst (sv_endpoints s))" if "obj_get (sx_services e) name = Some s" for name s
    using assms(4) map_of_SomeD [OF that] by auto
  have lent: "a \<in> fst ` set (sc_targets c)" if "sx_lend e c avoid = Some a" for c avoid
    using assms(1) that unfolding lend_law_def by blast
  show ?thesis
  proof (cases terminated)
    case False
    then have "tcp_stream_plan e rules = Inr p" using assms(5) by simp
    then obtain name s where s: "sm_service p = Some name" "obj_get (sx_services e) name = Some s"
      and l: "sx_lend e (tcp_service_config (sx_roll e) (s\<lparr>sv_name := name\<rparr>)) (obj_get (sx_unhealthy e) name) = Some a"
      unfolding tcp_stream_plan_def by (rule plan_stream_target [OF _ assms(6)]) auto
    have d: "distinct (map fst (sv_endpoints (s\<lparr>sv_name := name\<rparr>)))" using keys [OF s(2)] by simp
    from tcp_config_targets [OF assms(2) d lent [OF l]] obtain v where "(a, v) \<in> set (sv_endpoints s)" by auto
    moreover have "\<forall>k t. obj_get ts k = Some t \<and> pt_target t = a \<and> ps_name (pt_service t) = name \<longrightarrow> phc_available t"
      using up [OF _ _ _ l] by blast
    ultimately show ?thesis using s False by (intro exI [of _ name] exI [of _ s] exI [of _ v]) simp
  next
    case True
    then have "tls_stream_plan e hosts = Inr p" using assms(5) by simp
    then obtain name s where s: "sm_service p = Some name" "obj_get (sx_services e) name = Some s"
      and l: "sx_lend e (tls_service_config (sx_roll e) (s\<lparr>sv_name := name\<rparr>)) (obj_get (sx_unhealthy e) name) = Some a"
      unfolding tls_stream_plan_def by (rule plan_stream_target [OF _ assms(6)]) auto
    have d: "distinct (map fst (sv_endpoints (s\<lparr>sv_name := name\<rparr>)))" using keys [OF s(2)] by simp
    from tls_config_targets [OF assms(2) d lent [OF l]] obtain v where "(a, v) \<in> set (sv_endpoints s)"
      "num_gt (en_weight v) 0" by auto
    moreover have "\<forall>k t. obj_get ts k = Some t \<and> pt_target t = a \<and> ps_name (pt_service t) = name \<longrightarrow> phc_available t"
      using up [OF _ _ _ l] by blast
    ultimately show ?thesis using s by (intro exI [of _ name] exI [of _ s] exI [of _ v]) simp
  qed
qed

definition ex_lend :: "stream_config \<Rightarrow> string list option \<Rightarrow> string option" where
  "ex_lend c avoid = find (\<lambda>t. case avoid of None \<Rightarrow> True | Some ts \<Rightarrow> t \<notin> set ts) (map fst (sc_targets c))"

definition ex_stream :: "unhealthy \<Rightarrow> stream_env" where
  "ex_stream u =
     \<lparr>sx_services = [(''svc'', \<lparr>sv_name = [], sv_algorithm = None,
        sv_endpoints = map (\<lambda>a. (a, \<lparr>en_weight = Some 1, en_host = None, en_cert = None, en_useSSL = False\<rparr>))
          [''a:1'', ''b:1''],
        sv_cookie = None, sv_expires = None, sv_retries = None, sv_retryOn = None, sv_backoff = None,
        sv_cert = None, sv_mtls = False\<rparr>)],
      sx_roll = (\<lambda>i n. 0), sx_rule = (\<lambda>rs. case rs of [] \<Rightarrow> None | (k, w) # rest \<Rightarrow> Some k),
      sx_lend = ex_lend, sx_unhealthy = u\<rparr>"

lemma ex_lend_law: "lend_law ex_lend"
  unfolding lend_law_def ex_lend_def
proof (intro allI impI conjI)
  fix c avoid t assume t: "find (\<lambda>t. case avoid of None \<Rightarrow> True | Some ts \<Rightarrow> t \<notin> set ts) (map fst (sc_targets c)) = Some t"
  from find_Some_in [OF t] show "t \<in> fst ` set (sc_targets c)" by simp
  fix ts assume "avoid = Some ts"
  then show "t \<notin> set ts" using find_Some_in [OF t] by simp
qed

lemma streams_to_healthy_witness:
  "\<exists>u p name s v. tcp_stream_plan (ex_stream u) (Some [(''svc'', Some 1)]) = Inr p \<and> u = [(''svc'', [''a:1''])] \<and>
     sm_target p = Some ''b:1'' \<and> sm_service p = Some name \<and>
     obj_get (sx_services (ex_stream u)) name = Some s \<and> (''b:1'', v) \<in> set (sv_endpoints s)"
proof -
  let ?u = "[(''svc'', [''a:1''])]"
  let ?run = "phc_run (\<lambda>x y. False) [PFail ''a:1@svc'', PTcp ''a:1@svc'' (Some ''ConnectionReset'')]
      (phc_targets [(''svc'', Some demo_section, [''a:1'', ''b:1''])], [])"
  let ?plan = "projr (tcp_stream_plan (ex_stream ?u) (Some [(''svc'', Some 1)]))"
  have "snd ?run = ?u" by code_simp
  then have run: "?run = (fst ?run, sx_unhealthy (ex_stream ?u))" by (simp add: ex_stream_def prod_eq_iff)
  have "\<not> isl (tcp_stream_plan (ex_stream ?u) (Some [(''svc'', Some 1)]))" by code_simp
  then have plan: "tcp_stream_plan (ex_stream ?u) (Some [(''svc'', Some 1)]) = Inr ?plan" by simp
  have target: "sm_target ?plan = Some ''b:1''" by code_simp
  have keys: "\<forall>(name, s) \<in> set (sx_services (ex_stream ?u)). distinct (map fst (sv_endpoints s))" by code_simp
  have laws: "lend_law (sx_lend (ex_stream ?u))" "roll_law (sx_roll (ex_stream ?u))"
    by (simp_all add: ex_stream_def ex_lend_law roll_law_def)
  from streams_to_healthy [OF laws run keys disjI1 [OF conjI [OF plan refl]] target]
  obtain name s v where r: "sm_service ?plan = Some name" "obj_get (sx_services (ex_stream ?u)) name = Some s"
    "(''b:1'', v) \<in> set (sv_endpoints s)" by (elim exE conjE)
  show ?thesis
    by (rule exI [of _ ?u], rule exI [of _ ?plan], rule exI [of _ name], rule exI [of _ s], rule exI [of _ v])
      (intro conjI plan refl target r)
qed

subsection \<open>Terminating TLS and passing it through\<close>

text \<open>The first server name of a client hello, and the consumer that later modules see.\<close>

record 'p tls_consumer =
  tc_sni :: string
  tc_cert :: "'p option"
  tc_mtls :: bool
  tc_type :: string
  tc_target :: "string option"

definition client_name :: "string list \<Rightarrow> string" where
  "client_name names = (case names of [] \<Rightarrow> [] | n # ns \<Rightarrow> n)"

text \<open>A stream waits for the hello; then TLS is accepted with a certificate, with or without asking
  for one of the client, or the stream ends.\<close>

datatype 'c tls_start = AcceptTLS 'c bool | EndTLS

definition terminate_tls :: "'c option \<Rightarrow> 'c named_cert list \<Rightarrow> bool \<Rightarrow> string list \<Rightarrow> 'c tls_start" where
  "terminate_tls globalTls certs mtls names =
     (case match_domain_name globalTls (port_tls certs) (client_name names) of
        Some c \<Rightarrow> AcceptTLS c mtls
      | None \<Rightarrow> EndTLS)"

definition accept_consumer :: "bool \<Rightarrow> string \<Rightarrow> 'p option \<Rightarrow> 'p tls_consumer" where
  "accept_consumer mtls sni cert =
     \<lparr>tc_sni = sni, tc_cert = cert, tc_mtls = mtls, tc_type = ''terminate'', tc_target = None\<rparr>"

definition verify_client :: "bool \<Rightarrow> 'p option \<Rightarrow> 'p tls_consumer option \<Rightarrow> 'p tls_consumer option \<times> bool" where
  "verify_client ok cert consumer = (map_option (\<lambda>c. c\<lparr>tc_cert := cert\<rparr>) consumer, ok)"

text \<open>The authorities for client certificates: those of all listeners, and the one of the default
  certificate, which is added even when it is among them.\<close>

definition client_ca :: "string option list list \<Rightarrow> string option \<Rightarrow> string list" where
  "client_ca listeners issuing = union_ca (concat listeners) @ (if truthy issuing then [the issuing] else [])"

definition passthrough_start ::
    "string option \<Rightarrow> string obj \<Rightarrow> string list \<Rightarrow> 'p tls_consumer \<times> stream_way" where
  "passthrough_start deflt rules names =
     (let sni = client_name names; target = passthrough_target deflt rules sni
      in (\<lparr>tc_sni = sni, tc_cert = None, tc_mtls = False, tc_type = ''passthrough'', tc_target = target\<rparr>,
          case target of Some t \<Rightarrow> OverTCP t | None \<Rightarrow> CloseStream))"

lemma terminate_tls_covers:
  assumes "terminate_tls globalTls certs mtls names = AcceptTLS c asks"
  shows "asks = mtls \<and> ((\<exists>o' \<in> set certs. cn_cert o' = c \<and> cert_covers o' (client_name names)) \<or> globalTls = Some c)"
proof -
  have m: "match_domain_name globalTls (port_tls certs) (client_name names) = Some c" "asks = mtls"
    using assms by (simp_all add: terminate_tls_def split: option.splits)
  show ?thesis using terminates_with_own_name [OF m(1)] m(2) by simp
qed

text \<open>What is passed through goes to the address of the rule for its name, with a port.\<close>

lemma passthrough_goes_to_rule:
  assumes "snd (passthrough_start deflt rules names) = OverTCP t"
  obtains upstream where "match_host rules (client_name names) = Some upstream" "upstream \<noteq> []"
    "t = upstream \<or> t = upstream @ '':'' @ or_else deflt ''443''"
proof -
  have t: "passthrough_target deflt rules (client_name names) = Some t"
    using assms by (auto simp: passthrough_start_def Let_def split: option.splits)
  obtain upstream where u: "match_host rules (client_name names) = Some upstream" "upstream \<noteq> []"
    using t by (cases "match_host rules (client_name names)")
      (auto simp: passthrough_target_def Let_def split: if_splits)
  then have "t = upstream \<or> t = upstream @ '':'' @ or_else deflt ''443''"
    using t by (auto simp: passthrough_target_def Let_def split: if_splits)
  then show thesis using that u by blast
qed

subsection \<open>Connections and their metrics\<close>

text \<open>
  A connection is counted under its label; \<open>cm_open\<close> are the open ones with the gauges and
  counters that they took for their label when they started.
\<close>

record conn_metrics =
  cm_open :: "(nat \<times> string) list"
  cm_active :: "string \<Rightarrow> int"
  cm_streams :: "string \<Rightarrow> nat"
  cm_sent :: "string \<Rightarrow> nat"
  cm_received :: "string \<Rightarrow> nat"

definition no_conn_metrics :: conn_metrics where
  "no_conn_metrics =
     \<lparr>cm_open = [], cm_active = (\<lambda>l. 0), cm_streams = (\<lambda>l. 0), cm_sent = (\<lambda>l. 0), cm_received = (\<lambda>l. 0)\<rparr>"

datatype conn_event = COpen nat string | CSend nat nat | CReceive nat nat | CClose nat

definition connect_step :: "conn_event \<Rightarrow> conn_metrics \<Rightarrow> conn_metrics" where
  "connect_step ev m =
     (case ev of
        COpen i l \<Rightarrow>
          m\<lparr>cm_open := (i, l) # cm_open m, cm_active := (cm_active m)(l := cm_active m l + 1),
            cm_streams := (cm_streams m)(l := cm_streams m l + 1)\<rparr>
      | CSend i n \<Rightarrow>
          (case map_of (cm_open m) i of None \<Rightarrow> m
           | Some l \<Rightarrow> m\<lparr>cm_sent := (cm_sent m)(l := cm_sent m l + n)\<rparr>)
      | CReceive i n \<Rightarrow>
          (case map_of (cm_open m) i of None \<Rightarrow> m
           | Some l \<Rightarrow> m\<lparr>cm_received := (cm_received m)(l := cm_received m l + n)\<rparr>)
      | CClose i \<Rightarrow>
          (case map_of (cm_open m) i of None \<Rightarrow> m
           | Some l \<Rightarrow> m\<lparr>cm_open := AList.delete i (cm_open m), cm_active := (cm_active m)(l := cm_active m l - 1)\<rparr>))"

text \<open>Connections over UDP do the same, with their own sockets.\<close>

definition connect_udp_step :: "conn_event \<Rightarrow> conn_metrics \<Rightarrow> conn_metrics" where
  "connect_udp_step ev m = connect_step ev m"

definition opened_ids :: "conn_event list \<Rightarrow> nat list" where
  "opened_ids evs = concat (map (\<lambda>ev. case ev of COpen i l \<Rightarrow> [i] | _ \<Rightarrow> []) evs)"

definition gauges_ok :: "nat set \<Rightarrow> conn_metrics \<Rightarrow> bool" where
  "gauges_ok seen m \<longleftrightarrow>
     distinct (map fst (cm_open m)) \<and> fst ` set (cm_open m) \<subseteq> seen \<and>
     (\<forall>l. cm_active m l = int (count_list (map snd (cm_open m)) l))"

lemma delete_subset: "fst ` set (AList.delete i xs) \<subseteq> fst ` set xs"
  by (induction xs) auto

lemma count_delete:
  "distinct (map fst xs) \<Longrightarrow> map_of xs i = Some l \<Longrightarrow>
   int (count_list (map snd (AList.delete i xs)) l') = int (count_list (map snd xs) l') - (if l' = l then 1 else 0)"
proof (induction xs)
  case (Cons x xs)
  show ?case
  proof (cases "fst x = i")
    case True
    then have "i \<notin> fst ` set xs" using Cons.prems(1) by auto
    then have "AList.delete i xs = xs" by (rule delete_id)
    then show ?thesis using True Cons.prems(2) by (cases x) auto
  next
    case False
    then show ?thesis using Cons by (cases x) auto
  qed
qed simp

lemma connect_step_ok:
  assumes "gauges_ok seen m" "\<And>i l. ev = COpen i l \<Longrightarrow> i \<notin> seen"
  shows "gauges_ok (seen \<union> set (opened_ids [ev])) (connect_step ev m)"
proof (cases ev)
  case (COpen i l)
  then have "i \<notin> fst ` set (cm_open m)" using assms unfolding gauges_ok_def by blast
  then show ?thesis using assms(1) by (auto simp: COpen connect_step_def gauges_ok_def opened_ids_def)
next
  case (CClose i)
  show ?thesis
  proof (cases "map_of (cm_open m) i")
    case (Some l)
    have "fst ` set (AList.delete i (cm_open m)) \<subseteq> fst ` set (cm_open m)" by (rule delete_subset)
    then show ?thesis
      using assms(1) Some by (auto simp: CClose connect_step_def gauges_ok_def opened_ids_def count_delete distinct_delete)
  qed (use assms(1) CClose in \<open>simp add: connect_step_def opened_ids_def\<close>)
qed (use assms(1) in \<open>auto simp: connect_step_def gauges_ok_def opened_ids_def split: option.split\<close>)

lemma opened_ids_snoc: "opened_ids (evs @ [ev]) = opened_ids evs @ opened_ids [ev]"
  by (simp add: opened_ids_def)

interpretation connections: history_machine connect_step "\<lambda>evs. distinct (opened_ids evs)"
    "\<lambda>evs. gauges_ok (set (opened_ids evs))"
proof
  fix evs ev
  assume d: "distinct (opened_ids (evs @ [ev]))"
  then show "distinct (opened_ids evs)" by (simp add: opened_ids_snoc)
  fix m assume ok: "gauges_ok (set (opened_ids evs)) m"
  have "i \<notin> set (opened_ids evs)" if "ev = COpen i l" for i l
    using d that by (simp add: opened_ids_snoc) (simp add: opened_ids_def)
  from connect_step_ok [OF ok this] show "gauges_ok (set (opened_ids (evs @ [ev]))) (connect_step ev m)"
    by (simp add: opened_ids_snoc)
qed

text \<open>The gauge of a label is the number of its open connections, whatever the order in which
  connections start, carry data and end.\<close>

lemma active_connections:
  assumes "distinct (opened_ids evs)" "m = foldl (\<lambda>m ev. connect_step ev m) no_conn_metrics evs"
  shows "cm_active m l = int (count_list (map snd (cm_open m)) l)"
proof -
  have "gauges_ok (set (opened_ids [])) no_conn_metrics" by (simp add: gauges_ok_def no_conn_metrics_def opened_ids_def)
  from connections.inv_run [OF this assms(1)] show ?thesis unfolding assms(2) gauges_ok_def by blast
qed

end
