(* ===== verification/Pjs_Upstream.thy ===== *)
theory Pjs_Upstream
  imports Pjs_Tunnel
begin

text \<open>
  The forwarding of an HTTP request of the first version (\<open>pjs/http/forward.js\<close>) as a whole: what a
  service is made of (\<open>makeServiceConfig\<close>), the pipeline \<open>upstream\<close> that every attempt runs, and the
  replays around it. The parts are in \<open>Pjs_Forward\<close>.
\<close>

subsection \<open>What a service is made of\<close>

record http_config =
  hc_balancer :: stream_config
  hc_attributes :: "pj_endpoint obj"
  hc_hashes :: "string obj"
  hc_cookie :: "(string \<times> nat \<times> string obj) option"
  hc_needRetry :: bool
  hc_numRetries :: "nat option"
  hc_retryOn :: "nat option \<Rightarrow> bool"
  hc_backoff :: num_js
  hc_version :: "string option \<Rightarrow> nat"

definition http_service_config :: "(nat \<Rightarrow> nat \<Rightarrow> nat) \<Rightarrow> (string \<Rightarrow> string) \<Rightarrow> pj_service \<Rightarrow> http_config" where
  "http_service_config roll hash s =
     \<lparr>hc_balancer =
        \<lparr>sc_kind = balancer_kind s, sc_targets = shuffle roll (balanced_endpoints s), sc_failover = failover_endpoints s\<rparr>,
      hc_attributes = sv_endpoints s,
      hc_hashes = map (\<lambda>(k, v). (k, hash k)) (sv_endpoints s),
      hc_cookie =
        (if truthy (sv_cookie s) then Some (the (sv_cookie s), or_else_nat (sv_expires s) 3600, hash_table hash s) else None),
      hc_needRetry = (retry_limit s \<noteq> 0), hc_numRetries = sv_retries s, hc_retryOn = retry_status s,
      hc_backoff = backoff_base s, hc_version = http_version\<rparr>"

text \<open>The balancer of the failover targets: round robin over equal weights, in the order of the endpoints.\<close>

definition failover_config :: "http_config \<Rightarrow> stream_config" where
  "failover_config c =
     \<lparr>sc_kind = OfName ''RoundRobinLoadBalancer'', sc_targets = or_default (sc_failover (hc_balancer c)) [],
      sc_failover = None\<rparr>"

subsection \<open>One attempt\<close>

text \<open>
  What comes from outside: for the \<open>i\<close>th attempt the head of the request as it is replayed, what
  the balancers lend, the cache of unhealthy targets, the answer of the target with the error of
  the connection, and the status of what the rest of the chain answers. \<open>he_cached\<close>: the cache
  of the service was there when the stream started; one that is made later is not looked at.
\<close>

record fwd_env =
  he_service :: pj_service
  he_roll :: "nat \<Rightarrow> nat \<Rightarrow> nat"
  he_hash :: "string \<Rightarrow> string"
  he_cached :: bool
  he_unhealthy :: "nat \<Rightarrow> unhealthy"
  he_lend :: "nat \<Rightarrow> stream_config \<Rightarrow> string list option \<Rightarrow> string option"
  he_head :: "nat \<Rightarrow> head"
  he_reply :: "nat \<Rightarrow> head \<times> string option"
  he_rest :: "nat \<Rightarrow> nat"
  he_until :: "nat \<Rightarrow> string"
  he_preserveHost :: bool
  he_showStatus :: bool

text \<open>The target outlives an attempt: it is a variable of the stream.\<close>

record up_state =
  up_fwd :: fwd_state
  up_isRetry :: bool
  up_target :: "string option"
  up_useSSL :: bool

definition http_conf :: "fwd_env \<Rightarrow> http_config" where
  "http_conf e = http_service_config (he_roll e) (he_hash e) (he_service e)"

definition known_bad :: "fwd_env \<Rightarrow> nat \<Rightarrow> string list option" where
  "known_bad e i = (if he_cached e then obj_get (he_unhealthy e i) (sv_name (he_service e)) else None)"

definition is_bad :: "fwd_env \<Rightarrow> nat \<Rightarrow> string \<Rightarrow> bool" where
  "is_bad e i t = (case known_bad e i of None \<Rightarrow> False | Some ts \<Rightarrow> t \<in> set ts)"

definition by_cookie :: "fwd_env \<Rightarrow> nat \<Rightarrow> up_state \<Rightarrow> string option" where
  "by_cookie e i st =
     cookie_target (he_hash e) (he_service e) (is_bad e i) (up_isRetry st) (hd_headers (he_head e i))"

definition lent :: "fwd_env \<Rightarrow> nat \<Rightarrow> up_state \<Rightarrow> string option" where
  "lent e i st =
     he_lend e i (if fw_onFailover (up_fwd st) then failover_config (http_conf e) else hc_balancer (http_conf e))
       (known_bad e i)"

datatype upstream_way = ToTarget string head "string option" bool "string option" | ToFailover | PassOn

text \<open>Where an attempt goes: to a target, with a head, the certificate and TLS towards it and the
  cookie for the answer; to another attempt with the failover targets; or on along the chain.\<close>

definition upstream_request :: "fwd_env \<Rightarrow> nat \<Rightarrow> up_state \<Rightarrow> upstream_way \<times> up_state" where
  "upstream_request e i st =
     (let s = he_service e; cookie = by_cookie e i st;
          target = choose_target (he_hash e) s (is_bad e i) (up_isRetry st) (hd_headers (he_head e i)) (lent e i st) (up_target st)
      in case target of
           None \<Rightarrow> (if fw_failover (up_fwd st) then ToFailover else PassOn, st\<lparr>up_target := None\<rparr>)
         | Some t \<Rightarrow>
             (let (cert, ssl) = target_tls s t (up_useSSL st) in
              (ToTarget t (forwarded_head s (he_preserveHost e) t (he_head e i)) cert ssl
                 (sticky_cookie (he_hash e) s (he_until e i) (cookie \<noteq> None) t),
               st\<lparr>up_target := Some t, up_useSSL := ssl\<rparr>)))"

text \<open>The answer of a target on its way to the client, and what the health check is told.\<close>

definition upstream_reply :: "fwd_env \<Rightarrow> nat \<Rightarrow> string option \<Rightarrow> head" where
  "upstream_reply e i cookie =
     (let h = show_status (he_showStatus e) (snd (he_reply e i)) (fst (he_reply e i)) in
      case cookie of None \<Rightarrow> h | Some c \<Rightarrow> h\<lparr>hd_headers := add_set_cookie c (hd_headers h)\<rparr>)"

definition upstream_event :: "fwd_env \<Rightarrow> nat \<Rightarrow> string \<Rightarrow> phc_event list" where
  "upstream_event e i t =
     (if snd (he_reply e i) = Some ''ConnectionRefused'' then [PFail (t @ ''@'' @ sv_name (he_service e))] else [])"

definition outcome_of :: "fwd_env \<Rightarrow> nat \<Rightarrow> upstream_way \<Rightarrow> attempt" where
  "outcome_of e i way =
     (case way of
        ToTarget t h cert ssl cookie \<Rightarrow>
          (let n = hd_status (upstream_reply e i cookie) in Answered (if n = 0 then None else Some n))
      | x \<Rightarrow> NoTarget (he_rest e i))"

subsection \<open>The replays\<close>

definition upstream_start :: "fwd_env \<Rightarrow> up_state" where
  "upstream_start e =
     \<lparr>up_fwd = start_forward (he_service e), up_isRetry = False, up_target = None, up_useSSL = False\<rparr>"

function upstream_run :: "fwd_env \<Rightarrow> nat \<Rightarrow> up_state \<Rightarrow> upstream_way list \<times> up_state" where
  "upstream_run e i st =
     (let (way, st1) = upstream_request e i st;
          (again, f) = attempt_step (he_service e) (outcome_of e i way) (up_fwd st)
      in if again then
           (let (ways, st2) = upstream_run e (Suc i) (st1\<lparr>up_fwd := f, up_isRetry := True\<rparr>) in (way # ways, st2))
         else ([way], st1\<lparr>up_fwd := f\<rparr>))"
  by pat_completeness auto

termination upstream_run
proof (relation "measure (\<lambda>(e, i, st). attempts_left (he_service e) (up_fwd st))")
  fix e i st way st1 again f p q
  assume "p = upstream_request e i st" "(way, st1) = p"
    and "q = attempt_step (he_service e) (outcome_of e i way) (up_fwd st)" "(again, f) = q" "again"
  then have "fst (attempt_step (he_service e) (outcome_of e i way) (up_fwd st))"
    and "f = snd (attempt_step (he_service e) (outcome_of e i way) (up_fwd st))" by (metis fst_conv snd_conv)+
  then show "((e, Suc i, st1\<lparr>up_fwd := f, up_isRetry := True\<rparr>), e, i, st)
      \<in> measure (\<lambda>(e, i, st). attempts_left (he_service e) (up_fwd st))"
    using attempt_step_decreases by simp
qed simp

declare upstream_run.simps [simp del]

definition forward_http :: "fwd_env \<Rightarrow> upstream_way list \<times> up_state" where
  "forward_http e =
     (let st = upstream_start e in
      if hc_needRetry (http_conf e) \<or> fw_failover (up_fwd st) then upstream_run e 0 st
      else (let (way, st1) = upstream_request e 0 st in ([way], st1)))"

text \<open>What the client gets: the head of the last answer; nothing when the rest of the chain answers.\<close>

definition client_head :: "fwd_env \<Rightarrow> head option" where
  "client_head e =
     (let ways = fst (forward_http e) in
      case last ways of
        ToTarget t h cert ssl cookie \<Rightarrow> Some (upstream_reply e (length ways - 1) cookie)
      | x \<Rightarrow> None)"

subsection \<open>The replays are those of the policy\<close>

lemma forward_run_cong:
  "\<forall>k \<ge> i. resp k = resp' k \<Longrightarrow> forward_run s resp i st = forward_run s resp' i st"
proof (induction s resp i st rule: forward_run.induct)
  case (1 s resp i st)
  then show ?case by (simp add: forward_run.simps [of s resp i] forward_run.simps [of s resp' i])
qed

lemma upstream_run_step:
  assumes "upstream_run e i st = (ways, fin)" "upstream_request e i st = (way, st1)"
    and "attempt_step (he_service e) (outcome_of e i way) (up_fwd st) = (again, f)"
  obtains "\<not> again" "ways = [way]" "fin = st1\<lparr>up_fwd := f\<rparr>"
  | rest where "again" "ways = way # rest" "upstream_run e (Suc i) (st1\<lparr>up_fwd := f, up_isRetry := True\<rparr>) = (rest, fin)"
  using assms by (cases again) (auto simp: upstream_run.simps [of e i st] split: prod.splits)

lemma upstream_run_forward:
  "upstream_run e i st = (ways, fin) \<Longrightarrow>
   ways \<noteq> [] \<and> forward_run (he_service e) (\<lambda>k. outcome_of e k (ways ! (k - i))) i (up_fwd st) = (i + length ways - 1, up_fwd fin)"
proof (induction e i st arbitrary: ways fin rule: upstream_run.induct)
  case (1 e i st)
  obtain way st1 where req: "upstream_request e i st = (way, st1)" by (cases "upstream_request e i st")
  obtain again f where stp: "attempt_step (he_service e) (outcome_of e i way) (up_fwd st) = (again, f)"
    by (cases "attempt_step (he_service e) (outcome_of e i way) (up_fwd st)")
  from 1(2) req stp show ?case
  proof (cases rule: upstream_run_step)
    case 1
    then show ?thesis using stp by (simp add: forward_run.simps)
  next
    case (2 rest)
    let ?resp = "\<lambda>k. outcome_of e k (ways ! (k - i))"
    note ih = 1(1) [OF req [symmetric] refl stp [symmetric] refl \<open>again\<close> 2(3)]
    have "forward_run (he_service e) ?resp (Suc i) f =
        forward_run (he_service e) (\<lambda>k. outcome_of e k (rest ! (k - Suc i))) (Suc i) f"
      using 2(2) by (intro forward_run_cong) (simp add: nth_Cons' Suc_diff_le)
    then show ?thesis
      using ih 2(1) stp unfolding 2(2)
      by (simp add: forward_run.simps [of "he_service e" "\<lambda>k. outcome_of e k ((way # rest) ! (k - i))" i])
  qed
qed

lemma forward_http_refines:
  assumes "forward_http e = (ways, fin)"
  shows "ways \<noteq> [] \<and>
    forward_request (he_service e) (\<lambda>k. outcome_of e k (ways ! k)) = (length ways - 1, up_fwd fin)"
proof (cases "retry_limit (he_service e) \<noteq> 0 \<or> fw_failover (start_forward (he_service e))")
  case True
  then have "upstream_run e 0 (upstream_start e) = (ways, fin)"
    using assms by (simp add: forward_http_def upstream_start_def http_conf_def http_service_config_def)
  from upstream_run_forward [OF this] True show ?thesis by (simp add: forward_request_def upstream_start_def)
next
  case False
  have keep: "up_fwd (snd (upstream_request e i st)) = up_fwd st" for i st
    by (simp add: upstream_request_def Let_def split: option.split prod.split)
  show ?thesis
    using assms False keep [of 0 "upstream_start e"]
    by (auto simp: forward_http_def upstream_start_def http_conf_def http_service_config_def forward_request_def
        split: prod.splits)
qed

subsection \<open>Where the attempts go\<close>

fun target_of :: "upstream_way \<Rightarrow> string option" where
  "target_of (ToTarget t h cert ssl cookie) = Some t"
| "target_of ToFailover = None"
| "target_of PassOn = None"

lemma hash_table_endpoint:
  "obj_get (hash_table hash s) v = Some k \<Longrightarrow> k \<in> fst ` set (sv_endpoints s)"
proof -
  have "obj_get (foldl (\<lambda>ob k. obj_set (hash k) k ob) ob ks) v = Some k \<Longrightarrow> k \<in> set ks \<or> obj_get ob v = Some k" for ob ks
    by (induction ks arbitrary: ob) (force split: if_splits)+
  from this [of "[]"] show "obj_get (hash_table hash s) v = Some k \<Longrightarrow> k \<in> fst ` set (sv_endpoints s)"
    by (force simp: hash_table_def)
qed

lemma cookie_target_endpoint:
  "cookie_target hash s bad isRetry hs = Some t \<Longrightarrow> t \<in> fst ` set (sv_endpoints s) \<and> \<not> bad t"
  by (auto simp: cookie_target_def hash_table_endpoint split: if_splits option.splits)

lemma failover_targets: "t \<in> fst ` set (or_default (failover_endpoints s) []) \<Longrightarrow> t \<in> fst ` set (sv_endpoints s)"
  by (force simp: failover_endpoints_def Let_def or_default_def split: if_splits)

definition endpoint_of :: "fwd_env \<Rightarrow> string \<Rightarrow> bool" where
  "endpoint_of e t \<longleftrightarrow> t \<in> fst ` set (sv_endpoints (he_service e))"

definition env_laws :: "fwd_env \<Rightarrow> bool" where
  "env_laws e \<longleftrightarrow> (\<forall>i. lend_law (he_lend e i)) \<and> roll_law (he_roll e) \<and> distinct (map fst (sv_endpoints (he_service e)))"

lemma lent_endpoint:
  assumes "env_laws e" "lent e i st = Some t"
  shows "endpoint_of e t \<and> \<not> is_bad e i t"
proof -
  let ?c = "if fw_onFailover (up_fwd st) then failover_config (http_conf e) else hc_balancer (http_conf e)"
  have law: "lend_law (he_lend e i)" using assms(1) by (simp add: env_laws_def)
  have t: "t \<in> fst ` set (sc_targets ?c)" "\<forall>ts. known_bad e i = Some ts \<longrightarrow> t \<notin> set ts"
    using assms(2) law unfolding lent_def lend_law_def by blast+
  have main: "hc_balancer (http_conf e) = tcp_service_config (he_roll e) (he_service e)"
    by (simp add: http_conf_def http_service_config_def tcp_service_config_def)
  have "endpoint_of e t"
  proof (cases "fw_onFailover (up_fwd st)")
    case True
    then show ?thesis
      using t(1) failover_targets [of t "he_service e"]
      by (simp add: endpoint_of_def failover_config_def http_conf_def http_service_config_def)
  next
    case False
    then have "t \<in> fst ` set (sc_targets (tcp_service_config (he_roll e) (he_service e)))" using t(1) main by simp
    from tcp_config_targets [OF _ _ this] assms(1) show ?thesis by (force simp: endpoint_of_def env_laws_def)
  qed
  then show ?thesis using t(2) by (auto simp: is_bad_def split: option.split)
qed

definition attempt_ok :: "fwd_env \<Rightarrow> nat \<Rightarrow> string option \<Rightarrow> upstream_way \<Rightarrow> bool" where
  "attempt_ok e i prev way \<longleftrightarrow>
     (\<forall>t. target_of way = Some t \<longrightarrow>
        endpoint_of e t \<and> (is_bad e i t \<longrightarrow> prev = Some t \<and> (\<exists>c. he_lend e i c (known_bad e i) = None)))"

lemma upstream_request_ok:
  assumes "env_laws e" "upstream_request e i st = (way, st1)" "\<forall>t. up_target st = Some t \<longrightarrow> endpoint_of e t"
  shows "attempt_ok e i (up_target st) way" "up_target st1 = target_of way"
proof -
  let ?choice = "choose_target (he_hash e) (he_service e) (is_bad e i) (up_isRetry st) (hd_headers (he_head e i))
      (lent e i st) (up_target st)"
  have way: "target_of way = ?choice" "up_target st1 = ?choice"
    using assms(2) by (auto simp: upstream_request_def Let_def split: option.splits prod.splits if_splits)
  then show "up_target st1 = target_of way" by simp
  show "attempt_ok e i (up_target st) way"
    unfolding attempt_ok_def way(1)
  proof (intro allI impI)
    fix t assume t: "?choice = Some t"
    consider "by_cookie e i st = Some t" | "lent e i st = Some t" | "lent e i st = None" "up_target st = Some t"
      using t by (auto simp: choose_target_def by_cookie_def split: option.splits if_splits)
    then show "endpoint_of e t \<and> (is_bad e i t \<longrightarrow> up_target st = Some t \<and> (\<exists>c. he_lend e i c (known_bad e i) = None))"
    proof cases
      case 1
      then show ?thesis using cookie_target_endpoint [OF 1 [unfolded by_cookie_def]] by (simp add: endpoint_of_def)
    next
      case 2
      then show ?thesis using lent_endpoint [OF assms(1)] by simp
    next
      case 3
      then show ?thesis using assms(3) by (auto simp: lent_def)
    qed
  qed
qed

lemma upstream_run_ok:
  "upstream_run e i st = (ways, fin) \<Longrightarrow> env_laws e \<Longrightarrow> \<forall>t. up_target st = Some t \<longrightarrow> endpoint_of e t \<Longrightarrow>
   j < length ways \<Longrightarrow>
   attempt_ok e (i + j) (if j = 0 then up_target st else target_of (ways ! (j - 1))) (ways ! j)"
proof (induction e i st arbitrary: ways fin j rule: upstream_run.induct)
  case (1 e i st)
  obtain way st1 where req: "upstream_request e i st = (way, st1)" by (cases "upstream_request e i st")
  obtain again f where stp: "attempt_step (he_service e) (outcome_of e i way) (up_fwd st) = (again, f)"
    by (cases "attempt_step (he_service e) (outcome_of e i way) (up_fwd st)")
  note ok = upstream_request_ok [OF 1(3) req 1(4)]
  from 1(2) req stp show ?case
  proof (cases rule: upstream_run_step)
    case 1
    then show ?thesis using ok(1) \<open>j < length ways\<close> by simp
  next
    case (2 rest)
    show ?thesis
    proof (cases j)
      case 0
      then show ?thesis using ok(1) 2(2) by simp
    next
      case (Suc n)
      have "\<forall>t. up_target (st1\<lparr>up_fwd := f, up_isRetry := True\<rparr>) = Some t \<longrightarrow> endpoint_of e t"
        using ok by (simp add: attempt_ok_def)
      from 1(1) [OF req [symmetric] refl stp [symmetric] refl \<open>again\<close> 2(3) 1(3) this, of n]
      have "attempt_ok e (Suc i + n) (if n = 0 then target_of way else target_of (rest ! (n - 1))) (rest ! n)"
        using 1(5) 2(2) Suc ok(2) by (cases n) simp_all
      then show ?thesis using Suc 2(2) by (cases n) simp_all
    qed
  qed
qed

lemma forward_http_ok:
  assumes "forward_http e = (ways, fin)" "env_laws e" "j < length ways"
  shows "attempt_ok e j (if j = 0 then None else target_of (ways ! (j - 1))) (ways ! j)"
proof (cases "hc_needRetry (http_conf e) \<or> fw_failover (up_fwd (upstream_start e))")
  case True
  then have "upstream_run e 0 (upstream_start e) = (ways, fin)" using assms(1) by (simp add: forward_http_def Let_def)
  from upstream_run_ok [OF this assms(2) _ assms(3)] show ?thesis by (cases j) (simp_all add: upstream_start_def)
next
  case False
  obtain way st1 where req: "upstream_request e 0 (upstream_start e) = (way, st1)"
    by (cases "upstream_request e 0 (upstream_start e)")
  then have "ways = [way]" using assms(1) False by (simp add: forward_http_def Let_def)
  then show ?thesis using upstream_request_ok(1) [OF assms(2) req] assms(3) by (simp add: upstream_start_def)
qed


definition ex_checks :: "phc_event list" where
  "ex_checks = [PFail ''a:1@svc'', PTcp ''a:1@svc'' (Some ''ConnectionReset'')]"

definition ex_records :: "nat \<Rightarrow> phc_target obj \<times> unhealthy" where
  "ex_records i =
     phc_run (\<lambda>x y. False) (if i = 0 then [] else ex_checks) (phc_targets [(''svc'', Some demo_section, [''a:1'', ''b:1''])], [])"

text \<open>The target \<open>a:1\<close> is down after the first attempt; the answers are good from the third one on.\<close>

definition ex_fwd :: fwd_env where
  "ex_fwd =
     \<lparr>he_service = ex_service\<lparr>sv_name := ''svc''\<rparr>, he_roll = (\<lambda>i n. 0), he_hash = id, he_cached = True,
      he_unhealthy = (\<lambda>i. snd (ex_records i)), he_lend = (\<lambda>i. ex_lend),
      he_head = (\<lambda>i. \<lparr>hd_method = ''GET'', hd_path = ''/'', hd_headers = [], hd_status = 0\<rparr>),
      he_reply = (\<lambda>i. (\<lparr>hd_method = [], hd_path = [], hd_headers = [], hd_status = if i < 2 then 503 else 200\<rparr>, None)),
      he_rest = (\<lambda>i. 404), he_until = (\<lambda>i. ''T''), he_preserveHost = True, he_showStatus = False\<rparr>"

lemma first_attempt: "fst (forward_http e) ! 0 = fst (upstream_request e 0 (upstream_start e))"
  by (simp add: forward_http_def Let_def upstream_run.simps [of e 0] split: prod.split)

lemma ex_first: "target_of (fst (forward_http ex_fwd) ! 0) = Some ''a:1''"
  unfolding first_attempt by code_simp

lemma ex_laws: "env_laws ex_fwd"
proof -
  have "distinct (map fst (sv_endpoints (he_service ex_fwd)))" by code_simp
  then show ?thesis by (simp add: env_laws_def ex_lend_law roll_law_def) (simp add: ex_fwd_def ex_lend_law)
qed


text \<open>A target that the balancer would not lend again is used again: the variable keeps it.\<close>

lemma dead_target_again:
  assumes "up_isRetry st" "lent e i st = None" "up_target st = Some t"
  shows "target_of (fst (upstream_request e i st)) = Some t"
  using assms by (simp add: upstream_request_def choose_target_def cookie_target_def Let_def split: prod.split)

subsection \<open>Mirrored requests\<close>

text \<open>
  \<open>pjs/filter/request-mirror.js\<close>: a copy of the request for every mirror, which goes through the
  forwarding with a service of the same endpoints that is not retried.
\<close>

definition unretried_service :: "string \<Rightarrow> pj_service \<Rightarrow> pj_service" where
  "unretried_service name s = s\<lparr>sv_name := name, sv_retries := Some 0, sv_retryOn := None, sv_backoff := None\<rparr>"

definition mirror_copies :: "pj_service obj \<Rightarrow> (string \<times> message) list \<Rightarrow> (pj_service \<times> message) list" where
  "mirror_copies services requests =
     List.map_filter (\<lambda>(name, msg). map_option (\<lambda>s. (unretried_service name s, msg)) (obj_get services name)) requests"

text \<open>A mirror sees a request once, or twice when it has failover targets and the first answer is an error.\<close>

lemma mirror_attempts:
  assumes "forward_http e = (ways, fin)" "he_service e = unretried_service name s"
  shows "length ways \<le> (if failover_endpoints s = None then 1 else 2)"
proof -
  have "forward_request (he_service e) (\<lambda>k. outcome_of e k (ways ! k)) = (length ways - 1, up_fwd fin)"
    using forward_http_refines [OF assms(1)] by simp
  from conjunct1 [OF replays_bounded [OF this]]
  have "length ways - 1 \<le> (if failover_endpoints s = None then 0 else 1)"
    by (simp add: assms(2) unretried_service_def retry_limit_def failover_endpoints_def split: if_splits)
  then show ?thesis by (cases "failover_endpoints s") auto
qed

end
