(* ===== verification/Pjs_Chain.thy ===== *)
theory Pjs_Chain
  imports Pjs_Rewrite Pjs_Forward Pjs_Web Pjs_Circuit Pjs_Access
begin

text \<open>
  The chain of modules over an HTTP request of the first version (\<open>launch\<close> in \<open>pjs/main.js\<close>
  with the chain \<open>HTTPRoute\<close> of \<open>pjs/config.json\<close>): each module answers, delivers the request,
  or hands it on to the next and may change the answer on its way back. The modules are the
  definitions of the other theories; here they are put together.
\<close>

subsection \<open>Requests and modules\<close>

text \<open>The variables that the modules share through \<open>import\<close> and \<open>export\<close>.\<close>

record request =
  rq_head :: head
  rq_body :: "string list"
  rq_authorized :: bool
  rq_route :: route_state
  rq_service :: "string option"

datatype arrival =
  Answered message | Aborted abort_answer | Served string | Forwarded string request | Raised js_error | OffEnd request

datatype step = Go request "message \<Rightarrow> message" | Done arrival

fun run_chain :: "(request \<Rightarrow> step) list \<Rightarrow> request \<Rightarrow> arrival \<times> (message \<Rightarrow> message)" where
  "run_chain [] r = (OffEnd r, \<lambda>m. m)"
| "run_chain (s # ss) r =
     (case s r of
        Done a \<Rightarrow> (a, \<lambda>m. m)
      | Go r1 ans \<Rightarrow> (let (a, backs) = run_chain ss r1 in (a, \<lambda>m. ans (backs m))))"

text \<open>
  What the modules look up while the request passes: the configuration that the caches hold, and
  the state that requests share, as it is at that time (the name that a balancer lends, the
  breaker of a service, the limits and quotas, a random roll). \<open>ce_observe\<close> is what access logs,
  metrics, tracing and logging do to the head; \<open>ce_http\<close> the head that variables of the response
  refer to; \<open>ce_page\<close> the web server.
\<close>

record 'q chain_env =
  ce_regex :: "string \<Rightarrow> string \<Rightarrow> bool"
  ce_conf :: pj_config
  ce_port :: string
  ce_sni :: "string option"
  ce_remote :: string
  ce_consumers :: "consumer list"
  ce_known :: "string \<Rightarrow> bool"
  ce_auth :: "pj_rule \<Rightarrow> auth_conf"
  ce_lent :: "pj_rule \<Rightarrow> string option"
  ce_abort :: "route_state \<Rightarrow> abort_conf option"
  ce_roll :: nat
  ce_breaker :: "string \<Rightarrow> (breaker_conf \<times> 'q breaker) option"
  ce_consume :: "'q \<Rightarrow> nat \<times> 'q"
  ce_domain_limit :: "pj_domain option \<Rightarrow> 'q throttle_limit option"
  ce_route_limit :: "pj_rule option \<Rightarrow> 'q throttle_limit option"
  ce_observe :: "head \<Rightarrow> head"
  ce_vars :: var_env
  ce_noted :: bool
  ce_filters :: "pj_rule \<Rightarrow> pj_filter list option"
  ce_own_filters :: "pj_rule \<Rightarrow> string \<Rightarrow> pj_filter list option"
  ce_pages :: "route_state \<Rightarrow> error_page list"
  ce_page :: "string \<Rightarrow> string \<Rightarrow> message"
  ce_redirects :: "route_state \<Rightarrow> string obj option"
  ce_http :: head

definition stop_or_go :: "arrival option \<Rightarrow> request \<Rightarrow> step" where
  "stop_or_go a r = (case a of Some x \<Rightarrow> Done x | None \<Rightarrow> Go r (\<lambda>m. m))"

definition auth_module :: "'q chain_env \<Rightarrow> request \<Rightarrow> step" where
  "auth_module e r = Go (r\<lparr>rq_authorized := authorized (ce_consumers e) (hd_headers (rq_head r))\<rparr>) (\<lambda>m. m)"

definition routing_module :: "'q chain_env \<Rightarrow> request \<Rightarrow> step" where
  "routing_module e r =
     (let st = route_start (ce_regex e) (ce_conf e) (ce_port e) (ce_sni e) (rq_head r) in
      case limit_body (body_limit (ce_conf e) st) (rq_body r) of
        Inl m \<Rightarrow> Done (Answered m)
      | Inr chunks \<Rightarrow> Go (r\<lparr>rq_route := st, rq_body := chunks\<rparr>) (\<lambda>m. m))"

definition fault_stop :: "'q chain_env \<Rightarrow> route_state \<Rightarrow> arrival option" where
  "fault_stop e st =
     (case abort_fault (map_option pd_type (rt_domain st)) (ce_abort e st) (ce_roll e) of
        Inl err \<Rightarrow> Some (Raised err)
      | Inr a \<Rightarrow> map_option Aborted a)"

definition fault_module :: "'q chain_env \<Rightarrow> request \<Rightarrow> step" where
  "fault_module e r = stop_or_go (fault_stop e (rq_route r)) r"

definition service_module :: "'q chain_env \<Rightarrow> request \<Rightarrow> step" where
  "service_module e r =
     (let hs = hd_headers (rq_head r) in
      case rt_route (rq_route r) of
        None \<Rightarrow> Done (Answered (default_message hs))
      | Some rule \<Rightarrow>
          (case service_start (ce_known e) (ce_auth e rule) (rq_authorized r) (pr_serverRoot rule) (ce_lent e rule)
               (ce_remote e) hs of
             Unauthorized m \<Rightarrow> Done (Answered m)
           | ServeFiles dir \<Rightarrow> Done (Served dir)
           | ToService name hs1 \<Rightarrow> Go (r\<lparr>rq_service := Some name, rq_head := (rq_head r)\<lparr>hd_headers := hs1\<rparr>\<rparr>) (\<lambda>m. m)
           | NoService hs1 \<Rightarrow> Done (Answered (default_message hs1))))"

definition observe_module :: "'q chain_env \<Rightarrow> request \<Rightarrow> step" where
  "observe_module e r = Go (r\<lparr>rq_head := ce_observe e (rq_head r)\<rparr>) (\<lambda>m. m)"

definition circuit_stop :: "'q chain_env \<Rightarrow> string option \<Rightarrow> arrival option" where
  "circuit_stop e service =
     (case Option.bind service (ce_breaker e) of
        Some (conf, b) \<Rightarrow> if br_degraded b then Some (Answered (breaker_message conf)) else None
      | None \<Rightarrow> None)"

definition circuit_module :: "'q chain_env \<Rightarrow> request \<Rightarrow> step" where
  "circuit_module e r = stop_or_go (circuit_stop e (rq_service r)) r"

definition throttle_domain_module :: "'q chain_env \<Rightarrow> request \<Rightarrow> step" where
  "throttle_domain_module e r =
     stop_or_go (map_option Answered (throttle_answer (ce_consume e) (ce_domain_limit e (rt_domain (rq_route r))))) r"

definition throttle_route_module :: "'q chain_env \<Rightarrow> request \<Rightarrow> step" where
  "throttle_route_module e r =
     stop_or_go (map_option Answered (throttle_answer (ce_consume e) (ce_route_limit e (rt_route (rq_route r))))) r"

text \<open>The answer of an error page, and the rewriting of redirections in answers.\<close>

definition with_error_page :: "'q chain_env \<Rightarrow> route_state \<Rightarrow> message \<Rightarrow> message" where
  "with_error_page e st m =
     (case error_response (ce_pages e st) (hd_status (ms_head m)) of
        Keep \<Rightarrow> m
      | Instead x \<Rightarrow> x
      | ServePage dir page status \<Rightarrow>
          (let x = ce_page e dir page in x\<lparr>ms_head := (ms_head x)\<lparr>hd_status := status\<rparr>\<rparr>))"

definition with_location :: "'q chain_env \<Rightarrow> route_state \<Rightarrow> message \<Rightarrow> message" where
  "with_location e st m =
     (case ce_redirects e st of
        None \<Rightarrow> m
      | Some pr \<Rightarrow>
          m\<lparr>ms_head := (ms_head m)\<lparr>hd_headers := proxy_redirect (ce_vars e) (ce_http e) pr (hd_headers (ms_head m))\<rparr>\<rparr>)"

definition error_page_module :: "'q chain_env \<Rightarrow> request \<Rightarrow> step" where
  "error_page_module e r = Go r (with_error_page e (rq_route r))"

definition proxy_redirect_module :: "'q chain_env \<Rightarrow> request \<Rightarrow> step" where
  "proxy_redirect_module e r = Go r (with_location e (rq_route r))"

text \<open>The filters of the service for this rule, and those of the rule.\<close>

definition service_filters :: "'q chain_env \<Rightarrow> request \<Rightarrow> pj_filter list option" where
  "service_filters e r =
     (case (rt_route (rq_route r), rq_service r) of (Some rule, Some name) \<Rightarrow> ce_own_filters e rule name | x \<Rightarrow> None)"

definition rule_filters :: "'q chain_env \<Rightarrow> request \<Rightarrow> pj_filter list option" where
  "rule_filters e r = Option.bind (rt_route (rq_route r)) (ce_filters e)"

definition redirect_module :: "'q chain_env \<Rightarrow> request \<Rightarrow> step" where
  "redirect_module e r =
     (case redirect_request (ce_vars e) (rt_route (rq_route r)) (service_filters e r) (rule_filters e r) (rq_head r) of
        Inl err \<Rightarrow> Done (Raised err)
      | Inr (Some (h, m)) \<Rightarrow> Done (Answered m)
      | Inr None \<Rightarrow> Go r (\<lambda>m. m))"

definition with_headers ::
    "'q chain_env \<Rightarrow> pj_filter list option \<Rightarrow> pj_filter list option \<Rightarrow> message \<Rightarrow> message" where
  "with_headers e own fs m = m\<lparr>ms_head := modify_response (ce_vars e) (ce_noted e) own fs (ms_head m)\<rparr>"

definition modifier_module :: "'q chain_env \<Rightarrow> request \<Rightarrow> step" where
  "modifier_module e r =
     Go (r\<lparr>rq_head := modify_request (ce_vars e) (service_filters e r) (rule_filters e r) (rq_head r)\<rparr>)
       (with_headers e (service_filters e r) (rule_filters e r))"

definition rewrite_module :: "'q chain_env \<Rightarrow> request \<Rightarrow> step" where
  "rewrite_module e r =
     Go (r\<lparr>rq_head := rewrite_request (ce_vars e) (rt_route (rq_route r)) (service_filters e r) (rule_filters e r)
          (rq_head r)\<rparr>) (\<lambda>m. m)"

text \<open>A mirror gets a copy of the request; the request itself goes on.\<close>

definition mirror_module :: "'q chain_env \<Rightarrow> request \<Rightarrow> step" where
  "mirror_module e r = Go r (\<lambda>m. m)"

definition forward_module :: "'q chain_env \<Rightarrow> request \<Rightarrow> step" where
  "forward_module e r = (case rq_service r of Some name \<Rightarrow> Done (Forwarded name r) | None \<Rightarrow> Go r (\<lambda>m. m))"

definition default_module :: "'q chain_env \<Rightarrow> request \<Rightarrow> step" where
  "default_module e r = Done (Answered (default_message (hd_headers (rq_head r))))"

text \<open>The chain of HTTP ports, from \<open>http/codec.js\<close> on. Access logs, metrics, tracing and logging
  are one step, which may change the headers of the request.\<close>

definition http_chain :: "'q chain_env \<Rightarrow> (request \<Rightarrow> step) list" where
  "http_chain e =
     [auth_module e, routing_module e, fault_module e, service_module e, observe_module e, circuit_module e,
      throttle_domain_module e, throttle_route_module e, error_page_module e, proxy_redirect_module e, redirect_module e,
      modifier_module e, rewrite_module e, mirror_module e, forward_module e, default_module e]"

definition new_request :: "head \<Rightarrow> string list \<Rightarrow> request" where
  "new_request h body =
     \<lparr>rq_head = h, rq_body = body, rq_authorized = False, rq_route = no_route, rq_service = None\<rparr>"

subsection \<open>What the chain does\<close>

lemma run_chain_go: "s r = Go r1 (\<lambda>m. m) \<Longrightarrow> run_chain (s # ss) r = run_chain ss r1"
  by (simp add: Let_def split: prod.split)

lemma run_chain_done: "s r = Done a \<Longrightarrow> run_chain (s # ss) r = (a, \<lambda>m. m)"
  by simp

lemma guard_stage:
  assumes "g r = stop_or_go a r" "a \<noteq> Some (Forwarded svc r')"
  shows "run_chain (g # ss) r = (Forwarded svc r', ans) \<longleftrightarrow>
    a = None \<and> run_chain ss r = (Forwarded svc r', ans)"
  using assms by (cases a) (simp_all add: stop_or_go_def run_chain_go del: run_chain.simps, simp)

text \<open>The head that a service gets, and what becomes of its answer.\<close>

definition head_sent :: "'q chain_env \<Rightarrow> pj_rule \<Rightarrow> string \<Rightarrow> head \<Rightarrow> head" where
  "head_sent e rule svc h =
     (let own = ce_own_filters e rule svc; fs = ce_filters e rule in
      rewrite_request (ce_vars e) (Some rule) own fs (modify_request (ce_vars e) own fs
        (ce_observe e (h\<lparr>hd_headers := forwarded_for (ce_remote e) (hd_headers h)\<rparr>))))"

definition answer_of :: "'q chain_env \<Rightarrow> route_state \<Rightarrow> pj_rule \<Rightarrow> string \<Rightarrow> message \<Rightarrow> message" where
  "answer_of e st rule svc m =
     with_error_page e st (with_location e st (with_headers e (ce_own_filters e rule svc) (ce_filters e rule) m))"

definition redirects :: "'q chain_env \<Rightarrow> pj_rule \<Rightarrow> string \<Rightarrow> head \<Rightarrow> bool" where
  "redirects e rule svc h =
     (redirect_request (ce_vars e) (Some rule) (ce_own_filters e rule svc) (ce_filters e rule)
        (ce_observe e (h\<lparr>hd_headers := forwarded_for (ce_remote e) (hd_headers h)\<rparr>)) \<noteq> Inr None)"

text \<open>The conditions of the stages.\<close>

definition admitted :: "'q chain_env \<Rightarrow> head \<Rightarrow> pj_rule \<Rightarrow> string \<Rightarrow> bool" where
  "admitted e h rule svc \<longleftrightarrow>
     \<not> unauthorized (ce_auth e rule) (authorized (ce_consumers e) (hd_headers h)) \<and>
     \<not> truthy (pr_serverRoot rule) \<and> service_of (ce_known e) (ce_lent e rule) = Some svc"

definition unhindered :: "'q chain_env \<Rightarrow> route_state \<Rightarrow> pj_rule \<Rightarrow> string \<Rightarrow> bool" where
  "unhindered e st rule svc \<longleftrightarrow>
     abort_fault (map_option pd_type (rt_domain st)) (ce_abort e st) (ce_roll e) = Inr None \<and>
     (case ce_breaker e svc of Some (conf, b) \<Rightarrow> \<not> br_degraded b | None \<Rightarrow> True) \<and>
     throttle_answer (ce_consume e) (ce_domain_limit e (rt_domain st)) = None \<and>
     throttle_answer (ce_consume e) (ce_route_limit e (Some rule)) = None"

lemma service_stage:
  "run_chain (service_module e # ss) r = (Forwarded svc r', ans) \<longleftrightarrow>
     (\<exists>rule name. rt_route (rq_route r) = Some rule \<and>
        \<not> unauthorized (ce_auth e rule) (rq_authorized r) \<and> \<not> truthy (pr_serverRoot rule) \<and>
        service_of (ce_known e) (ce_lent e rule) = Some name \<and>
        run_chain ss (r\<lparr>rq_service := Some name,
          rq_head := (rq_head r)\<lparr>hd_headers := forwarded_for (ce_remote e) (hd_headers (rq_head r))\<rparr>\<rparr>) =
          (Forwarded svc r', ans))"
  by (cases "rt_route (rq_route r)")
     (auto simp: service_module_def service_start_def Let_def split: option.split prod.split)

lemma forward_stages:
  "run_chain [error_page_module e, proxy_redirect_module e, redirect_module e, modifier_module e,
      rewrite_module e, mirror_module e, forward_module e, default_module e] r = (Forwarded svc r', ans) \<longleftrightarrow>
    rq_service r = Some svc \<and>
    redirect_request (ce_vars e) (rt_route (rq_route r)) (service_filters e r) (rule_filters e r) (rq_head r) = Inr None \<and>
    r' = r\<lparr>rq_head := rewrite_request (ce_vars e) (rt_route (rq_route r)) (service_filters e r) (rule_filters e r)
          (modify_request (ce_vars e) (service_filters e r) (rule_filters e r) (rq_head r))\<rparr> \<and>
    ans = (\<lambda>m. with_error_page e (rq_route r) (with_location e (rq_route r)
          (with_headers e (service_filters e r) (rule_filters e r) m)))"
  by (auto simp: error_page_module_def proxy_redirect_module_def redirect_module_def modifier_module_def
      rewrite_module_def mirror_module_def forward_module_def default_module_def service_filters_def rule_filters_def
      Let_def split: sum.splits option.splits prod.splits)

lemma guard_not_forward:
  "map_option Answered x \<noteq> Some (Forwarded svc r')" "fault_stop e st \<noteq> Some (Forwarded svc r')"
  "circuit_stop e n \<noteq> Some (Forwarded svc r')"
  by (auto simp: fault_stop_def circuit_stop_def split: sum.split option.split)

lemma fault_stage:
  "run_chain (fault_module e # ss) r = (Forwarded svc r', ans) \<longleftrightarrow>
     fault_stop e (rq_route r) = None \<and> run_chain ss r = (Forwarded svc r', ans)"
  by (rule guard_stage [OF fault_module_def guard_not_forward(2)])

lemma circuit_stage:
  "run_chain (circuit_module e # ss) r = (Forwarded svc r', ans) \<longleftrightarrow>
     circuit_stop e (rq_service r) = None \<and> run_chain ss r = (Forwarded svc r', ans)"
  by (rule guard_stage [OF circuit_module_def guard_not_forward(3)])

lemma throttle_domain_stage:
  "run_chain (throttle_domain_module e # ss) r = (Forwarded svc r', ans) \<longleftrightarrow>
     throttle_answer (ce_consume e) (ce_domain_limit e (rt_domain (rq_route r))) = None \<and>
     run_chain ss r = (Forwarded svc r', ans)"
  by (simp add: guard_stage [OF throttle_domain_module_def guard_not_forward(1)] del: run_chain.simps)

lemma throttle_route_stage:
  "run_chain (throttle_route_module e # ss) r = (Forwarded svc r', ans) \<longleftrightarrow>
     throttle_answer (ce_consume e) (ce_route_limit e (rt_route (rq_route r))) = None \<and>
     run_chain ss r = (Forwarded svc r', ans)"
  by (simp add: guard_stage [OF throttle_route_module_def guard_not_forward(1)] del: run_chain.simps)

lemma service_chain:
  "run_chain [service_module e, observe_module e, circuit_module e, throttle_domain_module e,
      throttle_route_module e, error_page_module e, proxy_redirect_module e, redirect_module e, modifier_module e,
      rewrite_module e, mirror_module e, forward_module e, default_module e] r = (Forwarded svc r', ans) \<longleftrightarrow>
   (\<exists>rule. rt_route (rq_route r) = Some rule \<and>
      \<not> unauthorized (ce_auth e rule) (rq_authorized r) \<and> \<not> truthy (pr_serverRoot rule) \<and>
      service_of (ce_known e) (ce_lent e rule) = Some svc \<and> circuit_stop e (Some svc) = None \<and>
      throttle_answer (ce_consume e) (ce_domain_limit e (rt_domain (rq_route r))) = None \<and>
      throttle_answer (ce_consume e) (ce_route_limit e (Some rule)) = None \<and> \<not> redirects e rule svc (rq_head r) \<and>
      r' = r\<lparr>rq_service := Some svc, rq_head := head_sent e rule svc (rq_head r)\<rparr> \<and>
      ans = answer_of e (rq_route r) rule svc)"
proof -
  have observe: "run_chain (observe_module e # ss) q = run_chain ss (q\<lparr>rq_head := ce_observe e (rq_head q)\<rparr>)"
    for ss q by (rule run_chain_go) (simp add: observe_module_def)
  show ?thesis
    unfolding service_stage observe circuit_stage throttle_domain_stage throttle_route_stage forward_stages
    by (auto simp: redirects_def head_sent_def answer_of_def [abs_def] service_filters_def rule_filters_def Let_def)
qed

lemma limit_body_kept: "limit_body m chunks = Inr kept \<longleftrightarrow> limit_body m chunks = Inr chunks \<and> kept = chunks"
  by (auto simp: body_limited split: if_splits)

lemma unhindered_iff:
  "unhindered e st rule svc \<longleftrightarrow> fault_stop e st = None \<and> circuit_stop e (Some svc) = None \<and>
     throttle_answer (ce_consume e) (ce_domain_limit e (rt_domain st)) = None \<and>
     throttle_answer (ce_consume e) (ce_route_limit e (Some rule)) = None"
  by (auto simp: unhindered_def fault_stop_def circuit_stop_def split: sum.split option.split)


subsection \<open>An example\<close>

definition ex_chain :: "nat chain_env" where
  "ex_chain =
     \<lparr>ce_regex = (\<lambda>p s. False), ce_conf = ex_config, ce_port = ''8080'', ce_sni = None, ce_remote = ''10.0.0.1'',
      ce_consumers = [\<lparr>cm_name = ''u'', cm_headers = [(''host'', ''A.com:8080'')]\<rparr>], ce_known = (\<lambda>s. s = ''svc''),
      ce_auth = (\<lambda>r. \<lparr>ac_enabled = True, ac_type = None\<rparr>), ce_lent = (\<lambda>r. Some ''svc''), ce_abort = (\<lambda>st. None),
      ce_roll = 0, ce_breaker = (\<lambda>s. None), ce_consume = (\<lambda>q. (min q 1, q - 1)),
      ce_domain_limit = (\<lambda>d. Some \<lparr>ra_count = 0, ra_backlog = 0, ra_quota = 1, ra_response = reply 429 [] []\<rparr>),
      ce_route_limit = (\<lambda>r. None), ce_observe = (\<lambda>h. h),
      ce_vars = \<lparr>ve_attr = (\<lambda>x. None), ve_consumer = (\<lambda>x. None), ve_inbound = (\<lambda>x. None)\<rparr>, ce_noted = True,
      ce_filters = (\<lambda>r. None), ce_own_filters = (\<lambda>r s. None), ce_pages = (\<lambda>st. []), ce_page = (\<lambda>d p. reply 404 [] []),
      ce_redirects = (\<lambda>st. None), ce_http = no_head\<rparr>"


end
