(* ===== verification/Pjs_Usage.thy ===== *)
theory Pjs_Usage
  imports Prelude
begin

text \<open>
  \<open>pjs/common/resource-usage.js\<close>: the use of processor and memory, read from the files below
  \<open>/proc\<close> and sent to the metrics and a log. The contents of the files are arguments, absent when
  they cannot be read; \<open>toFixed\<close> belongs to the host and is left to the reader of the number.
\<close>

text \<open>A quotient of numbers: \<open>NaN\<close>, also for 0 by 0, or infinite.\<close>

datatype quotient = NotANumber | Infinite bool | Quotient rat

definition divide_js :: "num_js \<Rightarrow> num_js \<Rightarrow> quotient" where
  "divide_js a b =
     (case (a, b) of
        (Some x, Some y) \<Rightarrow>
          if y = 0 then (if x = 0 then NotANumber else Infinite (0 < x)) else Quotient (x / y)
      | _ \<Rightarrow> NotANumber)"

definition item :: "nat \<Rightarrow> string list \<Rightarrow> string option" where
  "item i xs = (if i < length xs then Some (xs ! i) else None)"

definition number_at :: "nat \<Rightarrow> string list \<Rightarrow> num_js" where
  "number_at i xs = Option.bind (item i xs) to_number"

definition lift2 :: "(rat \<Rightarrow> rat \<Rightarrow> rat) \<Rightarrow> num_js \<Rightarrow> num_js \<Rightarrow> num_js" where
  "lift2 f a b = (case (a, b) of (Some x, Some y) \<Rightarrow> Some (f x y) | _ \<Rightarrow> None)"

text \<open>
  Ticks since the start over seconds since the start, where a tick is a hundredth of a second:
  the quotient is a percentage. A negative number of seconds counts as one.
\<close>

definition cpu_usage :: "string option \<Rightarrow> string option \<Rightarrow> quotient option" where
  "cpu_usage stat uptime =
     (case (stat, Option.bind uptime (\<lambda>s. item 0 (split_on CHR ''.'' s))) of
        (Some s, Some su) \<Rightarrow>
          if su = [] then None
          else
            (let items = split_on CHR '' '' s;
                 dr = lift2 (\<lambda>x y. x - y / 100) (to_number su) (number_at 21 items);
                 ur = lift2 (+) (number_at 13 items) (number_at 14 items)
             in Some (divide_js ur (case dr of Some d \<Rightarrow> if d < 0 then Some 1 else Some d | None \<Rightarrow> None)))
      | _ \<Rightarrow> None)"

text \<open>The second word of the line \<open>MemTotal\<close>, in kilobytes; pages have four of them.\<close>

definition mem_size :: "string option \<Rightarrow> string option" where
  "mem_size meminfo =
     Option.bind meminfo (\<lambda>s.
       Option.bind (item 0 (filter (starts_with ''MemTotal'') (split_on (CHR 0x0A) s)))
         (\<lambda>line. item 1 (filter (\<lambda>e. e \<noteq> []) (split_on CHR '' '' line))))"

definition mem_usage :: "string option \<Rightarrow> string option \<Rightarrow> quotient" where
  "mem_usage statm memSize =
     (let ram = Option.bind (Option.bind statm (\<lambda>s. item 1 (split_on CHR '' '' s))) to_number in
      divide_js (map_option (\<lambda>x. x * 4 * 100) ram) (Option.bind memSize to_number))"

text \<open>The host name, whose line breaks are left out.\<close>

definition host_name_of :: "string option \<Rightarrow> string option \<Rightarrow> string option \<Rightarrow> string option" where
  "host_name_of pod host cmd =
     (if truthy pod then pod else if truthy host then host
      else map_option (filter (\<lambda>c. c \<noteq> CHR 0x0A)) cmd)"

text \<open>What the task does every time: both gauges are set, and an entry is logged where a log is configured.\<close>

record usage_entry =
  us_host :: "string option"
  us_cpu :: "quotient option"
  us_mem :: quotient

definition scrape ::
    "bool \<Rightarrow> string option \<Rightarrow> string option \<Rightarrow> string option \<Rightarrow> string option \<Rightarrow> string option \<Rightarrow>
     (quotient option \<times> quotient) \<times> usage_entry list" where
  "scrape logged hostname stat uptime statm memSize =
     (let cpu = cpu_usage stat uptime; mem = mem_usage statm memSize in
      ((cpu, mem), if logged then [\<lparr>us_host = hostname, us_cpu = cpu, us_mem = mem\<rparr>] else []))"

text \<open>
  The name of the program stands in parentheses in \<open>/proc/self/stat\<close>; with a space in it every
  number is read one place too early.
\<close>

lemma split_space: "CHR '' '' \<notin> set a \<Longrightarrow> split_on CHR '' '' (a @ CHR '' '' # s) = a # split_on CHR '' '' s"
  by (induction a) auto

lemma spaced_name_shifts:
  assumes "CHR '' '' \<notin> set pid" "CHR '' '' \<notin> set a" "CHR '' '' \<notin> set b"
  shows "number_at (Suc (Suc (Suc i))) (split_on CHR '' '' (pid @ '' '' @ a @ '' '' @ b @ '' '' @ rest)) =
     number_at (Suc (Suc i)) (split_on CHR '' '' (pid @ '' '' @ a @ b @ '' '' @ rest))"
proof -
  have "split_on CHR '' '' (pid @ '' '' @ a @ '' '' @ b @ '' '' @ rest) = pid # a # b # split_on CHR '' '' rest"
    using assms by (simp add: split_space)
  moreover have "split_on CHR '' '' (pid @ '' '' @ a @ b @ '' '' @ rest) = pid # (a @ b) # split_on CHR '' '' rest"
    using assms split_space [of "a @ b" rest] by (simp add: split_space)
  ultimately show ?thesis by (simp add: number_at_def item_def)
qed

end
